(* ===== verification/DoN_Prelude.thy ===== *)
theory DoN_Prelude
  imports Main "HOL-Library.Word"
begin

text \<open>
  Shared vocabulary of the development: names for the Rust machine integers, little-endian byte
  images, the checked and saturating operations of the standard library that the networking crate
  uses, the ordered map \<^verbatim>\<open>std::collections::BTreeMap\<close>, and the interfaces (as locales) that the
  components are verified against:
  \<^item> \<open>ordered_map\<close>: what a lookup returns after an insert, a removal or a retain, and that a map is
    determined by its lookups;
  \<^item> \<open>codec\<close> and \<open>canonical_codec\<close>: a decoder inverts its encoder, and (canonical) accepts nothing
    but encodings;
  \<^item> \<open>prefix_codec\<close>: a self-delimiting record that is read off the front of a longer buffer.
  The collection \<open>le_eval\<close> holds the equations that compute a byte image at a numeral width.
\<close>

unbundle bit_operations_syntax

named_theorems le_eval "equations that compute little-endian images at numeral widths"

section \<open>Machine integers\<close>

type_synonym u8 = "8 word"
type_synonym u16 = "16 word"
type_synonym u32 = "32 word"
type_synonym u64 = "64 word"

text \<open>
  \<^verbatim>\<open>i16\<close>, \<^verbatim>\<open>i32\<close>: the same bits, read through \<^const>\<open>sint\<close> where the code compares or converts them.
\<close>

type_synonym i16 = "16 word"
type_synonym i32 = "32 word"

text \<open>A fallible function returns \<open>Inl e\<close> for \<^verbatim>\<open>Err(e)\<close> and \<open>Inr x\<close> for \<^verbatim>\<open>Ok(x)\<close>.\<close>

type_synonym ('a, 'e) result = "'e + 'a"

text \<open>
  \<^verbatim>\<open>i8\<close> is the slot number of a player and a key of ordered maps, so it is a type of its own, ordered
  by its signed value.
\<close>

datatype i8 = I8 (i8_bits: u8)

definition i8_val :: "i8 \<Rightarrow> int" where
  "i8_val p = sint (i8_bits p)"

lemma i8_val_inject [simp]: "i8_val p = i8_val q \<longleftrightarrow> p = q"
  by (cases p; cases q) (auto simp: i8_val_def signed_word_eqI)

instantiation i8 :: linorder
begin

definition less_eq_i8 :: "i8 \<Rightarrow> i8 \<Rightarrow> bool" where
  "p \<le> q \<longleftrightarrow> i8_val p \<le> i8_val q"

definition less_i8 :: "i8 \<Rightarrow> i8 \<Rightarrow> bool" where
  "p < q \<longleftrightarrow> i8_val p < i8_val q"

instance
  by standard (auto simp: less_eq_i8_def less_i8_def intro: order_antisym)

end

text \<open>\<^verbatim>\<open>saturating_add\<close>, \<^verbatim>\<open>saturating_sub\<close> and \<^verbatim>\<open>checked_add\<close> of the unsigned types.\<close>

definition saturating_add :: "'a::len word \<Rightarrow> 'a word \<Rightarrow> 'a word" where
  "saturating_add a b = (if unat a + unat b < 2 ^ LENGTH('a) then a + b else - 1)"

definition saturating_sub :: "'a::len word \<Rightarrow> 'a word \<Rightarrow> 'a word" where
  "saturating_sub a b = (if b \<le> a then a - b else 0)"

definition checked_add :: "'a::len word \<Rightarrow> 'a word \<Rightarrow> 'a word option" where
  "checked_add a b = (if unat a + unat b < 2 ^ LENGTH('a) then Some (a + b) else None)"

lemma checked_add_SomeD: "checked_add a b = Some c \<Longrightarrow> c = a + b \<and> unat c = unat a + unat b"
  by (auto simp: checked_add_def unat_word_ariths split: if_splits)

lemma checked_succ: "checked_add (a :: 'a::len word) 1 = Some c \<Longrightarrow> unat c = Suc (unat a)"
  using checked_add_SomeD [of a 1 c] by (metis Suc_eq_plus1 unat_1)

lemma checked_add_None_iff: "checked_add a b = None \<longleftrightarrow> 2 ^ LENGTH('a) \<le> unat (a::'a::len word) + unat b"
  by (auto simp: checked_add_def)

section \<open>Little-endian byte images\<close>

text \<open>\<^verbatim>\<open>to_le_bytes\<close> and \<^verbatim>\<open>from_le_bytes\<close>, for any width of whole bytes.\<close>

fun to_le :: "nat \<Rightarrow> 'a::len word \<Rightarrow> u8 list" where
  "to_le 0 w = []"
| "to_le (Suc n) w = ucast w # to_le n (drop_bit 8 w)"

fun from_le :: "u8 list \<Rightarrow> 'a::len word" where
  "from_le [] = 0"
| "from_le (b # bs) = ucast b OR push_bit 8 (from_le bs)"

definition le16 :: "u16 \<Rightarrow> u8 list" where "le16 = to_le 2"
definition le32 :: "u32 \<Rightarrow> u8 list" where "le32 = to_le 4"
definition le64 :: "u64 \<Rightarrow> u8 list" where "le64 = to_le 8"

text \<open>Reading an integer at an offset of a buffer; the code checks the length first.\<close>

definition bytes_at :: "u8 list \<Rightarrow> nat \<Rightarrow> nat \<Rightarrow> u8 list" where
  "bytes_at b off n = take n (drop off b)"

definition u16le :: "u8 list \<Rightarrow> nat \<Rightarrow> u16" where "u16le b off = from_le (bytes_at b off 2)"
definition u32le :: "u8 list \<Rightarrow> nat \<Rightarrow> u32" where "u32le b off = from_le (bytes_at b off 4)"
definition u64le :: "u8 list \<Rightarrow> nat \<Rightarrow> u64" where "u64le b off = from_le (bytes_at b off 8)"

lemma length_to_le [simp]: "length (to_le n w) = n"
  by (induction n arbitrary: w) auto

lemma length_le16 [simp]: "length (le16 w) = 2" by (simp add: le16_def)
lemma length_le32 [simp]: "length (le32 w) = 4" by (simp add: le32_def)
lemma length_le64 [simp]: "length (le64 w) = 8" by (simp add: le64_def)

lemma to_le_numeral [le_eval]:
  "to_le (numeral k) w = ucast w # to_le (pred_numeral k) (drop_bit 8 w)"
  by (simp add: numeral_eq_Suc)

lemma from_le_to_le: "from_le (to_le n w) = take_bit (8 * n) w"
proof (induction n arbitrary: w)
  case (Suc n)
  show ?case
    by (simp add: Suc.IH) (auto simp: bit_eq_iff bit_simps dest: bit_imp_le_length)
qed simp

lemma from_le_to_le_full [simp]:
  "LENGTH('a::len) \<le> 8 * n \<Longrightarrow> from_le (to_le n (w :: 'a word)) = w"
  by (simp add: from_le_to_le take_bit_word_eq_self)

lemma bit_from_le_less: "bit (from_le bs :: 'a::len word) n \<Longrightarrow> n < 8 * length bs"
proof (induction bs arbitrary: n)
  case (Cons b bs)
  then show ?case by (cases "n < 8") (force simp: bit_simps dest: bit_imp_le_length)+
qed simp

lemma to_le_from_le:
  "8 * length bs \<le> LENGTH('a::len) \<Longrightarrow> to_le (length bs) (from_le bs :: 'a word) = bs"
proof (induction bs)
  case (Cons b bs)
  have "ucast (ucast b OR push_bit 8 (from_le bs) :: 'a word) = b"
    using Cons.prems by (auto simp: bit_eq_iff bit_simps dest: bit_imp_le_length)
  moreover have "drop_bit 8 (ucast b OR push_bit 8 (from_le bs) :: 'a word) = from_le bs"
    using Cons.prems
    by (auto simp: bit_eq_iff bit_simps dest: bit_imp_le_length bit_from_le_less)
  ultimately show ?case using Cons by simp
qed simp

lemma from_le_le16 [simp]: "from_le (le16 w) = w" by (simp add: le16_def)
lemma from_le_le32 [simp]: "from_le (le32 w) = w" by (simp add: le32_def)
lemma from_le_le64 [simp]: "from_le (le64 w) = w" by (simp add: le64_def)

lemma le16_from_le: "length bs = 2 \<Longrightarrow> le16 (from_le bs) = bs"
  using to_le_from_le [of bs, where 'a = 16] by (simp add: le16_def)

lemma le32_from_le: "length bs = 4 \<Longrightarrow> le32 (from_le bs) = bs"
  using to_le_from_le [of bs, where 'a = 32] by (simp add: le32_def)

lemma le64_from_le: "length bs = 8 \<Longrightarrow> le64 (from_le bs) = bs"
  using to_le_from_le [of bs, where 'a = 64] by (simp add: le64_def)

lemma le16_inject [simp]: "le16 v = le16 w \<longleftrightarrow> v = w" by (metis from_le_le16)
lemma le32_inject [simp]: "le32 v = le32 w \<longleftrightarrow> v = w" by (metis from_le_le32)
lemma le64_inject [simp]: "le64 v = le64 w \<longleftrightarrow> v = w" by (metis from_le_le64)

text \<open>
  Reads at an offset, against a buffer written as a concatenation of fields: a read looks past a
  field that ends before its offset, and a read at offset 0 finds the field.
\<close>

lemma bytes_at_append_right [simp]:
  "length xs \<le> off \<Longrightarrow> bytes_at (xs @ ys) off n = bytes_at ys (off - length xs) n"
  by (simp add: bytes_at_def)

lemma bytes_at_append_left [simp]: "bytes_at (xs @ ys) 0 (length xs) = xs"
  by (simp add: bytes_at_def)

lemma bytes_at_Cons_numeral [simp]:
  "bytes_at (x # xs) (numeral k) n = bytes_at xs (pred_numeral k) n"
  by (simp add: bytes_at_def numeral_eq_Suc)

lemma bytes_at_Cons_Suc [simp]: "bytes_at (x # xs) (Suc off) n = bytes_at xs off n"
  by (simp add: bytes_at_def)

lemma bytes_at_all [simp]: "length xs = n \<Longrightarrow> bytes_at xs 0 n = xs"
  by (simp add: bytes_at_def)

lemma bytes_at_field [simp]: "length xs = n \<Longrightarrow> bytes_at (xs @ ys) 0 n = xs"
  by (simp add: bytes_at_def)

lemma bytes_at_append_le: "off + n \<le> length xs \<Longrightarrow> bytes_at (xs @ ys) off n = bytes_at xs off n"
  by (simp add: bytes_at_def)

lemma length_bytes_at: "off + n \<le> length b \<Longrightarrow> length (bytes_at b off n) = n"
  by (simp add: bytes_at_def)

lemma take_bytes_at_append: "take off b @ bytes_at b off n = take (off + n) b"
  by (simp add: bytes_at_def take_add)

lemma bytes_at_1: "off < length b \<Longrightarrow> bytes_at b off 1 = [b ! off]"
  by (simp add: bytes_at_def take_Suc_conv_app_nth Cons_nth_drop_Suc [symmetric])

text \<open>An array of 32-bit words.\<close>

lemma length_concat_le32 [simp]: "length (concat (map le32 v)) = 4 * length v"
  by (induction v) auto

lemma bytes_at_concat_le32:
  "i < length v \<Longrightarrow> bytes_at (concat (map le32 v)) (4 * i) 4 = le32 (v ! i)"
proof (induction v arbitrary: i)
  case (Cons w v)
  then show ?case by (cases i) auto
qed simp

lemma bytes_at_add: "bytes_at b off (m + n) = bytes_at b off m @ bytes_at b (off + m) n"
  by (simp add: bytes_at_def take_add add.commute)

lemma concat_le32_words:
  "off + 4 * n \<le> length b \<Longrightarrow>
   concat (map (\<lambda>i. le32 (u32le b (off + i * 4))) [0..<n]) = bytes_at b off (4 * n)"
proof (induction n)
  case (Suc n)
  have "le32 (u32le b (off + n * 4)) = bytes_at b (off + n * 4) 4"
    using Suc.prems by (simp add: u32le_def le32_from_le length_bytes_at)
  then show ?case
    using Suc bytes_at_add [of b off "4 * n" 4] by (simp add: mult.commute add.commute)
qed (simp add: bytes_at_def)

lemma le32_u32le: "off + 4 \<le> length b \<Longrightarrow> le32 (u32le b off) = bytes_at b off 4"
  by (simp add: u32le_def le32_from_le length_bytes_at)

section \<open>Ordered maps\<close>

text \<open>
  \<^verbatim>\<open>BTreeMap\<close> iterates in key order. It is modelled by the association list it would iterate, strictly
  sorted by key.
\<close>

type_synonym ('k, 'v) btree = "('k \<times> 'v) list"

definition bt_get :: "('k, 'v) btree \<Rightarrow> 'k \<Rightarrow> 'v option" where
  "bt_get = map_of"

fun bt_insert :: "'k::linorder \<Rightarrow> 'v \<Rightarrow> ('k, 'v) btree \<Rightarrow> ('k, 'v) btree" where
  "bt_insert k v [] = [(k, v)]"
| "bt_insert k v ((k', v') # m) =
     (if k < k' then (k, v) # (k', v') # m
      else if k = k' then (k, v) # m
      else (k', v') # bt_insert k v m)"

definition bt_retain :: "('k \<Rightarrow> bool) \<Rightarrow> ('k, 'v) btree \<Rightarrow> ('k, 'v) btree" where
  "bt_retain p m = filter (\<lambda>(k, _). p k) m"

definition bt_remove :: "'k \<Rightarrow> ('k, 'v) btree \<Rightarrow> ('k, 'v) btree" where
  "bt_remove k m = bt_retain (\<lambda>k'. k' \<noteq> k) m"

definition bt_keys :: "('k, 'v) btree \<Rightarrow> 'k list" where "bt_keys m = map fst m"
definition bt_values :: "('k, 'v) btree \<Rightarrow> 'v list" where "bt_values m = map snd m"

definition bt_contains_key :: "('k, 'v) btree \<Rightarrow> 'k \<Rightarrow> bool" where
  "bt_contains_key m k \<longleftrightarrow> bt_get m k \<noteq> None"

definition bt_wf :: "('k::linorder, 'v) btree \<Rightarrow> bool" where
  "bt_wf m \<longleftrightarrow> sorted_wrt (<) (map fst m)"

locale ordered_map =
  fixes get :: "'m \<Rightarrow> 'k::linorder \<Rightarrow> 'v option"
    and insert :: "'k \<Rightarrow> 'v \<Rightarrow> 'm \<Rightarrow> 'm"
    and retain :: "('k \<Rightarrow> bool) \<Rightarrow> 'm \<Rightarrow> 'm"
    and keys :: "'m \<Rightarrow> 'k list"
    and wf :: "'m \<Rightarrow> bool"
  assumes get_insert: "wf m \<Longrightarrow> get (insert k v m) = (get m)(k \<mapsto> v)"
    and get_retain: "wf m \<Longrightarrow> get (retain p m) k = (if p k then get m k else None)"
    and set_keys: "wf m \<Longrightarrow> set (keys m) = dom (get m)"
    and sorted_keys: "wf m \<Longrightarrow> sorted_wrt (<) (keys m)"
    and wf_insert: "wf m \<Longrightarrow> wf (insert k v m)"
    and wf_retain: "wf m \<Longrightarrow> wf (retain p m)"
    and get_ext: "wf m \<Longrightarrow> wf m' \<Longrightarrow> get m = get m' \<Longrightarrow> m = m'"
begin

text \<open>What every client of an ordered map may use, whatever the map's representation.\<close>

lemma insert_commute:
  assumes "wf m" "k \<noteq> k'"
  shows "insert k v (insert k' v' m) = insert k' v' (insert k v m)"
  using assms by (intro get_ext) (auto simp: wf_insert get_insert fun_upd_twist)

lemma insert_same:
  assumes "wf m" "get m k = Some v"
  shows "insert k v m = m"
  using assms by (intro get_ext) (auto simp: wf_insert get_insert)

lemma insert_overwrite:
  assumes "wf m"
  shows "insert k v (insert k v' m) = insert k v m"
  using assms by (intro get_ext) (auto simp: wf_insert get_insert)

lemma keys_insert_set: "wf m \<Longrightarrow> set (keys (insert k v m)) = Set.insert k (set (keys m))"
  by (auto simp: set_keys wf_insert get_insert)

lemma distinct_keys: "wf m \<Longrightarrow> distinct (keys m)"
  using sorted_keys [of m] strict_sorted_iff by auto

lemma retain_all:
  assumes "wf m" "\<forall>k\<in>dom (get m). p k"
  shows "retain p m = m"
proof -
  have "get (retain p m) k = get m k" for k
    using assms by (cases "get m k") (auto simp: get_retain)
  then show ?thesis using assms(1) by (intro get_ext) (auto simp: wf_retain)
qed

lemma keys_eq_sorted: "wf m \<Longrightarrow> sorted_wrt (<) xs \<Longrightarrow> set xs = dom (get m) \<Longrightarrow> keys m = xs"
  using sorted_keys [of m] set_keys [of m] strict_sorted_equal [of "keys m" xs] by auto

end

lemma bt_get_insert_any:
  "sorted_wrt (<) (map fst m) \<Longrightarrow> bt_get (bt_insert k v m) = (bt_get m)(k \<mapsto> v)"
proof (induction k v m rule: bt_insert.induct)
  case (2 k v k' v' m)
  then have "k = k' \<or> k < k' \<or> k' < k" by auto
  moreover have "k < k' \<Longrightarrow> map_of m k = None" 
    using 2 by (auto simp: map_of_eq_None_iff)
  ultimately show ?case using 2 by (auto simp: bt_get_def fun_eq_iff)
qed (auto simp: bt_get_def)

lemma set_bt_insert: "fst ` set (bt_insert k v m) = insert k (fst ` set m)"
  by (induction k v m rule: bt_insert.induct) auto

lemma bt_wf_insert: "bt_wf m \<Longrightarrow> bt_wf (bt_insert k v m)"
  unfolding bt_wf_def
proof (induction k v m rule: bt_insert.induct)
  case (2 k v k' v' m)
  have "\<forall>x\<in>fst ` set (bt_insert k v m). k' < x" if "k' < k"
    using 2(2) that by (auto simp: set_bt_insert)
  then show ?case using 2 by (auto simp: set_bt_insert)
qed auto

lemma bt_wf_retain: "bt_wf m \<Longrightarrow> bt_wf (bt_retain p m)"
  unfolding bt_wf_def bt_retain_def by (induction m) (auto split: prod.splits)

lemma bt_get_retain: "bt_get (bt_retain p m) k = (if p k then bt_get m k else None)"
  unfolding bt_get_def bt_retain_def by (induction m) auto

lemma bt_get_ext: "bt_wf m \<Longrightarrow> bt_wf m' \<Longrightarrow> bt_get m = bt_get m' \<Longrightarrow> m = m'"
proof -
  assume wf: "bt_wf m" "bt_wf m'" and eq: "bt_get m = bt_get m'"
  then have d: "distinct (map fst m)" "distinct (map fst m')"
    by (auto simp: bt_wf_def strict_sorted_iff)
  have "fst ` set m = fst ` set m'"
    using arg_cong [OF eq, of dom] by (simp add: bt_get_def dom_map_of_conv_image_fst)
  then have "map fst m = map fst m'"
    using wf by (intro strict_sorted_equal) (auto simp: bt_wf_def)
  moreover have "map (the \<circ> bt_get m) (map fst m) = map snd m"
    using d(1) by (auto simp: bt_get_def)
  moreover have "map (the \<circ> bt_get m') (map fst m') = map snd m'"
    using d(2) by (auto simp: bt_get_def)
  ultimately have "map fst m = map fst m' \<and> map snd m = map snd m'"
    using eq by metis
  then show "m = m'" by (metis zip_map_fst_snd)
qed

interpretation bt: ordered_map bt_get bt_insert bt_retain bt_keys bt_wf
proof
  fix m :: "('a, 'b) btree" assume "bt_wf m"
  then show "set (bt_keys m) = dom (bt_get m)" "sorted_wrt (<) (bt_keys m)"
    by (auto simp: bt_keys_def bt_get_def bt_wf_def dom_map_of_conv_image_fst)
qed (auto simp: bt_get_insert_any [folded bt_wf_def] bt_get_retain bt_wf_insert bt_wf_retain
    intro: bt_get_ext)

lemma bt_wf_Nil [simp]: "bt_wf []" by (simp add: bt_wf_def)

lemma bt_wf_remove: "bt_wf m \<Longrightarrow> bt_wf (bt_remove k m)"
  by (simp add: bt_remove_def bt_wf_retain)

lemma bt_get_remove: "bt_get (bt_remove k m) k' = (if k' = k then None else bt_get m k')"
  by (simp add: bt_remove_def bt_get_retain)

lemma bt_contains_key_iff: "bt_contains_key m k \<longleftrightarrow> k \<in> set (bt_keys m)"
  by (simp add: bt_contains_key_def bt_get_def bt_keys_def map_of_eq_None_iff)

lemma bt_get_Nil [simp]: "bt_get [] k = None" by (simp add: bt_get_def)

lemma length_bt: "length m = length (bt_keys m)" by (simp add: bt_keys_def)

lemma bt_values_get: "bt_wf m \<Longrightarrow> bt_values m = map (the \<circ> bt_get m) (bt_keys m)"
  by (auto simp: bt_values_def bt_keys_def bt_get_def bt_wf_def strict_sorted_iff)

lemma bt_get_mem: "bt_wf m \<Longrightarrow> bt_get m k = Some v \<longleftrightarrow> (k, v) \<in> set m"
  by (auto simp: bt_get_def bt_wf_def strict_sorted_iff)

section \<open>Binary search\<close>

text \<open>\<^verbatim>\<open>slice.binary_search(x).is_ok()\<close>, which the code calls on sorted slices.\<close>

function binary_search :: "'a::linorder list \<Rightarrow> 'a \<Rightarrow> bool" where
  "binary_search xs x =
     (if xs = [] then False
      else let mid = length xs div 2 in
        if xs ! mid = x then True
        else if x < xs ! mid then binary_search (take mid xs) x
        else binary_search (drop (mid + 1) xs) x)"
  by pat_completeness auto
termination
  by (relation "measure (\<lambda>(xs, _). length xs)") (auto simp: min_less_iff_disj)

declare binary_search.simps [simp del]

lemma binary_search_sorted: "sorted xs \<Longrightarrow> binary_search xs x \<longleftrightarrow> x \<in> set xs"
proof (induction xs x rule: binary_search.induct)
  case (1 xs x)
  show ?case
  proof (cases "xs = []")
    case False
    let ?m = "length xs div 2"
    have m: "?m < length xs" using False by simp
    have split: "xs = take ?m xs @ xs ! ?m # drop (?m + 1) xs" using m by (simp add: id_take_nth_drop)
    have "sorted (take ?m xs @ xs ! ?m # drop (?m + 1) xs)" using 1(3) by (simp only: split [symmetric])
    then have le: "\<forall>y\<in>set (take ?m xs). y \<le> xs ! ?m" "\<forall>y\<in>set (drop (?m + 1) xs). xs ! ?m \<le> y"
        and srt: "sorted (take ?m xs)" "sorted (drop (?m + 1) xs)"
      by (auto simp: sorted_append)
    have set: "set xs = set (take ?m xs) \<union> {xs ! ?m} \<union> set (drop (?m + 1) xs)"
      using arg_cong [OF split, of set] by simp
    consider "xs ! ?m = x" | "x < xs ! ?m" | "xs ! ?m < x" by fastforce
    then show ?thesis
    proof cases
      case 2
      then have "x \<notin> set (drop (?m + 1) xs)" using le by auto
      moreover have "binary_search xs x = binary_search (take ?m xs) x"
        using 2 False unfolding binary_search.simps [of xs] by (simp add: less_imp_neq not_sym)
      moreover have "binary_search (take ?m xs) x \<longleftrightarrow> x \<in> set (take ?m xs)"
        using 2 srt(1) by (intro "1.IH"(1) [OF False refl]) auto
      ultimately show ?thesis using 2 by (auto simp: set)
    next
      case 3
      then have "x \<notin> set (take ?m xs)" using le by auto
      moreover have "binary_search xs x = binary_search (drop (?m + 1) xs) x"
        using 3 False unfolding binary_search.simps [of xs] by (auto simp: Let_def)
      moreover have "binary_search (drop (?m + 1) xs) x \<longleftrightarrow> x \<in> set (drop (?m + 1) xs)"
        using 3 srt(2) by (intro "1.IH"(2) [OF False refl]) auto
      ultimately show ?thesis using 3 by (auto simp: set)
    next
      case 1
      then have "binary_search xs x"
        using False unfolding binary_search.simps [of xs] by (simp add: Let_def)
      then show ?thesis using 1 m nth_mem by auto
    qed
  qed (simp add: binary_search.simps)
qed

section \<open>Codecs\<close>

text \<open>A decoder over whole packets, with its own error type.\<close>

locale codec =
  fixes enc :: "'a \<Rightarrow> u8 list"
    and dec :: "u8 list \<Rightarrow> ('a, 'e) result"
    and valid :: "'a \<Rightarrow> bool"
  assumes dec_enc: "valid x \<Longrightarrow> dec (enc x) = Inr x"
begin

lemma enc_inj: "valid x \<Longrightarrow> valid y \<Longrightarrow> enc x = enc y \<Longrightarrow> x = y"
  by (metis dec_enc sum.inject(2))

end

text \<open>A codec with one byte image per value: whatever is accepted is an encoding.\<close>

locale canonical_codec = codec +
  assumes dec_valid: "dec b = Inr x \<Longrightarrow> valid x"
    and enc_dec: "dec b = Inr x \<Longrightarrow> enc x = b"
begin

lemma dec_iff: "dec b = Inr x \<longleftrightarrow> valid x \<and> b = enc x"
  using dec_enc dec_valid enc_dec by blast

lemma dec_inj: "dec b = Inr x \<Longrightarrow> dec b' = Inr x \<Longrightarrow> b = b'"
  using enc_dec by blast

end

text \<open>
  A record that carries its own length and is read off the front of a stream. \<open>read_stream\<close> reads
  records until the bytes end or a record cannot be read, as an iterator over the stream does.
\<close>

function read_stream :: "(u8 list \<Rightarrow> ('a \<times> nat) option) \<Rightarrow> u8 list \<Rightarrow> 'a list \<times> u8 list" where
  "read_stream dec b =
     (if b = [] then ([], b)
      else case dec b of
        None \<Rightarrow> ([], b)
      | Some (x, n) \<Rightarrow>
          if n = 0 then ([x], b)
          else let (xs, r) = read_stream dec (drop n b) in (x # xs, r))"
  by pat_completeness auto
termination
  by (relation "measure (\<lambda>(dec, b). length b)") auto

declare read_stream.simps [simp del]

locale prefix_codec =
  fixes enc :: "'a \<Rightarrow> u8 list"
    and dec :: "u8 list \<Rightarrow> ('a \<times> nat) option"
    and valid :: "'a \<Rightarrow> bool"
  assumes dec_enc_append: "valid x \<Longrightarrow> dec (enc x @ rest) = Some (x, length (enc x))"
    and enc_nonempty: "valid x \<Longrightarrow> enc x \<noteq> []"
begin

lemma read_stream_concat:
  "\<forall>x\<in>set xs. valid x \<Longrightarrow> read_stream dec (concat (map enc xs)) = (xs, [])"
proof (induction xs)
  case (Cons x xs)
  then have "valid x" by simp
  then show ?case
    using Cons dec_enc_append [of x "concat (map enc xs)"] enc_nonempty [of x]
    by (subst read_stream.simps) simp
qed (simp add: read_stream.simps)

lemma enc_prefix_free:
  "valid x \<Longrightarrow> valid y \<Longrightarrow> enc x @ r = enc y @ r' \<Longrightarrow> x = y \<and> r = r'"
  by (metis dec_enc_append append_eq_append_conv option.inject prod.inject)

end

section \<open>State machines\<close>

text \<open>States reachable from an initial one by steps, and the rule that an invariant holds in them.\<close>

inductive reach :: "('s \<Rightarrow> bool) \<Rightarrow> ('s \<Rightarrow> 's \<Rightarrow> bool) \<Rightarrow> 's \<Rightarrow> bool"
  for init :: "'s \<Rightarrow> bool" and step :: "'s \<Rightarrow> 's \<Rightarrow> bool" where
  reach_init: "init s \<Longrightarrow> reach init step s"
| reach_step: "reach init step s \<Longrightarrow> step s s' \<Longrightarrow> reach init step s'"

locale invariant_rule =
  fixes init :: "'s \<Rightarrow> bool"
    and step :: "'s \<Rightarrow> 's \<Rightarrow> bool"
    and inv :: "'s \<Rightarrow> bool"
  assumes inv_init: "init s \<Longrightarrow> inv s"
    and inv_step: "inv s \<Longrightarrow> step s s' \<Longrightarrow> inv s'"
begin

lemma reach_inv: "reach init step s \<Longrightarrow> inv s"
  by (induction rule: reach.induct) (auto intro: inv_init inv_step)

lemma rtranclp_inv: "step\<^sup>*\<^sup>* s s' \<Longrightarrow> inv s \<Longrightarrow> inv s'"
  by (induction rule: rtranclp_induct) (auto intro: inv_step)

end

section \<open>Lists\<close>

lemma sorted_wrt_less_distinct: "sorted_wrt (<) (xs :: 'a::linorder list) \<Longrightarrow> distinct xs"
  by (simp add: strict_sorted_iff)

lemma filter_eq_Nil_iff: "filter P xs = [] \<longleftrightarrow> (\<forall>x\<in>set xs. \<not> P x)"
  by (simp add: filter_empty_conv)

end
