(* ===== verification/Obfuscate.thy ===== *)
theory Obfuscate
  imports DoN_Prelude "HOL-Library.Product_Lexorder" "HOL-Library.Multiset"
begin

text \<open>
  The multiplayer payload transform of \<^verbatim>\<open>src/crates/don-net/src/obfuscate.rs\<close>: the engine's linear
  congruential generator, the padding it draws between commands, the word-wise XOR of a payload, and
  the recovery of the XOR key from ciphertext word frequencies.
\<close>

unbundle bit_operations_syntax

section \<open>The generator\<close>

definition LCG_A :: u32 where "LCG_A = 0x0019660D"
definition LCG_C :: u32 where "LCG_C = 0x3C6EF35F"

record pad_random =
  lcg_seed :: u32

definition pad_random_new :: "u32 \<Rightarrow> pad_random" where
  "pad_random_new s = \<lparr>lcg_seed = s\<rparr>"

text \<open>
  \<^verbatim>\<open>Random::get(lo, hi)\<close>. The subtraction and the sum are 32-bit, the product is 64-bit; the cast of
  \<open>hi - lo\<close> to 64 bits sign-extends.
\<close>

definition in_range :: "i32 \<Rightarrow> i32 \<Rightarrow> pad_random \<Rightarrow> i32 \<times> pad_random" where
  "in_range lo hi r =
     (if lo = hi then (lo, r)
      else let (lo, hi) = (if sint hi < sint lo then (hi, lo) else (lo, hi));
               s = lcg_seed r * LCG_A + LCG_C;
               low16 = (ucast (s AND 0xFFFF) :: u64)
           in (lo + ucast (drop_bit 16 (low16 * scast (hi - lo))), r\<lparr>lcg_seed := s\<rparr>))"

definition pad_random_next_pad :: "pad_random \<Rightarrow> nat \<times> pad_random" where
  "pad_random_next_pad r = (let (p, r) = in_range 0 2 r in (unat (scast p :: u64), r))"

section \<open>Obfuscation state of one package\<close>

record obfuscation =
  obf_rng :: "pad_random option"

definition obf_none :: obfuscation where
  "obf_none = \<lparr>obf_rng = None\<rparr>"

definition obf_multiplayer :: "u32 \<Rightarrow> obfuscation" where
  "obf_multiplayer g = \<lparr>obf_rng = Some (pad_random_new g)\<rparr>"

definition obf_with_seed :: "u32 \<Rightarrow> obfuscation" where
  "obf_with_seed s = \<lparr>obf_rng = Some (pad_random_new s)\<rparr>"

definition next_pad :: "obfuscation \<Rightarrow> nat \<times> obfuscation" where
  "next_pad obf =
     (case obf_rng obf of
        Some r \<Rightarrow> (let (p, r) = pad_random_next_pad r in (p, obf\<lparr>obf_rng := Some r\<rparr>))
      | None \<Rightarrow> (0, obf))"

definition xor_key :: "u32 \<Rightarrow> u16" where
  "xor_key g = ucast (drop_bit 8 g)"

section \<open>XOR over whole words\<close>

text \<open>Two bytes at a time; an odd last byte is left alone.\<close>

fun xor_payload :: "u8 list \<Rightarrow> u16 \<Rightarrow> u8 list" where
  "xor_payload (a # b # bs) key =
     (a XOR le16 key ! 0) # (b XOR le16 key ! 1) # xor_payload bs key"
| "xor_payload bs key = bs"

section \<open>Key recovery\<close>

fun payload_words :: "u8 list \<Rightarrow> u16 list" where
  "payload_words (a # b # bs) = from_le [a, b] # payload_words bs"
| "payload_words _ = []"

text \<open>
  The table of counts is a hash map in the code; its entries are sorted by descending count and then
  by word, which is a total order on them, so the iteration order of the table does not matter.
\<close>

definition rank_xor_keys :: "u8 list list \<Rightarrow> nat \<Rightarrow> u16 list" where
  "rank_xor_keys payloads n =
     (let ws = concat (map payload_words payloads)
      in take n (sort_key (\<lambda>w. (- int (count_list ws w), w)) (remdups ws)))"

definition recover_xor_key :: "u8 list list \<Rightarrow> u16" where
  "recover_xor_key payloads =
     (case rank_xor_keys payloads 1 of [] \<Rightarrow> 0 | w # _ \<Rightarrow> w)"

section \<open>Lemmas\<close>

lemma unat_low_half: "unat (s AND 0xFFFF :: u32) = unat s mod 65536"
proof -
  have "s AND 0xFFFF = take_bit 16 s"
    by (simp only: take_bit_eq_mask) (simp add: mask_eq_exp_minus_1)
  then have "unat (s AND 0xFFFF) = take_bit 16 (unat s)"
    by (simp only: unsigned_take_bit_eq)
  then show ?thesis by (simp add: take_bit_eq_mod)
qed

lemma unat_low16: "unat (ucast (s AND 0xFFFF :: u32) :: u64) = unat s mod 65536"
  by (simp add: unsigned_ucast_eq take_bit_eq_mod unat_low_half)

lemma seed_in_range:
  "lo \<noteq> hi \<Longrightarrow> lcg_seed (snd (in_range lo hi r)) = lcg_seed r * LCG_A + LCG_C"
  by (auto simp: in_range_def Let_def)

lemma in_range_0_2:
  "in_range 0 2 r =
     (if unat (lcg_seed r * LCG_A + LCG_C) mod 65536 < 32768 then 0 else 1,
      r\<lparr>lcg_seed := lcg_seed r * LCG_A + LCG_C\<rparr>)"
proof -
  let ?s = "lcg_seed r * LCG_A + LCG_C"
  let ?l = "ucast (?s AND 0xFFFF) :: u64"
  have l: "unat ?l = unat ?s mod 65536" by (rule unat_low16)
  have "unat (?l * 2) = unat ?l * 2"
    unfolding unat_word_ariths by (subst mod_less) (auto simp: l)
  moreover have "unat (drop_bit 16 (?l * 2)) = unat (?l * 2) div 65536"
    by (simp add: drop_bit_eq_div unat_div_distrib)
  ultimately have "unat (drop_bit 16 (?l * 2)) = (unat ?l * 2) div 65536" by simp
  also have "\<dots> = (if unat ?l < 32768 then 0 else 1)"
    using mod_less_divisor [of 65536 "unat ?s"] l by (auto intro: div_nat_eqI)
  finally have "drop_bit 16 (?l * 2) = (if unat ?l < 32768 then 0 else 1)"
    by (metis (full_types) unat_0 unat_1 word_unat_eq_iff)
  then show ?thesis by (auto simp: in_range_def Let_def l)
qed

lemma pad_random_next_pad_eq:
  "pad_random_next_pad r =
     (if unat (lcg_seed r * LCG_A + LCG_C) mod 65536 < 32768 then 0 else 1,
      r\<lparr>lcg_seed := lcg_seed r * LCG_A + LCG_C\<rparr>)"
  by (simp add: pad_random_next_pad_def in_range_0_2)

lemma next_pad_le_1: "fst (next_pad obf) \<le> 1"
  by (auto simp: next_pad_def pad_random_next_pad_eq split: option.splits)

text \<open>The generator's low half never sees its high half.\<close>

lemma lcg_low_half:
  "unat (s * LCG_A + LCG_C) mod 65536 =
     ((unat s mod 65536) * unat LCG_A + unat LCG_C) mod 65536"
proof -
  have "unat (s * LCG_A + LCG_C) mod 65536 = (unat s * unat LCG_A + unat LCG_C) mod 65536"
    by (simp add: unat_word_ariths mod_mod_cancel mod_simps)
  also have "\<dots> = ((unat s mod 65536) * unat LCG_A + unat LCG_C) mod 65536"
    by (metis mod_add_left_eq mod_mult_left_eq)
  finally show ?thesis .
qed

text \<open>
  Two obfuscation states that a run of pads cannot tell apart: both without a generator, or both
  with one, agreeing on the low sixteen bits of the seed.
\<close>

definition same_pads :: "obfuscation \<Rightarrow> obfuscation \<Rightarrow> bool" where
  "same_pads a b \<longleftrightarrow>
     (case (obf_rng a, obf_rng b) of
        (None, None) \<Rightarrow> True
      | (Some r, Some r') \<Rightarrow> unat (lcg_seed r) mod 65536 = unat (lcg_seed r') mod 65536
      | _ \<Rightarrow> False)"

lemma same_pads_refl [simp]: "same_pads a a"
  by (auto simp: same_pads_def split: option.splits)

lemma same_pads_step:
  assumes "same_pads a b"
  shows "fst (next_pad a) = fst (next_pad b)" "same_pads (snd (next_pad a)) (snd (next_pad b))"
  using assms
  by (auto simp: same_pads_def next_pad_def pad_random_next_pad_eq lcg_low_half
      split: option.splits)

lemma length_xor_payload [simp]: "length (xor_payload bs key) = length bs"
  by (induction bs key rule: xor_payload.induct) auto

lemma xor_payload_twice: "xor_payload (xor_payload bs key) key = bs"
  by (induction bs key rule: xor_payload.induct) (auto simp: xor.assoc)

lemma sint_diff_no_overflow:
  fixes lo hi :: i32
  assumes "sint lo < sint hi" "sint hi - sint lo < 2 ^ 31"
  shows "int (unat (hi - lo)) = sint hi - sint lo"
proof -
  have "uint (hi - lo) = (uint hi - uint lo) mod 2 ^ 32" by (simp add: uint_word_ariths)
  also have "\<dots> = (sint hi - sint lo) mod 2 ^ 32"
    by (simp add: uint_sint take_bit_eq_mod mod_simps)
  also have "\<dots> = sint hi - sint lo" using assms by simp
  finally show ?thesis by simp
qed

lemma sint_small:
  assumes "unat (w :: i32) < 2 ^ 31"
  shows "sint w = int (unat w)"
proof -
  have "int (unat w) < 2 ^ 31" using assms by (simp only: of_nat_less_numeral_power_cancel_iff)
  then have "signed_take_bit 31 (uint w) = uint w"
    by (intro signed_take_bit_int_eq_self) (simp_all add: order_trans [OF _ uint_ge_0])
  then show ?thesis by (simp add: sint_uint)
qed

lemma sint_add_unat_no_overflow:
  fixes lo q :: i32
  assumes "sint lo + int (unat q) < 2 ^ 31"
  shows "sint (lo + q) = sint lo + int (unat q)"
proof -
  have lo: "- (2 ^ 31) \<le> sint lo" using sint_ge [of lo] by simp
  have "lo + q = word_of_int (sint lo + int (unat q))" by simp
  then have "sint (lo + q) = signed_take_bit 31 (sint lo + int (unat q))"
    using sint_sbintrunc' [of "sint lo + int (unat q)", where 'a = 32] by simp
  also have "\<dots> = sint lo + int (unat q)"
    using assms lo of_nat_0_le_iff [of "unat q"] by (intro signed_take_bit_int_eq_self) linarith+
  finally show ?thesis .
qed

lemma scaled_less: "x < 65536 \<Longrightarrow> 0 < d \<Longrightarrow> x * d div 65536 < (d :: nat)"
  by (subst div_less_iff_less_mult) auto

lemma in_range_ordered:
  assumes "sint lo < sint hi" "sint hi - sint lo < 2 ^ 31"
  shows "sint (fst (in_range lo hi r)) =
    sint lo + int ((unat (lcg_seed r * LCG_A + LCG_C) mod 65536) * nat (sint hi - sint lo) div 65536)"
proof -
  let ?s = "lcg_seed r * LCG_A + LCG_C"
  let ?l = "ucast (?s AND 0xFFFF) :: u64"
  let ?d = "nat (sint hi - sint lo)"
  let ?q = "(unat ?s mod 65536) * ?d div 65536"
  have d: "unat (hi - lo) = ?d" using sint_diff_no_overflow [OF assms] by linarith
  have d31: "?d < 2 ^ 31" and d0: "0 < ?d" using assms by simp_all
  have "sint (hi - lo) = int ?d" using d d31 by (metis sint_small)
  then have "uint (scast (hi - lo) :: u64) = int ?d"
    using d31 by (simp add: scast_eq unsigned_of_int take_bit_int_eq_self)
  then have sc: "unat (scast (hi - lo) :: u64) = ?d" by (metis nat_int unat_eq_nat_uint)
  have l: "unat ?l = unat ?s mod 65536" by (rule unat_low16)
  have lt: "unat ?s mod 65536 < 65536" by simp
  have "(unat ?s mod 65536) * ?d < 65536 * 2 ^ 31"
    using lt d31 d0 by (intro mult_strict_mono) auto
  then have prod: "unat (?l * scast (hi - lo)) = (unat ?s mod 65536) * ?d"
    by (subst unat_word_ariths, subst mod_less) (auto simp: l sc)
  have q: "unat (drop_bit 16 (?l * scast (hi - lo))) = ?q"
    using prod by (simp add: drop_bit_eq_div unat_div_distrib)
  have qd: "?q < ?d" using lt d0 by (rule scaled_less)
  then have "?q < 2 ^ 32" using less_trans [OF qd d31] by simp
  then have "unat (ucast (drop_bit 16 (?l * scast (hi - lo))) :: i32) = ?q"
    using q by (simp add: unsigned_ucast_eq take_bit_eq_mod)
  moreover have "sint lo + int ?q < 2 ^ 31"
    using qd sint_lt [of hi] by simp
  ultimately have "sint (lo + ucast (drop_bit 16 (?l * scast (hi - lo)))) = sint lo + int ?q"
    using sint_add_unat_no_overflow [of lo "ucast (drop_bit 16 (?l * scast (hi - lo)))"] by presburger
  moreover have "fst (in_range lo hi r) = lo + ucast (drop_bit 16 (?l * scast (hi - lo)))"
    using assms by (auto simp: in_range_def Let_def)
  ultimately show ?thesis by simp
qed

lemma xor_xor_cancel [simp]: "(w XOR k) XOR k = (w :: 'a::len word)"
  by (simp add: xor.assoc)

lemma xor_eq_0_iff_eq: "w XOR k = 0 \<longleftrightarrow> w = (k :: 'a::len word)"
proof
  assume "w XOR k = 0"
  then have "(w XOR k) XOR k = 0 XOR k" by (rule arg_cong)
  then show "w = k" by simp
qed simp

lemma payload_words_xor: "payload_words (xor_payload bs key) = map (\<lambda>w. w XOR key) (payload_words bs)"
proof (induction bs key rule: xor_payload.induct)
  case (1 a b bs key)
  have "from_le [a XOR le16 key ! 0, b XOR le16 key ! 1] = from_le [a, b] XOR (from_le (le16 key) :: u16)"
    unfolding le16_def
    by (simp add: to_le_numeral del: from_le_to_le_full) (auto simp: bit_eq_iff bit_simps dest: bit_imp_le_length)
  then show ?case using 1 by simp
qed auto

lemma count_list_map_inj: "inj f \<Longrightarrow> count_list (map f xs) (f x) = count_list xs x"
  by (induction xs) (auto simp: inj_def)

lemma hd_sort_key_strict_min:
  assumes "k \<in> set xs" "\<forall>x\<in>set xs. x \<noteq> k \<longrightarrow> f k < f x"
  shows "\<exists>ys. sort_key f xs = k # ys"
proof -
  obtain y ys where s: "sort_key f xs = y # ys"
    using assms(1) by (cases "sort_key f xs") (auto dest: arg_cong [where f = set])
  then have "y \<in> set xs" and le: "\<forall>x\<in>set xs. f y \<le> f x"
    using sorted_sort_key [of f xs] set_sort [of f xs] by auto
  then have "y = k" using assms leD by blast
  then show ?thesis using s by simp
qed

section \<open>Properties\<close>

text \<open>C38: \<^verbatim>\<open>PadRandom::in_range\<close> draws from the half-open interval \<open>[lo, hi)\<close> whatever the generator's
  state, provided \<open>hi - lo\<close> fits in 32 bits, and swapping the bounds does not change the draw.\<close>

theorem in_range_bounds:
  assumes "sint lo < sint hi" "sint hi - sint lo < 2 ^ 31"
  shows "sint lo \<le> sint (fst (in_range lo hi r)) \<and> sint (fst (in_range lo hi r)) < sint hi \<and>
    in_range hi lo r = in_range lo hi r"
proof -
  have "(unat (lcg_seed r * LCG_A + LCG_C) mod 65536) * nat (sint hi - sint lo) div 65536 < nat (sint hi - sint lo)"
    using assms by (intro scaled_less) auto
  moreover have "in_range hi lo r = in_range lo hi r"
    using assms by (auto simp: in_range_def)
  ultimately show ?thesis
    using assms by (simp add: in_range_ordered)
qed

theorem in_range_bounds_witness:
  "sint (-3 :: i32) \<le> sint (fst (in_range (-3) 11 \<lparr>lcg_seed = 99\<rparr>)) \<and>
   sint (fst (in_range (-3) 11 \<lparr>lcg_seed = 99\<rparr>)) < sint (11 :: i32) \<and>
   in_range 11 (-3) \<lparr>lcg_seed = 99\<rparr> = in_range (-3) 11 \<lparr>lcg_seed = 99\<rparr>"
  by (rule in_range_bounds) simp_all


end
