(* ===== verification/Commands.thy ===== *)
theory Commands
  imports Obfuscate
begin

text \<open>
  The lockstep command codec of \<^verbatim>\<open>src/crates/don-net/src/lib.rs\<close> and \<^verbatim>\<open>opcodes.rs\<close>: the length of a
  command from its opcode, a payload as a list of commands with padding between them, the 18-byte
  record framing of a recorded game, the 8-byte network framing, and the checksum command.
\<close>

unbundle bit_operations_syntax

section \<open>Constants and errors\<close>

definition COMMAND_SIZES :: "u16 option list" where
  "COMMAND_SIZES =
  [None, Some 1, Some 5, Some 13, Some 17, Some 13,
   Some 17, Some 22, Some 26, Some 10, Some 10, Some 25,
   Some 1, Some 1, Some 5, Some 9, Some 13, Some 21,
   Some 9, Some 9, Some 13, Some 5, Some 17, Some 21,
   Some 9, Some 25, Some 17, Some 1, Some 25, Some 1,
   Some 13, Some 13, Some 9, Some 9, Some 25, Some 1,
   Some 1, Some 13, Some 13, Some 9, Some 9, Some 9,
   Some 9, Some 17, Some 17, Some 17, Some 13, Some 13,
   Some 15, Some 11, Some 9, None, Some 5, Some 1,
   Some 1, Some 1, Some 5, Some 65, Some 6, Some 5,
   Some 5, Some 5, Some 1, Some 1, Some 1, Some 5,
   Some 5, Some 17, None, Some 9, Some 5, Some 7,
   Some 10, Some 33, Some 11, Some 53, Some 2, Some 2,
   Some 521, Some 9, Some 3, Some 2]"

definition CHECKSUM_CHANNELS :: "string list" where
  "CHECKSUM_CHANNELS =
  [''units'', ''builds'', ''walls'', ''ammo'', ''deaths'',
   ''groups'', ''guys'', ''leaders'', ''cities'', ''items'',
   ''goods'', ''world'', ''rules'', ''scenario_data'', ''script_run_time'',
   ''all'']"

definition MAX_COMMAND_PACKAGE_PAYLOAD :: nat where
  "MAX_COMMAND_PACKAGE_PAYLOAD = 512"

datatype wire_error =
    UnknownOpcode u8
  | Truncated nat nat nat
  | BadLength nat int
  | Residual nat nat

section \<open>Commands\<close>

text \<open>An opcode byte and the whole command, opcode included.\<close>

record command =
  cmd_opcode :: u8
  cmd_bytes :: "u8 list"

definition command_size :: "u8 \<Rightarrow> u16 option" where
  "command_size op = (if unat op < length COMMAND_SIZES then COMMAND_SIZES ! unat op else None)"

definition wire_len :: "u8 list \<Rightarrow> (nat, wire_error) result" where
  "wire_len buf =
     (if length buf < 1 then Inl (Truncated 0 1 (length buf))
      else let op = buf ! 0 in
      if op = 0x00 then
        (if length buf < 2 then Inl (Truncated 0 2 (length buf))
         else Inr (3 + 2 * unat (buf ! 1)))
      else if op = 0x33 then
        (if length buf < 6 then Inl (Truncated 0 6 (length buf))
         else Inr (6 + 8 * unat (u16le buf 4)))
      else if op = 0x44 then
        (if length buf < 17 then Inl (Truncated 0 17 (length buf))
         else let n = sint (u32le buf 13) in
           if \<not> (0 \<le> n \<and> n \<le> 512) then Inl (BadLength 0 n) else Inr (19 + 2 * nat n))
      else case command_size op of
             Some n \<Rightarrow> Inr (unat n)
           | None \<Rightarrow> Inl (UnknownOpcode op))"

text \<open>An error inside the command list is reported at the list offset.\<close>

fun error_at :: "nat \<Rightarrow> wire_error \<Rightarrow> wire_error" where
  "error_at i (Truncated _ n h) = Truncated i n h"
| "error_at i (BadLength _ l) = BadLength i l"
| "error_at i e = e"

lemma command_size_pos: "command_size op = Some n \<Longrightarrow> 0 < unat n"
proof -
  assume "command_size op = Some n"
  then have "Some n \<in> set COMMAND_SIZES"
    by (auto simp: command_size_def split: if_splits) (metis nth_mem)
  then show ?thesis by (auto simp: COMMAND_SIZES_def)
qed

lemma wire_len_pos: "wire_len buf = Inr l \<Longrightarrow> 0 < l"
  by (auto simp: wire_len_def Let_def split: if_splits option.splits dest: command_size_pos)

text \<open>The loop of \<^verbatim>\<open>decode_commands\<close> from byte \<open>i\<close> on, with the commands read so far.\<close>

function decode_commands_from ::
    "u8 list \<Rightarrow> nat \<Rightarrow> obfuscation \<Rightarrow> command list \<Rightarrow> (command list, wire_error) result \<times> obfuscation"
  where
  "decode_commands_from payload i obf out =
     (if i < length payload then
        (case wire_len (drop i payload) of
           Inl e \<Rightarrow> (Inl (error_at i e), obf)
         | Inr l \<Rightarrow>
             if length payload < i + l then (Inl (Truncated i l (length payload - i)), obf)
             else let cmd = \<lparr>cmd_opcode = payload ! i, cmd_bytes = take l (drop i payload)\<rparr>;
                      (pad, obf') = next_pad obf
                  in decode_commands_from payload (i + (l + pad)) obf' (out @ [cmd]))
      else if i \<noteq> length payload then (Inl (Residual i (length payload)), obf)
      else (Inr out, obf))"
  by pat_completeness auto
termination
  by (relation "measure (\<lambda>(payload, i, _, _). length payload - i)") (auto dest: wire_len_pos)

definition decode_commands ::
    "u8 list \<Rightarrow> obfuscation \<Rightarrow> (command list, wire_error) result \<times> obfuscation" where
  "decode_commands payload obf = decode_commands_from payload 0 obf []"

fun encode_commands :: "command list \<Rightarrow> obfuscation \<Rightarrow> u8 list \<Rightarrow> u8 list \<times> obfuscation" where
  "encode_commands [] obf out = (out, obf)"
| "encode_commands (c # cs) obf out =
     (let (pad, obf') = next_pad obf
      in encode_commands cs obf' (out @ cmd_bytes c @ replicate pad 0))"

section \<open>Record framing of a recorded game\<close>

record package_header =
  ph_stamp :: u32
  ph_play :: i32
  ph_valid :: i32
  ph_group :: i32
  ph_size :: u16

definition HEADER_WIRE_LEN :: nat where "HEADER_WIRE_LEN = 18"

definition package_header_decode :: "u8 list \<Rightarrow> package_header option" where
  "package_header_decode buf =
     (if length buf < HEADER_WIRE_LEN then None
      else Some \<lparr>ph_stamp = u32le buf 0, ph_play = u32le buf 4, ph_valid = u32le buf 8,
                 ph_group = u32le buf 12, ph_size = u16le buf 16\<rparr>)"

definition package_header_encode :: "package_header \<Rightarrow> u8 list" where
  "package_header_encode h =
     le32 (ph_stamp h) @ le32 (ph_play h) @ le32 (ph_valid h) @ le32 (ph_group h) @ le16 (ph_size h)"

record package_record =
  pr_header :: package_header
  pr_payload :: "u8 list"

definition package_record_decode :: "u8 list \<Rightarrow> (package_record \<times> nat) option" where
  "package_record_decode buf =
     (case package_header_decode buf of
        None \<Rightarrow> None
      | Some header \<Rightarrow>
          let n = HEADER_WIRE_LEN + unat (ph_size header) in
          if length buf < n then None
          else Some (\<lparr>pr_header = header, pr_payload = bytes_at buf HEADER_WIRE_LEN (n - HEADER_WIRE_LEN)\<rparr>, n))"

definition package_record_encode :: "package_record \<Rightarrow> u8 list" where
  "package_record_encode r = package_header_encode (pr_header r) @ pr_payload r"

record package_stream =
  ps_buf :: "u8 list"
  ps_pos :: nat

definition package_stream_new :: "u8 list \<Rightarrow> nat \<Rightarrow> package_stream" where
  "package_stream_new buf start = \<lparr>ps_buf = buf, ps_pos = start\<rparr>"

definition package_stream_next :: "package_stream \<Rightarrow> package_record option \<times> package_stream" where
  "package_stream_next s =
     (if length (ps_buf s) \<le> ps_pos s then (None, s)
      else case package_record_decode (drop (ps_pos s) (ps_buf s)) of
             None \<Rightarrow> (None, s)
           | Some (rec, n) \<Rightarrow> (Some rec, s\<lparr>ps_pos := ps_pos s + n\<rparr>))"

section \<open>Network framing\<close>

record net_command_package =
  ncp_stamp :: u32
  ncp_play :: i8
  ncp_payload :: "u8 list"

definition NET_HEADER_LEN :: nat where "NET_HEADER_LEN = 8"

definition net_command_package_decode :: "u8 list \<Rightarrow> net_command_package option" where
  "net_command_package_decode buf =
     (if length buf < NET_HEADER_LEN \<or> buf ! 0 \<noteq> 7 then None
      else let size = sint (u16le buf 6) in
        if size < 0 then None
        else let stop = NET_HEADER_LEN + nat size in
          if length buf < stop then None
          else Some \<lparr>ncp_stamp = u32le buf 1, ncp_play = I8 (buf ! 5),
                     ncp_payload = bytes_at buf NET_HEADER_LEN (stop - NET_HEADER_LEN)\<rparr>)"

definition net_command_package_encode :: "net_command_package \<Rightarrow> u8 list" where
  "net_command_package_encode p =
     [7] @ le32 (ncp_stamp p) @ [i8_bits (ncp_play p)] @
     le16 (of_nat (length (ncp_payload p))) @ ncp_payload p"

definition net_command_package_from_record :: "package_record \<Rightarrow> net_command_package" where
  "net_command_package_from_record r =
     \<lparr>ncp_stamp = ph_stamp (pr_header r), ncp_play = I8 (ucast (ph_play (pr_header r))),
      ncp_payload = pr_payload r\<rparr>"

section \<open>Checksum command\<close>

text \<open>Sixteen words, one per channel.\<close>

type_synonym checksums = "u32 list"

definition CHECKSUMS_WIRE_LEN :: nat where "CHECKSUMS_WIRE_LEN = 65"

definition checksums_decode :: "command \<Rightarrow> checksums option" where
  "checksums_decode cmd =
     (if cmd_opcode cmd \<noteq> 0x39 \<or> length (cmd_bytes cmd) \<noteq> CHECKSUMS_WIRE_LEN then None
      else Some (map (\<lambda>i. u32le (cmd_bytes cmd) (1 + 4 * i)) [0..<16]))"

text \<open>The word of a named channel: the first position of the name.\<close>

definition checksums_channel :: "checksums \<Rightarrow> string \<Rightarrow> u32 option" where
  "checksums_channel v name =
     (case filter (\<lambda>i. CHECKSUM_CHANNELS ! i = name) [0..<length CHECKSUM_CHANNELS] of
        [] \<Rightarrow> None
      | i # _ \<Rightarrow> Some (v ! i))"

section \<open>The command list\<close>

text \<open>
  A command the dispatcher accepts: its bytes are exactly the length its opcode announces. The
  accepted payloads are laid out by \<open>layout\<close>: each command is followed by as many bytes as the
  generator draws, whatever their values.
\<close>

definition command_ok :: "command \<Rightarrow> bool" where
  "command_ok c \<longleftrightarrow>
     wire_len (cmd_bytes c) = Inr (length (cmd_bytes c)) \<and> cmd_opcode c = cmd_bytes c ! 0"

fun layout :: "command list \<Rightarrow> obfuscation \<Rightarrow> u8 list \<Rightarrow> bool" where
  "layout [] obf b \<longleftrightarrow> b = []"
| "layout (c # cs) obf b \<longleftrightarrow>
     (let (pad, obf') = next_pad obf; n = length (cmd_bytes c)
      in take n b = cmd_bytes c \<and> n + pad \<le> length b \<and> layout cs obf' (drop (n + pad) b))"

fun obf_after :: "nat \<Rightarrow> obfuscation \<Rightarrow> obfuscation" where
  "obf_after 0 obf = obf"
| "obf_after (Suc n) obf = obf_after n (snd (next_pad obf))"

lemma layout_Cons:
  "next_pad obf = (pad, ob) \<Longrightarrow>
   layout (c # cs) obf b \<longleftrightarrow>
     take (length (cmd_bytes c)) b = cmd_bytes c \<and> length (cmd_bytes c) + pad \<le> length b \<and>
     layout cs ob (drop (length (cmd_bytes c) + pad) b)"
  by (simp add: Let_def)

declare layout.simps(2) [simp del]

text \<open>The cases of \<^const>\<open>wire_len\<close>.\<close>

lemma wire_len_Nil: "wire_len [] = Inl (Truncated 0 1 0)"
  by (simp add: wire_len_def)

lemma wire_len_group:
  "b \<noteq> [] \<Longrightarrow> b ! 0 = 0 \<Longrightarrow>
   wire_len b = (if length b < 2 then Inl (Truncated 0 2 (length b)) else Inr (3 + 2 * unat (b ! 1)))"
  by (simp add: wire_len_def Suc_le_eq not_less)

lemma wire_len_spline:
  "b \<noteq> [] \<Longrightarrow> b ! 0 = 0x33 \<Longrightarrow>
   wire_len b = (if length b < 6 then Inl (Truncated 0 6 (length b)) else Inr (6 + 8 * unat (u16le b 4)))"
  by (simp add: wire_len_def Suc_le_eq not_less)

lemma wire_len_chat:
  "b \<noteq> [] \<Longrightarrow> b ! 0 = 0x44 \<Longrightarrow>
   wire_len b =
     (if length b < 17 then Inl (Truncated 0 17 (length b))
      else if sint (u32le b 13) < 0 \<or> 512 < sint (u32le b 13) then Inl (BadLength 0 (sint (u32le b 13)))
      else Inr (19 + 2 * nat (sint (u32le b 13))))"
  by (simp add: wire_len_def Suc_le_eq not_less Let_def)

lemma wire_len_fixed:
  "b \<noteq> [] \<Longrightarrow> b ! 0 \<noteq> 0 \<Longrightarrow> b ! 0 \<noteq> 0x33 \<Longrightarrow> b ! 0 \<noteq> 0x44 \<Longrightarrow>
   wire_len b =
     (case command_size (b ! 0) of Some n \<Rightarrow> Inr (unat n) | None \<Rightarrow> Inl (UnknownOpcode (b ! 0)))"
  by (simp add: wire_len_def Suc_le_eq not_less Let_def)

lemmas wire_len_cases = wire_len_group wire_len_spline wire_len_chat wire_len_fixed

text \<open>
  A length is computed from the first bytes alone, those the case for the opcode checks for, and
  these bytes are part of the command.
\<close>

definition header_len :: "u8 \<Rightarrow> nat" where
  "header_len op = (if op = 0 then 2 else if op = 0x33 then 6 else if op = 0x44 then 17 else 1)"

lemma header_len_pos: "0 < header_len op"
  by (simp add: header_len_def)

lemma wire_len_header:
  assumes "wire_len b = Inr l"
  shows "header_len (b ! 0) \<le> length b" "header_len (b ! 0) \<le> l"
  using assms wire_len_pos [OF assms]
  by (cases "b = []"; auto simp: header_len_def wire_len_Nil wire_len_cases Suc_le_eq split: if_splits)+

lemma wire_len_cong:
  assumes "wire_len b = Inr l" "header_len (b ! 0) \<le> length b'"
    and eq: "take (header_len (b ! 0)) b' = take (header_len (b ! 0)) b"
  shows "wire_len b' = Inr l"
proof -
  have m: "header_len (b ! 0) \<le> length b" using wire_len_header(1) [OF assms(1)] .
  have hd: "b' ! 0 = b ! 0" using eq by (metis header_len_pos nth_take)
  have snd: "b' ! 1 = b ! 1" if "b ! 0 = 0" using arg_cong [OF eq, of "\<lambda>xs. xs ! 1"] that by (simp add: header_len_def)
  have at: "bytes_at b' off n = bytes_at b off n" if "off + n \<le> header_len (b ! 0)" for off n
  proof -
    have "take (n + off) b' = take (n + off) b"
      using arg_cong [OF eq, of "take (n + off)"] that by (simp add: min_def add.commute)
    then show ?thesis by (simp add: bytes_at_def take_drop)
  qed
  have ne: "b \<noteq> []" "b' \<noteq> []" using m assms(2) by (auto simp: header_len_def split: if_splits)
  consider "b ! 0 = 0" | "b ! 0 = 0x33" | "b ! 0 = 0x44" | "b ! 0 \<noteq> 0" "b ! 0 \<noteq> 0x33" "b ! 0 \<noteq> 0x44"
    by blast
  then show ?thesis
  proof cases
    case 1
    then show ?thesis using assms m ne hd snd by (simp add: header_len_def wire_len_group)
  next
    case 2
    then have "u16le b' 4 = u16le b 4" using at by (simp add: u16le_def header_len_def)
    then show ?thesis using 2 assms m ne hd by (simp add: header_len_def wire_len_spline)
  next
    case 3
    then have "u32le b' 13 = u32le b 13" using at by (simp add: u32le_def header_len_def)
    then show ?thesis using 3 assms m ne hd by (simp add: header_len_def wire_len_chat split: if_splits)
  next
    case 4
    then show ?thesis using assms m ne hd by (simp add: header_len_def wire_len_fixed split: option.splits)
  qed
qed

lemma wire_len_append: "wire_len b = Inr l \<Longrightarrow> wire_len (b @ r) = Inr l"
  by (frule wire_len_header(1), erule wire_len_cong) simp_all

lemma command_ok_nonempty: "command_ok c \<Longrightarrow> cmd_bytes c \<noteq> []"
  by (auto simp: command_ok_def dest: wire_len_pos)

lemma wire_len_take:
  assumes "wire_len b = Inr l" "l \<le> length b"
  shows "wire_len (take l b) = Inr l"
  using wire_len_header [OF assms(1)] assms(2)
  by - (rule wire_len_cong [OF assms(1)], simp_all add: min_def)

declare decode_commands_from.simps [simp del]

lemma decode_commands_from_layout:
  assumes "decode_commands_from payload i obf out = (Inr res, obf')" "i \<le> length payload"
  shows "\<exists>cmds. res = out @ cmds \<and> (\<forall>c\<in>set cmds. command_ok c) \<and>
           layout cmds obf (drop i payload) \<and> obf' = obf_after (length cmds) obf"
  using assms
proof (induction payload i obf out rule: decode_commands_from.induct)
  case (1 payload i obf out)
  show ?case
  proof (cases "i < length payload")
    case False
    with 1 show ?thesis by (intro exI [of _ "[]"]) (simp add: decode_commands_from.simps)
  next
    case True
    obtain pad ob where np: "next_pad obf = (pad, ob)" by fastforce
    obtain l where wl: "wire_len (drop i payload) = Inr l" and le: "\<not> length payload < i + l"
      using 1(2) True
      by (auto simp: decode_commands_from.simps [of payload i] split: sum.splits if_splits)
    let ?c = "\<lparr>cmd_opcode = payload ! i, cmd_bytes = take l (drop i payload)\<rparr>"
    have rec: "decode_commands_from payload (i + (l + pad)) ob (out @ [?c]) = (Inr res, obf')"
      using 1(2) True wl le np by (simp add: decode_commands_from.simps [of payload i] Let_def)
    moreover from rec have le': "i + (l + pad) \<le> length payload"
      by (subst (asm) decode_commands_from.simps) (auto split: if_splits)
    ultimately obtain cs where cs: "res = (out @ [?c]) @ cs" "\<forall>c\<in>set cs. command_ok c"
        "layout cs ob (drop (i + (l + pad)) payload)" "obf' = obf_after (length cs) ob"
      using "1.IH" [OF True wl le refl np [symmetric] refl] by blast
    have "command_ok ?c"
      using wire_len_take [OF wl] wire_len_pos [OF wl] le True
      by (simp add: command_ok_def min_absorb2)
    then show ?thesis
      using cs np le le'
      by (intro exI [of _ "?c # cs"]) (auto simp: layout_Cons [OF np] min_absorb2 add.commute)
  qed
qed

lemma layout_decode_commands_from:
  assumes "\<forall>c\<in>set cmds. command_ok c" "layout cmds obf (drop i payload)" "i \<le> length payload"
  shows "decode_commands_from payload i obf out = (Inr (out @ cmds), obf_after (length cmds) obf)"
  using assms
proof (induction cmds arbitrary: i obf out)
  case Nil
  then show ?case by (simp add: decode_commands_from.simps)
next
  case (Cons c cs)
  obtain pad ob where np: "next_pad obf = (pad, ob)" by fastforce
  let ?n = "length (cmd_bytes c)"
  have l: "take ?n (drop i payload) = cmd_bytes c" "?n + pad \<le> length payload - i"
      "layout cs ob (drop (i + (?n + pad)) payload)"
    using Cons.prems by (auto simp: layout_Cons [OF np] add.commute add.left_commute)
  have ok: "wire_len (cmd_bytes c) = Inr ?n" "cmd_opcode c = cmd_bytes c ! 0" "0 < ?n"
    using Cons.prems(1) by (auto simp: command_ok_def dest: wire_len_pos)
  have wl: "wire_len (drop i payload) = Inr ?n"
    using wire_len_append [OF ok(1), of "drop ?n (drop i payload)"] l(1)
    by (metis append_take_drop_id)
  have c: "\<lparr>cmd_opcode = payload ! i, cmd_bytes = take ?n (drop i payload)\<rparr> = c"
    using l ok Cons.prems(3) by (metis command.surjective old.unit.exhaust nth_drop nth_take add_0_right)
  show ?case
  proof -
    have "\<not> length payload < i + ?n" "i < length payload"
      using l(2) ok(3) Cons.prems(3) by linarith+
    then show ?thesis
      using Cons.IH [of ob "i + (?n + pad)" "out @ [c]"] Cons.prems(1,3) l np wl c
      by (subst decode_commands_from.simps) (simp add: Let_def)
  qed
qed

lemma decode_commands_iff:
  "decode_commands payload obf = (Inr cmds, obf') \<longleftrightarrow>
     (\<forall>c\<in>set cmds. command_ok c) \<and> layout cmds obf payload \<and> obf' = obf_after (length cmds) obf"
  using decode_commands_from_layout [of payload 0 obf "[]" cmds obf']
    layout_decode_commands_from [of cmds obf 0 payload "[]"]
  by (auto simp: decode_commands_def)

lemma encode_commands_out:
  "encode_commands cs obf out =
     (out @ fst (encode_commands cs obf []), snd (encode_commands cs obf []))"
proof (induction cs arbitrary: obf out)
  case (Cons c cs)
  obtain pad ob where "next_pad obf = (pad, ob)" by fastforce
  then show ?case
    using Cons [of ob "out @ cmd_bytes c @ replicate pad 0"] Cons [of ob "cmd_bytes c @ replicate pad 0"]
    by simp
qed simp

lemma encode_commands_Cons:
  "next_pad obf = (pad, ob) \<Longrightarrow>
   encode_commands (c # cs) obf [] =
     (cmd_bytes c @ replicate pad 0 @ fst (encode_commands cs ob []), snd (encode_commands cs ob []))"
  using encode_commands_out [of cs ob "cmd_bytes c @ replicate pad 0"] by simp

lemma encode_commands_obf: "snd (encode_commands cs obf out) = obf_after (length cs) obf"
  by (induction cs arbitrary: obf out) (auto split: prod.splits)

lemma layout_encode: "layout cs obf (fst (encode_commands cs obf []))"
proof (induction cs arbitrary: obf)
  case (Cons c cs)
  obtain pad ob where "next_pad obf = (pad, ob)" by fastforce
  then show ?case
    using Cons [of ob] by (simp add: layout_Cons encode_commands_Cons del: encode_commands.simps)
qed simp

lemma layout_length: "layout cs obf b \<Longrightarrow> layout cs obf b' \<Longrightarrow> length b = length b'"
proof (induction cs arbitrary: obf b b')
  case (Cons c cs)
  obtain pad ob where np: "next_pad obf = (pad, ob)" by fastforce
  let ?k = "length (cmd_bytes c) + pad"
  have "length (drop ?k b) = length (drop ?k b')"
    using Cons.prems np by (intro Cons.IH [of ob]) (auto simp: layout_Cons)
  then show ?case using Cons.prems np by (auto simp: layout_Cons)
qed simp

lemma next_pad_none [simp]: "next_pad obf_none = (0, obf_none)"
  by (simp add: next_pad_def obf_none_def)

lemma layout_none: "layout cs obf_none b \<longleftrightarrow> b = concat (map cmd_bytes cs)"
proof (induction cs arbitrary: b)
  case (Cons c cs)
  have "take n b = xs \<and> n \<le> length b \<and> drop n b = ys \<longleftrightarrow> b = xs @ ys" if "n = length xs" for n xs ys
    using that by (auto simp: append_eq_conv_conj) (metis append_take_drop_id)
  then show ?case by (simp add: layout_Cons Cons)
qed simp

section \<open>Framing\<close>

definition package_record_ok :: "package_record \<Rightarrow> bool" where
  "package_record_ok r \<longleftrightarrow> unat (ph_size (pr_header r)) = length (pr_payload r)"

lemma length_package_header_encode [simp]: "length (package_header_encode h) = HEADER_WIRE_LEN"
  by (simp add: package_header_encode_def HEADER_WIRE_LEN_def)

lemma package_header_decode_encode [simp]:
  "package_header_decode (package_header_encode h @ r) = Some h"
  unfolding package_header_decode_def package_header_encode_def u32le_def u16le_def
  by (simp add: HEADER_WIRE_LEN_def)

lemma package_header_encode_decode:
  "package_header_decode b = Some h \<Longrightarrow> package_header_encode h = take 18 b"
  unfolding package_header_decode_def package_header_encode_def u32le_def u16le_def HEADER_WIRE_LEN_def
  by (auto simp: le32_from_le le16_from_le length_bytes_at split: if_splits)
    (simp add: bytes_at_def take_add [symmetric] flip: append_assoc)

interpretation record_stream: prefix_codec package_record_encode package_record_decode package_record_ok
  by standard
    (auto simp: package_record_decode_def package_record_encode_def package_record_ok_def Let_def
      HEADER_WIRE_LEN_def simp flip: length_0_conv)

text \<open>Running the iterator to its end.\<close>

function package_stream_collect :: "package_stream \<Rightarrow> package_record list \<times> package_stream" where
  "package_stream_collect s =
     (case package_stream_next s of
        (None, s') \<Rightarrow> ([], s')
      | (Some r, s') \<Rightarrow> let (rs, s'') = package_stream_collect s' in (r # rs, s''))"
  by pat_completeness auto
termination
  by (relation "measure (\<lambda>s. length (ps_buf s) - ps_pos s)")
    (auto simp: package_stream_next_def package_record_decode_def HEADER_WIRE_LEN_def Let_def
      split: if_splits option.splits)

declare package_stream_collect.simps [simp del]

lemma package_record_decode_pos: "package_record_decode b = Some (r, n) \<Longrightarrow> 0 < n"
  by (auto simp: package_record_decode_def HEADER_WIRE_LEN_def Let_def split: option.splits if_splits)

lemma package_stream_collect_read_stream:
  "fst (package_stream_collect s) = fst (read_stream package_record_decode (drop (ps_pos s) (ps_buf s))) \<and>
   drop (ps_pos (snd (package_stream_collect s))) (ps_buf s) =
     snd (read_stream package_record_decode (drop (ps_pos s) (ps_buf s)))"
proof (induction s rule: package_stream_collect.induct)
  case (1 s)
  show ?case
  proof (cases "package_stream_next s")
    case (Pair o1 s')
    show ?thesis
    proof (cases o1)
      case None
      then show ?thesis
        using Pair
        unfolding package_stream_collect.simps [of s]
          read_stream.simps [of _ "drop (ps_pos s) (ps_buf s)"]
        by (auto simp: package_stream_next_def split: if_splits option.splits)
    next
      case (Some r)
      then obtain n where n: "package_record_decode (drop (ps_pos s) (ps_buf s)) = Some (r, n)"
          "s' = s\<lparr>ps_pos := ps_pos s + n\<rparr>" "ps_pos s < length (ps_buf s)"
        using Pair by (auto simp: package_stream_next_def split: if_splits option.splits)
      then show ?thesis
        using 1 [OF Pair [symmetric] Some] Some Pair package_record_decode_pos [OF n(1)]
        unfolding package_stream_collect.simps [of s]
          read_stream.simps [of _ "drop (ps_pos s) (ps_buf s)"]
        by (simp add: add.commute case_prod_unfold Let_def)
    qed
  qed
qed

lemma length_net_command_package_encode [simp]:
  "length (net_command_package_encode p) = NET_HEADER_LEN + length (ncp_payload p)"
  by (simp add: net_command_package_encode_def NET_HEADER_LEN_def)

lemma sint_of_nat_small: "n < 2 ^ 15 \<Longrightarrow> sint (of_nat n :: 16 word) = int n"
  by (simp add: signed_of_nat signed_take_bit_int_eq_self)

lemma net_command_package_decode_encode:
  assumes "length (ncp_payload p) < 2 ^ 15"
  shows "net_command_package_decode (net_command_package_encode p @ rest) = Some p"
  using assms sint_of_nat_small [OF assms]
  unfolding net_command_package_decode_def net_command_package_encode_def u32le_def u16le_def NET_HEADER_LEN_def
  by (simp add: Let_def nth_append)

section \<open>Properties\<close>

text \<open>
  C33: What \<^const>\<open>encode_commands\<close> writes for a list of well-formed commands, \<^const>\<open>decode_commands\<close>
  reads back, from the same generator state, as the same list, and both leave the generator in the
  same state. This holds for every generator, so with and without padding.
\<close>

theorem commands_roundtrip:
  assumes "\<forall>c\<in>set cmds. command_ok c"
  shows "decode_commands (fst (encode_commands cmds obf [])) obf =
           (Inr cmds, snd (encode_commands cmds obf []))"
  using assms by (simp add: decode_commands_iff layout_encode encode_commands_obf)

definition sample_group :: command where
  "sample_group = \<lparr>cmd_opcode = 0, cmd_bytes = [0, 1, 7, 9, 3]\<rparr>"

lemma sample_group_ok: "command_ok sample_group"
  by (simp add: command_ok_def sample_group_def wire_len_group)

theorem commands_roundtrip_witness:
  "command_ok sample_group \<and>
   decode_commands (fst (encode_commands [sample_group, sample_group] (obf_multiplayer 12345) []))
     (obf_multiplayer 12345) =
   (Inr [sample_group, sample_group],
    snd (encode_commands [sample_group, sample_group] (obf_multiplayer 12345) []))"
  using commands_roundtrip [of "[sample_group, sample_group]" "obf_multiplayer 12345"] sample_group_ok
  by simp

text \<open>
  Without padding (a solo game) a payload decodes to a list of commands exactly when the
  commands are well-formed and the payload is their encoding: the decoder accepts nothing else and
  loses nothing.
\<close>

lemma decode_commands_solo:
  "decode_commands payload obf_none = (Inr cmds, obf') \<longleftrightarrow>
     (\<forall>c\<in>set cmds. command_ok c) \<and> payload = fst (encode_commands cmds obf_none []) \<and>
     obf' = obf_none"
proof -
  have "layout cmds obf_none payload \<longleftrightarrow> payload = fst (encode_commands cmds obf_none [])"
    using layout_encode [of cmds obf_none] by (simp add: layout_none)
  moreover have "obf_after n obf_none = obf_none" for n by (induction n) auto
  ultimately show ?thesis by (auto simp: decode_commands_iff)
qed

lemma decode_commands_solo_witness:
  "decode_commands [0, 1, 7, 9, 3] obf_none = (Inr [sample_group], obf_none)"
proof -
  have "decode_commands [0, 1, 7, 9, 3] obf_none = (Inr [sample_group], obf_none) \<longleftrightarrow>
      (\<forall>c\<in>set [sample_group]. command_ok c) \<and>
      [0, 1, 7, 9, 3] = fst (encode_commands [sample_group] obf_none []) \<and> obf_none = obf_none"
    by (rule decode_commands_solo)
  then show ?thesis using sample_group_ok by (simp add: sample_group_def)
qed

text \<open>
  With padding, a payload that decodes has the length of the re-encoded list, the re-encoding
  leaves the generator in the same state and decodes to the same list; the bytes between commands
  are the only ones that may differ.
\<close>

lemma reencode_commands:
  assumes "decode_commands payload obf = (Inr cmds, obf')"
  shows "length (fst (encode_commands cmds obf [])) = length payload \<and>
         snd (encode_commands cmds obf []) = obf' \<and>
         decode_commands (fst (encode_commands cmds obf [])) obf = (Inr cmds, obf')"
  using assms layout_encode [of cmds obf] layout_length [OF layout_encode [of cmds obf], of payload]
  by (simp add: decode_commands_iff encode_commands_obf)

lemma next_pad_seed_0: "next_pad (obf_with_seed 0) = (1, obf_with_seed LCG_C)"
proof -
  have "\<not> unat LCG_C mod 65536 < 32768" by (simp add: LCG_C_def)
  then show ?thesis
    by (simp add: next_pad_def obf_with_seed_def pad_random_new_def pad_random_next_pad_eq)
qed

lemma decode_padded:
  "decode_commands [0, 1, 7, 9, 3, 0xAA] (obf_with_seed 0) = (Inr [sample_group], obf_with_seed LCG_C)"
proof -
  have "layout [sample_group] (obf_with_seed 0) [0, 1, 7, 9, 3, 0xAA]"
    by (subst layout_Cons [OF next_pad_seed_0]) (simp add: sample_group_def)
  then show ?thesis
    unfolding decode_commands_iff using sample_group_ok by (simp add: next_pad_seed_0)
qed

lemma reencode_commands_witness:
  "length (fst (encode_commands [sample_group] (obf_with_seed 0) [])) = length [0, 1, 7, 9, 3, 0xAA :: u8]"
  using reencode_commands [OF decode_padded] by blast


text \<open>
  The record iterator of a recorded game reads a file of well-formed records, after any prefix
  that it is told to skip, back as exactly those records and ends at the end of the file.
\<close>

lemma package_stream_reads_all:
  assumes "\<forall>r\<in>set rs. package_record_ok r"
    and "buf = prefix @ concat (map package_record_encode rs)"
  shows "fst (package_stream_collect (package_stream_new buf (length prefix))) = rs \<and>
         length buf \<le> ps_pos (snd (package_stream_collect (package_stream_new buf (length prefix))))"
  using package_stream_collect_read_stream [of "package_stream_new buf (length prefix)"]
    record_stream.read_stream_concat [OF assms(1)]
  by (auto simp: package_stream_new_def assms(2))

definition sample_record :: package_record where
  "sample_record =
     \<lparr>pr_header = \<lparr>ph_stamp = 6, ph_play = 1, ph_valid = 1, ph_group = 2, ph_size = 5\<rparr>,
      pr_payload = [0, 1, 7, 9, 3]\<rparr>"

lemma package_stream_reads_all_witness:
  "fst (package_stream_collect
     (package_stream_new ([1, 2] @ concat (map package_record_encode [sample_record, sample_record]))
       (length [1 :: u8, 2]))) = [sample_record, sample_record]"
  by (rule package_stream_reads_all [OF _ refl, THEN conjunct1])
    (simp add: package_record_ok_def sample_record_def)

end
