(* ===== verification/Retail.thy ===== *)
theory Retail
  imports Commands
begin

text \<open>
  The checksum package of a multiplayer turn, \<^verbatim>\<open>src/crates/don-net/src/retail.rs\<close>: the payload is
  XORed and padded from the game key, and carries exactly one checksum command whose last word is the
  wrapping sum of the others. \<open>seal_package\<close> is the sending side of the same transform, the
  specification that the decoder is verified against.
\<close>

unbundle bit_operations_syntax

definition CHECKSUM_OPCODE :: u8 where "CHECKSUM_OPCODE = 0x39"

record turn_package =
  tp_stamp :: u32
  tp_play :: i8
  tp_payload :: "u8 list"

record decoded_retail_checksum =
  dr_stamp :: u32
  dr_play :: i8
  dr_command_count :: nat
  dr_opcodes :: "u8 list"
  dr_checksums :: checksums

datatype retail_checksum_error =
    PayloadTooLarge nat
  | CommandDecode wire_error
  | MissingChecksum
  | MultipleChecksums
  | InvalidChecksumTotal u32 u32

text \<open>The loop over the decoded commands, with the checksum found so far.\<close>

fun scan_checksums ::
    "command list \<Rightarrow> checksums option \<Rightarrow> (checksums option, retail_checksum_error) result" where
  "scan_checksums [] found = Inr found"
| "scan_checksums (c # cs) found =
     (if cmd_opcode c \<noteq> CHECKSUM_OPCODE then scan_checksums cs found
      else case checksums_decode c of
        None \<Rightarrow> Inl MissingChecksum
      | Some decoded \<Rightarrow>
          let total = foldl (+) 0 (take 15 decoded) in
          if decoded ! 15 \<noteq> total then Inl (InvalidChecksumTotal total (decoded ! 15))
          else if found \<noteq> None then Inl MultipleChecksums
          else scan_checksums cs (Some decoded))"

definition decode_retail_checksum_package ::
    "turn_package \<Rightarrow> u32 \<Rightarrow> (decoded_retail_checksum, retail_checksum_error) result" where
  "decode_retail_checksum_package package game_key =
     (if 512 < length (tp_payload package) then Inl (PayloadTooLarge (length (tp_payload package)))
      else case fst (decode_commands (xor_payload (tp_payload package) (xor_key game_key))
                       (obf_multiplayer game_key)) of
        Inl e \<Rightarrow> Inl (CommandDecode e)
      | Inr commands \<Rightarrow>
          (case scan_checksums commands None of
             Inl e \<Rightarrow> Inl e
           | Inr None \<Rightarrow> Inl MissingChecksum
           | Inr (Some v) \<Rightarrow>
               Inr \<lparr>dr_stamp = tp_stamp package, dr_play = tp_play package,
                    dr_command_count = length commands, dr_opcodes = map cmd_opcode commands,
                    dr_checksums = v\<rparr>))"

section \<open>The sending side\<close>

definition checksum_command :: "checksums \<Rightarrow> command" where
  "checksum_command v = \<lparr>cmd_opcode = CHECKSUM_OPCODE, cmd_bytes = CHECKSUM_OPCODE # concat (map le32 v)\<rparr>"

definition checksums_ok :: "checksums \<Rightarrow> bool" where
  "checksums_ok v \<longleftrightarrow> length v = 16 \<and> v ! 15 = sum_list (take 15 v)"

definition seal_package :: "u32 \<Rightarrow> i8 \<Rightarrow> command list \<Rightarrow> u32 \<Rightarrow> turn_package" where
  "seal_package stamp play cmds game_key =
     \<lparr>tp_stamp = stamp, tp_play = play,
      tp_payload = xor_payload (fst (encode_commands cmds (obf_multiplayer game_key) [])) (xor_key game_key)\<rparr>"

section \<open>Lemmas\<close>

lemma foldl_plus_sum_list: "foldl (+) s xs = (s :: 'a::comm_monoid_add) + sum_list xs"
  by (induction xs arbitrary: s) (auto simp: add.assoc)

lemma length_checksum_bytes: "length v = 16 \<Longrightarrow> length (cmd_bytes (checksum_command v)) = 65"
  by (simp add: checksum_command_def)

lemma checksums_decode_command: "length v = 16 \<Longrightarrow> checksums_decode (checksum_command v) = Some v"
  by (auto simp: checksums_decode_def checksum_command_def CHECKSUM_OPCODE_def CHECKSUMS_WIRE_LEN_def
      u32le_def bytes_at_concat_le32 intro!: nth_equalityI)

lemma command_size_checksum: "command_size 0x39 = Some 65"
  by (simp add: command_size_def COMMAND_SIZES_def)

lemma checksum_command_ok: "length v = 16 \<Longrightarrow> command_ok (checksum_command v)"
  by (simp add: command_ok_def checksum_command_def CHECKSUM_OPCODE_def wire_len_fixed command_size_checksum)

lemma length_checksums_decode: "checksums_decode c = Some v \<Longrightarrow> length v = 16"
  by (auto simp: checksums_decode_def split: if_splits)

lemma scan_checksums_skip:
  "\<forall>c\<in>set cs. cmd_opcode c \<noteq> CHECKSUM_OPCODE \<Longrightarrow> scan_checksums (cs @ ds) found = scan_checksums ds found"
  by (induction cs) auto

lemma scan_checksums_found:
  "scan_checksums cs found = Inr (Some v) \<Longrightarrow>
     (found = Some v \<and> filter (\<lambda>c. cmd_opcode c = CHECKSUM_OPCODE) cs = [] \<or>
      found = None \<and> checksums_ok v \<and>
      (\<exists>c. filter (\<lambda>c. cmd_opcode c = CHECKSUM_OPCODE) cs = [c] \<and> checksums_decode c = Some v))"
proof (induction cs arbitrary: found)
  case (Cons c cs)
  show ?case
  proof (cases "cmd_opcode c = CHECKSUM_OPCODE")
    case True
    with Cons.prems obtain w where w: "checksums_decode c = Some w" "w ! 15 = foldl (+) 0 (take 15 w)"
        "found = None" "scan_checksums cs (Some w) = Inr (Some v)"
      by (auto simp: Let_def split: option.splits if_splits)
    have "checksums_ok w"
      using w length_checksums_decode [OF w(1)] by (simp add: checksums_ok_def foldl_plus_sum_list)
    then show ?thesis using Cons.IH [OF w(4)] w True by auto
  qed (use Cons in auto)
qed simp

lemma seal_package_decode:
  assumes "\<forall>c\<in>set cmds. command_ok c"
  shows "fst (decode_commands (xor_payload (tp_payload (seal_package stamp play cmds key)) (xor_key key))
           (obf_multiplayer key)) = Inr cmds"
proof -
  have "decode_commands (fst (encode_commands cmds (obf_multiplayer key) [])) (obf_multiplayer key) =
      (Inr cmds, obf_after (length cmds) (obf_multiplayer key))"
    using assms by (simp add: decode_commands_iff layout_encode)
  then show ?thesis by (simp add: seal_package_def xor_payload_twice)
qed

text \<open>A package with nothing but a checksum command.\<close>

lemma length_seal_checksum:
  assumes "length v = 16"
  shows "length (tp_payload (seal_package stamp play [checksum_command v] key)) \<le> 66"
proof -
  obtain pad ob where np: "next_pad (obf_multiplayer key) = (pad, ob)" by fastforce
  then have "pad \<le> 1" using next_pad_le_1 [of "obf_multiplayer key"] by simp
  then show ?thesis
    using assms by (simp add: seal_package_def np length_checksum_bytes)
qed

lemma decode_seal_checksum:
  assumes "checksums_ok v"
  shows "decode_retail_checksum_package (seal_package stamp play [checksum_command v] key) key =
    Inr \<lparr>dr_stamp = stamp, dr_play = play, dr_command_count = 1, dr_opcodes = [CHECKSUM_OPCODE],
         dr_checksums = v\<rparr>"
proof -
  have v: "length v = 16" "v ! 15 = foldl (+) 0 (take 15 v)"
    using assms by (auto simp: checksums_ok_def foldl_plus_sum_list)
  then show ?thesis
    using length_seal_checksum [OF v(1), of stamp play key] checksums_decode_command [OF v(1)]
      seal_package_decode [of "[checksum_command v]" stamp play key] checksum_command_ok [OF v(1)]
    by (simp add: decode_retail_checksum_package_def) (simp add: checksum_command_def seal_package_def)
qed

section \<open>Properties\<close>

text \<open>
  C31: A sealed package that fits the 512-byte payload, with one checksum command whose total is the
  sum of its words anywhere among well-formed commands, is decoded with the same game key to its
  stamp, its slot, its opcodes in order and its checksums.
\<close>

theorem retail_package_roundtrip:
  assumes "\<forall>c\<in>set (xs @ ys). command_ok c \<and> cmd_opcode c \<noteq> CHECKSUM_OPCODE"
    and "checksums_ok v"
    and "length (tp_payload (seal_package stamp play (xs @ [checksum_command v] @ ys) key)) \<le> 512"
  shows "decode_retail_checksum_package (seal_package stamp play (xs @ [checksum_command v] @ ys) key) key =
    Inr \<lparr>dr_stamp = stamp, dr_play = play, dr_command_count = length xs + 1 + length ys,
         dr_opcodes = map cmd_opcode xs @ [CHECKSUM_OPCODE] @ map cmd_opcode ys, dr_checksums = v\<rparr>"
proof -
  have v: "length v = 16" "v ! 15 = foldl (+) 0 (take 15 v)"
    using assms(2) by (auto simp: checksums_ok_def foldl_plus_sum_list)
  have ok: "\<forall>c\<in>set (xs @ [checksum_command v] @ ys). command_ok c"
    using assms(1) checksum_command_ok [OF v(1)] by auto
  have op: "cmd_opcode (checksum_command v) = CHECKSUM_OPCODE" by (simp add: checksum_command_def)
  have "scan_checksums (ys @ []) (Some v) = Inr (Some v)"
    using assms(1) by (subst scan_checksums_skip) auto
  then have "scan_checksums (xs @ [checksum_command v] @ ys) None = Inr (Some v)"
    using assms(1) v checksums_decode_command [OF v(1)] op
    by (subst scan_checksums_skip) auto
  then show ?thesis
    using assms(3) seal_package_decode [OF ok, of stamp play key] op
    by (simp add: decode_retail_checksum_package_def) (simp add: seal_package_def)
qed

lemma checksums_ok_zero: "checksums_ok (replicate 16 0)"
  by (simp add: checksums_ok_def sum_list_replicate)

theorem retail_package_roundtrip_witness:
  "decode_retail_checksum_package
     (seal_package 6 (I8 2) ([] @ [checksum_command (replicate 16 0)] @ [sample_group]) 12345) 12345 =
   Inr \<lparr>dr_stamp = 6, dr_play = I8 2, dr_command_count = 0 + 1 + 1,
        dr_opcodes = [CHECKSUM_OPCODE, 0], dr_checksums = replicate 16 0\<rparr>"
proof -
  obtain p1 o1 where np: "next_pad (obf_multiplayer 12345) = (p1, o1)" by fastforce
  obtain p2 o2 where np2: "next_pad o1 = (p2, o2)" by fastforce
  have "p1 \<le> 1" "p2 \<le> 1" using np np2 next_pad_le_1 fst_conv by metis+
  then have "length (tp_payload (seal_package 6 (I8 2) ([] @ [checksum_command (replicate 16 0)] @ [sample_group]) 12345)) \<le> 512"
    by (simp add: seal_package_def np np2 length_checksum_bytes sample_group_def)
  then show ?thesis
    using checksums_ok_zero sample_group_ok
    by (subst retail_package_roundtrip) (simp_all add: sample_group_def CHECKSUM_OPCODE_def)
qed

text \<open>
  A package is accepted only if its payload is at most 512 bytes and decodes, under the game key,
  to commands of which exactly one is a checksum command, whose sixteenth word is the wrapping sum of
  the first fifteen; the result reports the package's own stamp and slot.
\<close>

lemma retail_package_accepted:
  assumes "decode_retail_checksum_package package key = Inr d"
  shows "\<exists>cmds c. fst (decode_commands (xor_payload (tp_payload package) (xor_key key)) (obf_multiplayer key)) = Inr cmds \<and>
    filter (\<lambda>c. cmd_opcode c = CHECKSUM_OPCODE) cmds = [c] \<and> checksums_decode c = Some (dr_checksums d) \<and>
    checksums_ok (dr_checksums d) \<and> length (tp_payload package) \<le> 512 \<and>
    dr_stamp d = tp_stamp package \<and> dr_play d = tp_play package \<and> dr_opcodes d = map cmd_opcode cmds"
  using assms
  by (auto simp: decode_retail_checksum_package_def split: if_splits sum.splits option.splits
      dest!: scan_checksums_found)

lemma retail_package_accepted_witness:
  "\<exists>cmds c. fst (decode_commands (xor_payload (tp_payload (seal_package 6 (I8 2) [checksum_command (replicate 16 0)] 12345))
      (xor_key 12345)) (obf_multiplayer 12345)) = Inr cmds \<and>
    filter (\<lambda>c. cmd_opcode c = CHECKSUM_OPCODE) cmds = [c] \<and> checksums_decode c = Some (replicate 16 0)"
  using retail_package_accepted [OF decode_seal_checksum [OF checksums_ok_zero, of 6 "I8 2" 12345]]
  by auto

end
