(* ===== verification/Rust_Text.thy ===== *)
theory Rust_Text
  imports DoN_Prelude
begin

text \<open>
  The text operations of the Rust standard library that the networking crate uses: a \<^verbatim>\<open>String\<close> as
  its list of Unicode scalar values, its UTF-8 bytes, \<^verbatim>\<open>String::from_utf8_lossy\<close> (one U+FFFD for each
  maximal invalid prefix, as \<^verbatim>\<open>Utf8Chunks\<close> splits them), \<^verbatim>\<open>encode_utf16\<close>, and the decimal and
  fixed-width hexadecimal formats of \<^verbatim>\<open>write!\<close>.
\<close>

section \<open>Unicode text\<close>

type_synonym rust_string = "nat list"

definition is_scalar :: "nat \<Rightarrow> bool" where
  "is_scalar c \<longleftrightarrow> c < 0x110000 \<and> \<not> (0xD800 \<le> c \<and> c < 0xE000)"

definition valid_string :: "rust_string \<Rightarrow> bool" where
  "valid_string s \<longleftrightarrow> list_all is_scalar s"

text \<open>\<^verbatim>\<open>char::from_u32(c).unwrap_or('\u{fffd}')\<close>.\<close>

definition char_or_replacement :: "nat \<Rightarrow> nat" where
  "char_or_replacement c = (if is_scalar c then c else 0xFFFD)"

subsection \<open>UTF-8\<close>

definition byte :: "nat \<Rightarrow> u8" where "byte n = of_nat n"

definition utf8_char :: "nat \<Rightarrow> u8 list" where
  "utf8_char c =
     (if c < 0x80 then [byte c]
      else if c < 0x800 then [byte (0xC0 + c div 64), byte (0x80 + c mod 64)]
      else if c < 0x10000 then
        [byte (0xE0 + c div 4096), byte (0x80 + c div 64 mod 64), byte (0x80 + c mod 64)]
      else
        [byte (0xF0 + c div 262144), byte (0x80 + c div 4096 mod 64),
         byte (0x80 + c div 64 mod 64), byte (0x80 + c mod 64)])"

definition as_bytes :: "rust_string \<Rightarrow> u8 list" where
  "as_bytes s = concat (map utf8_char s)"

definition utf8_width :: "nat \<Rightarrow> nat" where
  "utf8_width b =
     (if 0xC2 \<le> b \<and> b \<le> 0xDF then 2 else if 0xE0 \<le> b \<and> b \<le> 0xEF then 3
      else if 0xF0 \<le> b \<and> b \<le> 0xF4 then 4 else 0)"

definition is_cont :: "nat \<Rightarrow> bool" where
  "is_cont b \<longleftrightarrow> 0x80 \<le> b \<and> b < 0xC0"

definition second_ok :: "nat \<Rightarrow> nat \<Rightarrow> bool" where
  "second_ok b n \<longleftrightarrow>
     (if b = 0xE0 then 0xA0 \<le> n \<and> n \<le> 0xBF
      else if b = 0xED then 0x80 \<le> n \<and> n \<le> 0x9F
      else if b = 0xF0 then 0x90 \<le> n \<and> n \<le> 0xBF
      else if b = 0xF4 then 0x80 \<le> n \<and> n \<le> 0x8F
      else is_cont n)"

text \<open>A byte past the end reads as 0.\<close>

definition safe_get :: "u8 list \<Rightarrow> nat \<Rightarrow> nat" where
  "safe_get bs i = (if i < length bs then unat (bs ! i) else 0)"

text \<open>
  The first chunk step: \<open>(Some c, n)\<close> for a character of \<open>n\<close> bytes, \<open>(None, n)\<close> for a maximal invalid
  prefix of \<open>n\<close> bytes.
\<close>

definition utf8_next :: "u8 list \<Rightarrow> nat option \<times> nat" where
  "utf8_next bs =
     (let b = safe_get bs 0; b1 = safe_get bs 1; b2 = safe_get bs 2; b3 = safe_get bs 3 in
      if b < 0x80 then (Some b, 1)
      else if utf8_width b = 2 then
        (if \<not> is_cont b1 then (None, 1) else (Some ((b - 0xC0) * 64 + (b1 - 0x80)), 2))
      else if utf8_width b = 3 then
        (if \<not> second_ok b b1 then (None, 1)
         else if \<not> is_cont b2 then (None, 2)
         else (Some ((b - 0xE0) * 4096 + (b1 - 0x80) * 64 + (b2 - 0x80)), 3))
      else if utf8_width b = 4 then
        (if \<not> second_ok b b1 then (None, 1)
         else if \<not> is_cont b2 then (None, 2)
         else if \<not> is_cont b3 then (None, 3)
         else (Some ((b - 0xF0) * 262144 + (b1 - 0x80) * 4096 + (b2 - 0x80) * 64 + (b3 - 0x80)), 4))
      else (None, 1))"

lemma utf8_next_pos: "0 < snd (utf8_next bs)"
  by (simp add: utf8_next_def Let_def)

function from_utf8_lossy :: "u8 list \<Rightarrow> rust_string" where
  "from_utf8_lossy bs =
     (if bs = [] then []
      else let (c, n) = utf8_next bs
           in (case c of Some c \<Rightarrow> c | None \<Rightarrow> 0xFFFD) # from_utf8_lossy (drop n bs))"
  by pat_completeness auto
termination
  by (relation "measure length") (auto, metis snd_conv utf8_next_pos diff_less length_greater_0_conv)

text \<open>\<^verbatim>\<open>String::from_utf8\<close> accepts exactly the byte lists without an invalid chunk.\<close>

function from_utf8 :: "u8 list \<Rightarrow> rust_string option" where
  "from_utf8 bs =
     (if bs = [] then Some []
      else let (c, n) = utf8_next bs
           in case c of None \<Rightarrow> None | Some c \<Rightarrow> map_option ((#) c) (from_utf8 (drop n bs)))"
  by pat_completeness auto
termination
  by (relation "measure length") (auto, metis snd_conv utf8_next_pos diff_less length_greater_0_conv)

declare from_utf8_lossy.simps [simp del] from_utf8.simps [simp del]

subsection \<open>UTF-16\<close>

definition utf16_char :: "nat \<Rightarrow> u16 list" where
  "utf16_char c =
     (if c < 0x10000 then [of_nat c]
      else [of_nat (0xD800 + (c - 0x10000) div 1024), of_nat (0xDC00 + (c - 0x10000) mod 1024)])"

definition encode_utf16 :: "rust_string \<Rightarrow> u16 list" where
  "encode_utf16 s = concat (map utf16_char s)"

text \<open>\<^verbatim>\<open>String::from_utf16_lossy\<close>: a surrogate that is not part of a pair becomes U+FFFD.\<close>

fun from_utf16_lossy :: "u16 list \<Rightarrow> rust_string" where
  "from_utf16_lossy [] = []"
| "from_utf16_lossy [u] = [if 0xD800 \<le> u \<and> u \<le> 0xDFFF then 0xFFFD else unat u]"
| "from_utf16_lossy (u # v # us) =
     (if \<not> (0xD800 \<le> u \<and> u \<le> 0xDFFF) then unat u # from_utf16_lossy (v # us)
      else if u < 0xDC00 \<and> 0xDC00 \<le> v \<and> v \<le> 0xDFFF
      then (0x10000 + (unat u - 0xD800) * 1024 + (unat v - 0xDC00)) # from_utf16_lossy us
      else 0xFFFD # from_utf16_lossy (v # us))"

section \<open>Number formats\<close>

definition digit_char :: "nat \<Rightarrow> char" where
  "digit_char d = (if d < 10 then char_of (48 + d) else char_of (87 + d))"

fun show_nat :: "nat \<Rightarrow> string" where
  "show_nat n = (if n < 10 then [digit_char n] else show_nat (n div 10) @ [digit_char (n mod 10)])"

declare show_nat.simps [simp del]

definition show_int :: "int \<Rightarrow> string" where
  "show_int i = (if i < 0 then ''-'' @ show_nat (nat (- i)) else show_nat (nat i))"

text \<open>\<^verbatim>\<open>{:016x}\<close> and \<^verbatim>\<open>{:08x}\<close>: all hexadecimal digits of the type's width.\<close>

fun show_hex :: "nat \<Rightarrow> nat \<Rightarrow> string" where
  "show_hex 0 n = []"
| "show_hex (Suc w) n = show_hex w (n div 16) @ [digit_char (n mod 16)]"

text \<open>Items separated by a comma, as a loop that pushes \<^verbatim>\<open>','\<close> before every item but the first.\<close>

fun comma_sep :: "string list \<Rightarrow> string" where
  "comma_sep [] = []"
| "comma_sep [x] = x"
| "comma_sep (x # y # zs) = x @ '','' @ comma_sep (y # zs)"

text \<open>The bytes of ASCII text.\<close>

definition ascii_bytes :: "string \<Rightarrow> u8 list" where
  "ascii_bytes s = map (\<lambda>c. of_nat (of_char c)) s"

section \<open>Lemmas\<close>

lemma safe_get_Cons_0 [simp]: "safe_get (b # bs) 0 = unat b"
  by (simp add: safe_get_def)

lemma safe_get_Cons_Suc [simp]: "safe_get (b # bs) (Suc i) = safe_get bs i"
  by (simp add: safe_get_def)

lemma safe_get_Cons_numeral [simp]: "safe_get (b # bs) (numeral k) = safe_get bs (pred_numeral k)"
  by (simp add: safe_get_def numeral_eq_Suc)

lemma unat_byte: "n < 256 \<Longrightarrow> unat (byte n) = n"
  by (simp add: byte_def unsigned_of_nat take_bit_nat_eq_self)

lemma byte_nonzero: "0 < n \<Longrightarrow> n < 256 \<Longrightarrow> byte n \<noteq> 0"
  by (metis unat_byte unat_0 less_numeral_extra(3))

lemma from_utf16_lossy_basic:
  "c < 0x10000 \<Longrightarrow> is_scalar c \<Longrightarrow> from_utf16_lossy (of_nat c # us) = c # from_utf16_lossy us"
proof -
  assume c: "c < 0x10000" "is_scalar c"
  then have un: "unat (of_nat c :: u16) = c" by (simp add: unsigned_of_nat take_bit_nat_eq_self)
  then have "\<not> (0xD800 \<le> (of_nat c :: u16) \<and> (of_nat c :: u16) \<le> 0xDFFF)"
    using c by (auto simp: word_le_nat_alt is_scalar_def)
  then show ?thesis using un by (cases us) auto
qed

lemma from_utf16_lossy_astral:
  assumes "\<not> c < 0x10000" "is_scalar c"
  shows "from_utf16_lossy (of_nat (0xD800 + (c - 0x10000) div 1024) #
    of_nat (0xDC00 + (c - 0x10000) mod 1024) # us) = c # from_utf16_lossy us"
proof -
  define h l where "h = (c - 0x10000) div 1024" and "l = (c - 0x10000) mod 1024"
  have hl: "h < 1024" "l < 1024" "0x10000 + h * 1024 + l = c"
    using assms by (auto simp: h_def l_def is_scalar_def)
  have "unat (of_nat (0xD800 + h) :: u16) = 0xD800 + h" "unat (of_nat (0xDC00 + l) :: u16) = 0xDC00 + l"
    unfolding unsigned_of_nat using hl by (auto intro!: take_bit_nat_eq_self)
  then show ?thesis
    using hl by (simp add: word_le_nat_alt word_less_nat_alt flip: h_def l_def)
qed

lemma from_utf16_lossy_encode: "valid_string s \<Longrightarrow> from_utf16_lossy (encode_utf16 s) = s"
proof (induction s)
  case (Cons c s)
  then show ?case
    using from_utf16_lossy_basic [of c "encode_utf16 s"] from_utf16_lossy_astral [of c "encode_utf16 s"]
    by (auto simp: encode_utf16_def utf16_char_def valid_string_def)
qed (simp add: encode_utf16_def)

lemma utf8_next_1: "b < 0x80 \<Longrightarrow> utf8_next (byte b # r) = (Some b, 1)"
  by (simp add: utf8_next_def Let_def unat_byte)

lemma utf8_next_2:
  "0xC2 \<le> b \<Longrightarrow> b \<le> 0xDF \<Longrightarrow> is_cont b1 \<Longrightarrow>
   utf8_next (byte b # byte b1 # r) = (Some ((b - 0xC0) * 64 + (b1 - 0x80)), 2)"
  by (simp add: utf8_next_def Let_def unat_byte utf8_width_def is_cont_def)

lemma utf8_next_3:
  "0xE0 \<le> b \<Longrightarrow> b \<le> 0xEF \<Longrightarrow> second_ok b b1 \<Longrightarrow> b1 < 256 \<Longrightarrow> is_cont b2 \<Longrightarrow>
   utf8_next (byte b # byte b1 # byte b2 # r) =
     (Some ((b - 0xE0) * 4096 + (b1 - 0x80) * 64 + (b2 - 0x80)), 3)"
  by (simp add: utf8_next_def Let_def unat_byte utf8_width_def is_cont_def)

lemma utf8_next_4:
  "0xF0 \<le> b \<Longrightarrow> b \<le> 0xF4 \<Longrightarrow> second_ok b b1 \<Longrightarrow> b1 < 256 \<Longrightarrow> is_cont b2 \<Longrightarrow> is_cont b3 \<Longrightarrow>
   utf8_next (byte b # byte b1 # byte b2 # byte b3 # r) =
     (Some ((b - 0xF0) * 262144 + (b1 - 0x80) * 4096 + (b2 - 0x80) * 64 + (b3 - 0x80)), 4)"
  by (simp add: utf8_next_def Let_def unat_byte utf8_width_def is_cont_def)

text \<open>Digits of a code point in base 64.\<close>

lemma digits64: "c div 4096 * 4096 + c div 64 mod 64 * 64 + c mod 64 = (c :: nat)"
proof -
  have "c div 4096 = c div 64 div 64" by (simp flip: div_mult2_eq)
  then show ?thesis
    using div_mult_mod_eq [of c 64] div_mult_mod_eq [of "c div 64" 64] by linarith
qed

lemma digits64_high: "c div 262144 * 64 + c div 4096 mod 64 = (c :: nat) div 4096"
proof -
  have "c div 262144 = c div 4096 div 64" by (simp flip: div_mult2_eq)
  then show ?thesis using div_mult_mod_eq [of "c div 4096" 64] by linarith
qed

lemma utf8_next_char:
  assumes "is_scalar c"
  shows "utf8_next (utf8_char c @ rest) = (Some c, length (utf8_char c))"
proof -
  consider "c < 0x80" | "0x80 \<le> c" "c < 0x800" | "0x800 \<le> c" "c < 0x10000" | "0x10000 \<le> c"
    by linarith
  then show ?thesis
  proof cases
    case 1
    then show ?thesis by (simp add: utf8_char_def utf8_next_1)
  next
    case 2
    then have "c div 64 < 32" "2 \<le> c div 64" by auto
    then show ?thesis
      using 2 utf8_next_2 [of "0xC0 + c div 64" "0x80 + c mod 64" rest]
      by (simp add: utf8_char_def is_cont_def)
  next
    case 3
    have d: "c div 4096 < 16" "c div 64 mod 64 < 64" "c mod 64 < 64" using 3 by auto
    have lo: "c div 4096 = 0 \<Longrightarrow> 32 \<le> c div 64 mod 64" using 3 digits64 [of c] by linarith
    have hi: "c div 4096 = 13 \<Longrightarrow> c div 64 mod 64 < 32"
      using assms digits64 [of c] d(3) unfolding is_scalar_def by linarith
    have sum: "c div 4096 * 4096 + c div 64 mod 64 * 64 + c mod 64 = c" by (rule digits64)
    have "second_ok (0xE0 + c div 4096) (0x80 + c div 64 mod 64)"
      using d lo hi by (simp add: second_ok_def is_cont_def) linarith
    then have "utf8_next (byte (0xE0 + c div 4096) # byte (0x80 + c div 64 mod 64) # byte (0x80 + c mod 64) # rest) =
        (Some c, 3)"
      using d sum by (subst utf8_next_3) (simp_all add: is_cont_def)
    moreover have "utf8_char c = [byte (0xE0 + c div 4096), byte (0x80 + c div 64 mod 64), byte (0x80 + c mod 64)]"
      using 3 by (simp add: utf8_char_def)
    ultimately show ?thesis by simp
  next
    case 4
    have c: "c < 0x110000" using assms by (simp add: is_scalar_def)
    have d: "c div 262144 < 5" "c div 4096 mod 64 < 64" "c div 64 mod 64 < 64" "c mod 64 < 64"
      using c by auto
    have sum: "c div 262144 * 262144 + c div 4096 mod 64 * 4096 + c div 64 mod 64 * 64 + c mod 64 = c"
      using digits64 [of c] digits64_high [of c] by linarith
    have lo: "c div 262144 = 0 \<Longrightarrow> 16 \<le> c div 4096 mod 64" using 4 sum d(3,4) by linarith
    have hi: "c div 262144 = 4 \<Longrightarrow> c div 4096 mod 64 < 16" using c sum by linarith
    have "second_ok (0xF0 + c div 262144) (0x80 + c div 4096 mod 64)"
      using d lo hi by (simp add: second_ok_def is_cont_def) linarith
    then have "utf8_next (byte (0xF0 + c div 262144) # byte (0x80 + c div 4096 mod 64) #
        byte (0x80 + c div 64 mod 64) # byte (0x80 + c mod 64) # rest) = (Some c, 4)"
      using d sum by (subst utf8_next_4) (simp_all add: is_cont_def)
    moreover have "utf8_char c = [byte (0xF0 + c div 262144), byte (0x80 + c div 4096 mod 64),
        byte (0x80 + c div 64 mod 64), byte (0x80 + c mod 64)]"
      using 4 by (simp add: utf8_char_def)
    ultimately show ?thesis by simp
  qed
qed

lemma utf8_char_nonempty [simp]: "utf8_char c \<noteq> []"
  by (simp add: utf8_char_def)

lemma from_utf8_lossy_as_bytes: "valid_string s \<Longrightarrow> from_utf8_lossy (as_bytes s) = s"
proof (induction s)
  case (Cons c s)
  then show ?case
    using utf8_next_char [of c "as_bytes s"]
    by (subst from_utf8_lossy.simps) (auto simp: as_bytes_def valid_string_def)
qed (simp add: as_bytes_def from_utf8_lossy.simps)

lemma from_utf8_as_bytes: "valid_string s \<Longrightarrow> from_utf8 (as_bytes s) = Some s"
proof (induction s)
  case (Cons c s)
  then show ?case
    using utf8_next_char [of c "as_bytes s"]
    by (subst from_utf8.simps) (auto simp: as_bytes_def valid_string_def)
qed (simp add: as_bytes_def from_utf8.simps)

text \<open>Conversely, whatever is accepted is the encoding of what it is read as.\<close>

lemma byte_unat [simp]: "byte (unat w) = w"
  by (simp add: byte_def)

lemma base64: "d < 64 \<Longrightarrow> (a * 64 + d) div 64 = (a :: nat) \<and> (a * 64 + d) mod 64 = d"
  by simp

lemma base64_2:
  assumes "e < 64" "f < 64" "c = a * 4096 + e * 64 + (f :: nat)"
  shows "c div 4096 = a \<and> c div 64 mod 64 = e \<and> c mod 64 = f"
proof -
  have c: "c = (a * 64 + e) * 64 + f" using assms(3) by simp
  have "c div 64 = a * 64 + e" "c mod 64 = f" using base64 [OF assms(2), of "a * 64 + e"] c by simp_all
  moreover have "c div 4096 = c div 64 div 64" by (simp flip: div_mult2_eq)
  ultimately show ?thesis using base64 [OF assms(1), of a] by simp
qed

lemma base64_3:
  assumes "d < 64" "e < 64" "f < 64" "c = a * 262144 + d * 4096 + e * 64 + (f :: nat)"
  shows "c div 262144 = a \<and> c div 4096 mod 64 = d \<and> c div 64 mod 64 = e \<and> c mod 64 = f"
proof -
  have "c div 4096 = a * 64 + d \<and> c div 64 mod 64 = e \<and> c mod 64 = f"
    using base64_2 [OF assms(2,3), of c "a * 64 + d"] assms(4) by simp
  moreover have "c div 262144 = c div 4096 div 64" by (simp flip: div_mult2_eq)
  ultimately show ?thesis using base64 [OF assms(1), of a] by simp
qed

lemma utf8_char_2:
  assumes "0xC2 \<le> x" "x \<le> 0xDF" "is_cont y" "c = (x - 0xC0) * 64 + (y - 0x80)"
  shows "utf8_char c = [byte x, byte y] \<and> is_scalar c"
proof -
  have y: "y - 0x80 < 64" using assms(3) by (auto simp: is_cont_def)
  have b: "c div 64 = x - 0xC0" "c mod 64 = y - 0x80" using base64 [OF y, of "x - 0xC0"] assms(4) by simp_all
  have "0x80 \<le> c" "c < 0x800" using assms y by linarith+
  then show ?thesis using assms(1,2,3) b by (simp add: utf8_char_def is_scalar_def is_cont_def)
qed

lemma utf8_char_3:
  assumes "0xE0 \<le> x" "x \<le> 0xEF" "second_ok x y" "is_cont z"
    "c = (x - 0xE0) * 4096 + (y - 0x80) * 64 + (z - 0x80)"
  shows "utf8_char c = [byte x, byte y, byte z] \<and> is_scalar c"
proof -
  have yz: "0x80 \<le> y" "y - 0x80 < 64" "0x80 \<le> z" "z - 0x80 < 64"
    and lo: "x = 0xE0 \<Longrightarrow> 0xA0 \<le> y" and hi: "x = 0xED \<Longrightarrow> y \<le> 0x9F"
    using assms(1-4) by (auto simp: second_ok_def is_cont_def split: if_splits)
  have b: "c div 4096 = x - 0xE0" "c div 64 mod 64 = y - 0x80" "c mod 64 = z - 0x80"
    using base64_2 [OF yz(2,4) assms(5)] by simp_all
  have "0x800 \<le> c" "c < 0x10000" using assms(1,2,5) yz lo by linarith+
  moreover have "\<not> (0xD800 \<le> c \<and> c < 0xE000)"
  proof
    assume c: "0xD800 \<le> c \<and> c < 0xE000"
    then have "x - 0xE0 = 13" using assms(5) yz(2,4) by linarith
    then have "y \<le> 0x9F" using hi by simp
    then show False using c assms(5) \<open>x - 0xE0 = 13\<close> yz by linarith
  qed
  ultimately show ?thesis using assms(1) yz b by (simp add: utf8_char_def is_scalar_def)
qed

lemma utf8_char_4:
  assumes "0xF0 \<le> x" "x \<le> 0xF4" "second_ok x y" "is_cont z" "is_cont w"
    "c = (x - 0xF0) * 262144 + (y - 0x80) * 4096 + (z - 0x80) * 64 + (w - 0x80)"
  shows "utf8_char c = [byte x, byte y, byte z, byte w] \<and> is_scalar c"
proof -
  have yz: "0x80 \<le> y" "y - 0x80 < 64" "0x80 \<le> z" "z - 0x80 < 64" "0x80 \<le> w" "w - 0x80 < 64"
    and lo: "x = 0xF0 \<Longrightarrow> 0x90 \<le> y" and hi: "x = 0xF4 \<Longrightarrow> y \<le> 0x8F"
    using assms(1-5) by (auto simp: second_ok_def is_cont_def split: if_splits)
  have b: "c div 262144 = x - 0xF0" "c div 4096 mod 64 = y - 0x80" "c div 64 mod 64 = z - 0x80" "c mod 64 = w - 0x80"
    using base64_3 [OF yz(2,4,6) assms(6)] by simp_all
  have "0x10000 \<le> c" "c < 0x110000" using assms(1,2,6) yz lo hi by linarith+
  then show ?thesis using assms(1) yz b by (simp add: utf8_char_def is_scalar_def)
qed

lemma safe_get_prefix:
  assumes "bs \<noteq> []"
  shows "bs = byte (safe_get bs 0) # drop 1 bs"
    and "safe_get bs 1 \<noteq> 0 \<Longrightarrow> drop 1 bs = byte (safe_get bs 1) # drop 2 bs"
    and "safe_get bs 2 \<noteq> 0 \<Longrightarrow> drop 2 bs = byte (safe_get bs 2) # drop 3 bs"
    and "safe_get bs 3 \<noteq> 0 \<Longrightarrow> drop 3 bs = byte (safe_get bs 3) # drop 4 bs"
proof -
  have "i < length bs \<Longrightarrow> drop i bs = byte (safe_get bs i) # drop (Suc i) bs" for i
    by (simp add: safe_get_def Cons_nth_drop_Suc)
  moreover have "safe_get bs i \<noteq> 0 \<Longrightarrow> i < length bs" for i by (simp add: safe_get_def split: if_splits)
  ultimately have n: "safe_get bs i \<noteq> 0 \<Longrightarrow> drop i bs = byte (safe_get bs i) # drop (Suc i) bs" for i by blast
  show "bs = byte (safe_get bs 0) # drop 1 bs" using assms by (cases bs) simp_all
  show "safe_get bs 1 \<noteq> 0 \<Longrightarrow> drop 1 bs = byte (safe_get bs 1) # drop 2 bs" using n [of 1] by (simp add: numeral_2_eq_2)
  show "safe_get bs 2 \<noteq> 0 \<Longrightarrow> drop 2 bs = byte (safe_get bs 2) # drop 3 bs" using n [of 2] by simp
  show "safe_get bs 3 \<noteq> 0 \<Longrightarrow> drop 3 bs = byte (safe_get bs 3) # drop 4 bs" using n [of 3] by simp
qed

lemma second_ok_nonzero: "second_ok b n \<Longrightarrow> n \<noteq> 0"
  by (auto simp: second_ok_def is_cont_def split: if_splits)

lemma is_cont_nonzero: "is_cont n \<Longrightarrow> n \<noteq> 0"
  by (simp add: is_cont_def)

lemma utf8_width_cases:
  "(utf8_width b = 2 \<longrightarrow> 0xC2 \<le> b \<and> b \<le> 0xDF) \<and> (utf8_width b = 3 \<longrightarrow> 0xE0 \<le> b \<and> b \<le> 0xEF) \<and>
   (utf8_width b = 4 \<longrightarrow> 0xF0 \<le> b \<and> b \<le> 0xF4)"
  by (simp add: utf8_width_def)

lemma utf8_chunk_cases:
  assumes "(if A then (Some x1, m1)
      else if B then (if \<not> P then (None, n1) else (Some x2, m2))
      else if C then (if \<not> Q then (None, n2) else if \<not> R then (None, n3) else (Some x3, m3))
      else if D then
        (if \<not> Q then (None, n4) else if \<not> R then (None, n5) else if \<not> S then (None, n6) else (Some x4, m4))
      else (None, n7)) = (Some c, n)"
  shows "A \<and> c = x1 \<and> n = m1 \<or> B \<and> P \<and> c = x2 \<and> n = m2 \<or> C \<and> Q \<and> R \<and> c = x3 \<and> n = m3 \<or>
    D \<and> Q \<and> R \<and> S \<and> c = x4 \<and> n = m4"
  using assms by (auto split: if_splits)

lemma utf8_next_cases:
  assumes "utf8_next bs = (Some c, n)"
  shows "safe_get bs 0 < 0x80 \<and> c = safe_get bs 0 \<and> n = 1 \<or>
    utf8_width (safe_get bs 0) = 2 \<and> is_cont (safe_get bs 1) \<and>
      c = (safe_get bs 0 - 0xC0) * 64 + (safe_get bs 1 - 0x80) \<and> n = 2 \<or>
    utf8_width (safe_get bs 0) = 3 \<and> second_ok (safe_get bs 0) (safe_get bs 1) \<and> is_cont (safe_get bs 2) \<and>
      c = (safe_get bs 0 - 0xE0) * 4096 + (safe_get bs 1 - 0x80) * 64 + (safe_get bs 2 - 0x80) \<and> n = 3 \<or>
    utf8_width (safe_get bs 0) = 4 \<and> second_ok (safe_get bs 0) (safe_get bs 1) \<and> is_cont (safe_get bs 2) \<and>
      is_cont (safe_get bs 3) \<and>
      c = (safe_get bs 0 - 0xF0) * 262144 + (safe_get bs 1 - 0x80) * 4096 + (safe_get bs 2 - 0x80) * 64 +
        (safe_get bs 3 - 0x80) \<and> n = 4"
  using assms unfolding utf8_next_def Let_def by (rule utf8_chunk_cases)

lemma utf8_next_sound:
  assumes "utf8_next bs = (Some c, n)" "bs \<noteq> []"
  shows "bs = utf8_char c @ drop n bs \<and> is_scalar c"
  using utf8_next_cases [OF assms(1)]
proof (elim disjE conjE)
  note pre = safe_get_prefix [OF assms(2)]
  note width = utf8_width_cases [of "safe_get bs 0"]
  {
    assume "safe_get bs 0 < 0x80" "c = safe_get bs 0" "n = 1"
    then show ?thesis using pre(1) by (simp add: utf8_char_def is_scalar_def)
  next
    assume a: "utf8_width (safe_get bs 0) = 2" "is_cont (safe_get bs 1)"
      "c = (safe_get bs 0 - 0xC0) * 64 + (safe_get bs 1 - 0x80)" and n: "n = 2"
    have "utf8_char c = [byte (safe_get bs 0), byte (safe_get bs 1)] \<and> is_scalar c"
      using a width by (intro utf8_char_2) simp_all
    then show ?thesis
      unfolding n using pre(1) pre(2) [OF is_cont_nonzero [OF a(2)]] by (metis append_Cons append_Nil)
  next
    assume a: "utf8_width (safe_get bs 0) = 3" "second_ok (safe_get bs 0) (safe_get bs 1)" "is_cont (safe_get bs 2)"
      "c = (safe_get bs 0 - 0xE0) * 4096 + (safe_get bs 1 - 0x80) * 64 + (safe_get bs 2 - 0x80)" and n: "n = 3"
    have "utf8_char c = [byte (safe_get bs 0), byte (safe_get bs 1), byte (safe_get bs 2)] \<and> is_scalar c"
      using a width by (intro utf8_char_3) simp_all
    then show ?thesis
      unfolding n using pre(1) pre(2) [OF second_ok_nonzero [OF a(2)]] pre(3) [OF is_cont_nonzero [OF a(3)]]
      by (metis append_Cons append_Nil)
  next
    assume a: "utf8_width (safe_get bs 0) = 4" "second_ok (safe_get bs 0) (safe_get bs 1)" "is_cont (safe_get bs 2)"
      "is_cont (safe_get bs 3)"
      "c = (safe_get bs 0 - 0xF0) * 262144 + (safe_get bs 1 - 0x80) * 4096 + (safe_get bs 2 - 0x80) * 64 +
        (safe_get bs 3 - 0x80)" and n: "n = 4"
    have "utf8_char c = [byte (safe_get bs 0), byte (safe_get bs 1), byte (safe_get bs 2), byte (safe_get bs 3)] \<and>
        is_scalar c"
      using a width by (intro utf8_char_4) simp_all
    then show ?thesis
      unfolding n using pre(1) pre(2) [OF second_ok_nonzero [OF a(2)]] pre(3) [OF is_cont_nonzero [OF a(3)]]
        pre(4) [OF is_cont_nonzero [OF a(4)]]
      by (metis append_Cons append_Nil)
  }
qed

lemma from_utf8_sound: "from_utf8 bs = Some s \<Longrightarrow> as_bytes s = bs \<and> valid_string s"
proof (induction bs arbitrary: s rule: from_utf8.induct)
  case (1 bs)
  show ?case
  proof (cases "bs = []")
    case False
    obtain c n where n: "utf8_next bs = (c, n)" by fastforce
    then obtain c' s' where c': "c = Some c'" "from_utf8 (drop n bs) = Some s'" "s = c' # s'"
      using "1.prems" False unfolding from_utf8.simps [of bs] by (auto split: option.splits)
    then have "as_bytes s' = drop n bs \<and> valid_string s'" using "1.IH" False n by fastforce
    then show ?thesis using utf8_next_sound [of bs c' n] n c' False by (simp add: as_bytes_def valid_string_def)
  qed (use "1.prems" in \<open>simp add: from_utf8.simps as_bytes_def valid_string_def\<close>)
qed

lemma utf8_char_no_nul: "is_scalar c \<Longrightarrow> c \<noteq> 0 \<Longrightarrow> 0 \<notin> set (utf8_char c)"
proof -
  assume s: "is_scalar c" "c \<noteq> 0"
  then have "c < 0x110000" by (simp add: is_scalar_def)
  then have "c div 262144 < 16" "c < 0x10000 \<Longrightarrow> c div 4096 < 16" "c < 0x800 \<Longrightarrow> c div 64 < 32" by auto
  then show "0 \<notin> set (utf8_char c)"
    using s by (auto simp: utf8_char_def byte_nonzero [symmetric] not_sym [OF byte_nonzero])
qed

lemma as_bytes_no_nul: "valid_string s \<Longrightarrow> 0 \<notin> set s \<Longrightarrow> 0 \<notin> set (as_bytes s)"
  using utf8_char_no_nul by (auto simp: as_bytes_def valid_string_def list_all_iff)

section \<open>Texts of the source\<close>

text \<open>A literal or formatted text, whose characters are below 256, as a string of scalars.\<close>

definition to_rust_string :: "string \<Rightarrow> rust_string" where
  "to_rust_string s = map of_char s"

lemma valid_to_rust_string: "valid_string (to_rust_string s)"
proof -
  have "is_scalar (of_char c)" for c :: char
    using nat_of_char_less_256 [of c] unfolding is_scalar_def by linarith
  then show ?thesis by (simp add: valid_string_def to_rust_string_def list_all_iff)
qed

end
