(* ===== verification/Messages.thy ===== *)
theory Messages
  imports Commands Rust_Text
begin

text \<open>
  The game message layer of \<^verbatim>\<open>src/crates/don-net/src/msg.rs\<close>: the type byte with its reply flag, the
  dispatcher's table of live ids, fixed-width text fields, and the decoder and encoder of every
  message.
\<close>

unbundle bit_operations_syntax

section \<open>Type byte\<close>

datatype net_msg_type =
    T_Generic | T_PlayerConnectionData | T_AllPlayerConnectionData | T_GameConnectionData
  | T_GameConnectionDataFull | T_Chat | T_Ping | T_CommandPackageData | T_Pause | T_Taunt
  | T_SyncSignal | T_DropStamp | T_TimeSync | T_DropVote | T_DropDecision | T_GameModSyncRequest
  | T_GameModSyncResponse | T_SyncFileBegin | T_SyncFileResponse | T_SyncFileData
  | T_SyncFileVerify | T_SyncFileEnd | T_SyncFileError | T_SyncDirError | T_SyncDirRequest
  | T_SyncDirInfo | T_GameSpyChallenge | T_PlayerStatusRequest | T_PlayerStatusResponse
  | T_DropFlag | T_Spline | T_GameConnectionScenario | T_GameConnectionModInfo

fun net_msg_code :: "net_msg_type \<Rightarrow> u8" where
  "net_msg_code T_Generic = 0"
| "net_msg_code T_PlayerConnectionData = 1"
| "net_msg_code T_AllPlayerConnectionData = 2"
| "net_msg_code T_GameConnectionData = 3"
| "net_msg_code T_GameConnectionDataFull = 4"
| "net_msg_code T_Chat = 5"
| "net_msg_code T_Ping = 6"
| "net_msg_code T_CommandPackageData = 7"
| "net_msg_code T_Pause = 8"
| "net_msg_code T_Taunt = 9"
| "net_msg_code T_SyncSignal = 10"
| "net_msg_code T_DropStamp = 11"
| "net_msg_code T_TimeSync = 12"
| "net_msg_code T_DropVote = 13"
| "net_msg_code T_DropDecision = 14"
| "net_msg_code T_GameModSyncRequest = 15"
| "net_msg_code T_GameModSyncResponse = 16"
| "net_msg_code T_SyncFileBegin = 17"
| "net_msg_code T_SyncFileResponse = 18"
| "net_msg_code T_SyncFileData = 19"
| "net_msg_code T_SyncFileVerify = 20"
| "net_msg_code T_SyncFileEnd = 21"
| "net_msg_code T_SyncFileError = 22"
| "net_msg_code T_SyncDirError = 23"
| "net_msg_code T_SyncDirRequest = 24"
| "net_msg_code T_SyncDirInfo = 25"
| "net_msg_code T_GameSpyChallenge = 26"
| "net_msg_code T_PlayerStatusRequest = 27"
| "net_msg_code T_PlayerStatusResponse = 28"
| "net_msg_code T_DropFlag = 29"
| "net_msg_code T_Spline = 30"
| "net_msg_code T_GameConnectionScenario = 31"
| "net_msg_code T_GameConnectionModInfo = 32"

definition RESPONSE_FLAG :: u8 where "RESPONSE_FLAG = 64"

definition IPT_BASE :: u8 where "IPT_BASE = 128"

record msg_type =
  mt_id :: u8
  mt_response :: bool

definition msg_type_from_wire :: "u8 \<Rightarrow> msg_type" where
  "msg_type_from_wire b = \<lparr>mt_id = b AND NOT RESPONSE_FLAG, mt_response = (b AND RESPONSE_FLAG \<noteq> 0)\<rparr>"

definition msg_type_to_wire :: "msg_type \<Rightarrow> u8" where
  "msg_type_to_wire t = mt_id t OR (if mt_response t then RESPONSE_FLAG else 0)"

definition is_internal :: "u8 \<Rightarrow> bool" where
  "is_internal b \<longleftrightarrow> IPT_BASE \<le> b"

section \<open>Dispatch\<close>

datatype dispatch_class = Handled | Ignored | Dead

definition DISPATCH_TARGET :: "u32 list" where
  "DISPATCH_TARGET =
  [0x00950fc8, 0x00951201, 0x00951201, 0x00951201, 0x00951201, 0x0095116a, 0x00951144, 0x009510e5,
   0x00951201, 0x00951271, 0x009511b8, 0x00951271, 0x009511d9, 0x0095111e, 0x00951131, 0x00950fdc,
   0x00950fef, 0x00951007, 0x0095101d, 0x00951033, 0x00951049, 0x0095105b, 0x0095106f, 0x009510ae,
   0x00951086, 0x0095109a, 0x009511a4, 0x00951201, 0x00951201, 0x009511ed, 0x0095117e]"

definition DEFAULT_ARM :: u32 where "DEFAULT_ARM = 0x00951201"
definition NOOP_ARM :: u32 where "NOOP_ARM = 0x00951271"

definition dispatch :: "u8 \<Rightarrow> dispatch_class" where
  "dispatch mid =
     (if length DISPATCH_TARGET \<le> unat mid then Dead
      else if DISPATCH_TARGET ! unat mid = DEFAULT_ARM then Dead
      else if DISPATCH_TARGET ! unat mid = NOOP_ARM then Ignored
      else Handled)"

definition MSG_SIZE :: "nat option list" where
  "MSG_SIZE =
  [Some 513, None, None, None, None, Some 514, Some 9, None, Some 10, Some 2, Some 5, Some 13,
   Some 9, Some 3, Some 2, Some 2, Some 2, Some 525, Some 2, Some 259, Some 1, Some 521, Some 1,
   Some 1, Some 5, Some 529, Some 69, Some 1, Some 65, Some 5, None]"

section \<open>Fixed-width text\<close>

fun read_wide :: "u8 list \<Rightarrow> nat \<Rightarrow> nat \<Rightarrow> rust_string" where
  "read_wide b off 0 = []"
| "read_wide b off (Suc units) =
     (if length b \<le> off + 1 then []
      else let c = u16le b off
           in if c = 0 then [] else char_or_replacement (unat c) # read_wide b (off + 2) units)"

definition write_wide :: "rust_string \<Rightarrow> nat \<Rightarrow> u8 list" where
  "write_wide s units =
     (let us = take (units - 1) (encode_utf16 s)
      in concat (map le16 us) @ concat (replicate (units - length us) [0, 0]))"

definition read_narrow :: "u8 list \<Rightarrow> nat \<Rightarrow> nat \<Rightarrow> rust_string" where
  "read_narrow b off len =
     (let stop = min (off + len) (length b);
          start = min off (length b);
          slice = bytes_at b start (stop - start)
      in from_utf8_lossy (takeWhile (\<lambda>c. c \<noteq> 0) slice))"

definition write_narrow :: "rust_string \<Rightarrow> nat \<Rightarrow> u8 list" where
  "write_narrow s len =
     (let b = as_bytes s; n = min (length b) (len - 1) in take n b @ replicate (len - n) 0)"

section \<open>Messages\<close>

datatype net_msg =
    Generic "u8 list"
  | Chat u8 rust_string
  | Ping i32 i32
  | CommandPackage u32 i8 "u8 list"
  | Pause i32 u32 u8
  | Taunt u8
  | SyncSignal i32
  | DropStamp i32 i32 i32
  | TimeSync u32 u32
  | DropVote u8 i8
  | DropDecision i8
  | DropFlag i32
  | GameModSyncRequest u8
  | GameModSyncResponse u8
  | PlayerStatusRequest
  | PlayerStatusResponse "u32 list" "u32 list"
  | Raw u8 "u8 list"

record framed =
  fr_ty :: msg_type
  fr_msg :: net_msg

datatype msg_error =
    MsgEmpty
  | MsgShort u8 nat nat
  | NegativeSize i16
  | IsInternal u8

fun net_msg_id :: "net_msg \<Rightarrow> u8" where
  "net_msg_id (Generic _) = net_msg_code T_Generic"
| "net_msg_id (Chat _ _) = net_msg_code T_Chat"
| "net_msg_id (Ping _ _) = net_msg_code T_Ping"
| "net_msg_id (CommandPackage _ _ _) = net_msg_code T_CommandPackageData"
| "net_msg_id (Pause _ _ _) = net_msg_code T_Pause"
| "net_msg_id (Taunt _) = net_msg_code T_Taunt"
| "net_msg_id (SyncSignal _) = net_msg_code T_SyncSignal"
| "net_msg_id (DropStamp _ _ _) = net_msg_code T_DropStamp"
| "net_msg_id (TimeSync _ _) = net_msg_code T_TimeSync"
| "net_msg_id (DropVote _ _) = net_msg_code T_DropVote"
| "net_msg_id (DropDecision _) = net_msg_code T_DropDecision"
| "net_msg_id (DropFlag _) = net_msg_code T_DropFlag"
| "net_msg_id (GameModSyncRequest _) = net_msg_code T_GameModSyncRequest"
| "net_msg_id (GameModSyncResponse _) = net_msg_code T_GameModSyncResponse"
| "net_msg_id PlayerStatusRequest = net_msg_code T_PlayerStatusRequest"
| "net_msg_id (PlayerStatusResponse _ _) = net_msg_code T_PlayerStatusResponse"
| "net_msg_id (Raw mid _) = mid"

text \<open>The guard \<^verbatim>\<open>need(n)?\<close>.\<close>

definition msg_need :: "u8 \<Rightarrow> u8 list \<Rightarrow> nat \<Rightarrow> (net_msg, msg_error) result \<Rightarrow> (net_msg, msg_error) result" where
  "msg_need mid buf n k = (if length buf < n then Inl (MsgShort mid n (length buf)) else k)"

definition net_msg_body :: "u8 \<Rightarrow> u8 list \<Rightarrow> (net_msg, msg_error) result" where
  "net_msg_body mid buf =
     (if mid = net_msg_code T_Generic then msg_need mid buf 513 (Inr (Generic (bytes_at buf 1 512)))
      else if mid = net_msg_code T_Chat then
        msg_need mid buf 514 (Inr (Chat (buf ! 1) (read_wide buf 2 256)))
      else if mid = net_msg_code T_Ping then
        msg_need mid buf 9 (Inr (Ping (u32le buf 1) (u32le buf 5)))
      else if mid = net_msg_code T_CommandPackageData then
        msg_need mid buf 8
          (let size = u16le buf 6 in
           if sint size < 0 then Inl (NegativeSize size)
           else let stop = 8 + nat (sint size) in
             msg_need mid buf stop
               (Inr (CommandPackage (u32le buf 1) (I8 (buf ! 5)) (bytes_at buf 8 (stop - 8)))))
      else if mid = net_msg_code T_Pause then
        msg_need mid buf 10 (Inr (Pause (u32le buf 1) (u32le buf 5) (buf ! 9)))
      else if mid = net_msg_code T_Taunt then msg_need mid buf 2 (Inr (Taunt (buf ! 1)))
      else if mid = net_msg_code T_SyncSignal then msg_need mid buf 5 (Inr (SyncSignal (u32le buf 1)))
      else if mid = net_msg_code T_DropStamp then
        msg_need mid buf 13 (Inr (DropStamp (u32le buf 1) (u32le buf 5) (u32le buf 9)))
      else if mid = net_msg_code T_TimeSync then
        msg_need mid buf 9 (Inr (TimeSync (u32le buf 1) (u32le buf 5)))
      else if mid = net_msg_code T_DropVote then
        msg_need mid buf 3 (Inr (DropVote (buf ! 1) (I8 (buf ! 2))))
      else if mid = net_msg_code T_DropDecision then
        msg_need mid buf 2 (Inr (DropDecision (I8 (buf ! 1))))
      else if mid = net_msg_code T_DropFlag then msg_need mid buf 5 (Inr (DropFlag (u32le buf 1)))
      else if mid = net_msg_code T_GameModSyncRequest then
        msg_need mid buf 2 (Inr (GameModSyncRequest (buf ! 1)))
      else if mid = net_msg_code T_GameModSyncResponse then
        msg_need mid buf 2 (Inr (GameModSyncResponse (buf ! 1)))
      else if mid = net_msg_code T_PlayerStatusRequest then Inr PlayerStatusRequest
      else if mid = net_msg_code T_PlayerStatusResponse then
        msg_need mid buf 65
          (Inr (PlayerStatusResponse (map (\<lambda>i. u32le buf (1 + i * 4)) [0..<8])
                  (map (\<lambda>i. u32le buf (33 + i * 4)) [0..<8])))
      else Inr (Raw mid (drop 1 buf)))"

definition net_msg_decode :: "u8 list \<Rightarrow> (framed, msg_error) result" where
  "net_msg_decode buf =
     (if buf = [] then Inl MsgEmpty
      else if is_internal (buf ! 0) then Inl (IsInternal (buf ! 0))
      else let ty = msg_type_from_wire (buf ! 0) in
        case net_msg_body (mt_id ty) buf of
          Inl e \<Rightarrow> Inl e
        | Inr m \<Rightarrow> Inr \<lparr>fr_ty = ty, fr_msg = m\<rparr>)"

fun net_msg_payload :: "net_msg \<Rightarrow> u8 list" where
  "net_msg_payload (Generic b) = b"
| "net_msg_payload (Chat o2a m) = o2a # write_wide m 256"
| "net_msg_payload (Ping x y) = le32 x @ le32 y"
| "net_msg_payload (CommandPackage stamp play payload) =
     le32 stamp @ [i8_bits play] @ le16 (of_nat (length payload)) @ payload"
| "net_msg_payload (Pause play time st) = le32 play @ le32 time @ [st]"
| "net_msg_payload (Taunt t) = [t]"
| "net_msg_payload (SyncSignal play) = le32 play"
| "net_msg_payload (DropStamp from stamp play) = le32 from @ le32 stamp @ le32 play"
| "net_msg_payload (TimeSync sent received) = le32 sent @ le32 received"
| "net_msg_payload (DropVote play vote) = [play, i8_bits vote]"
| "net_msg_payload (DropDecision vote) = [i8_bits vote]"
| "net_msg_payload (DropFlag p) = le32 p"
| "net_msg_payload (GameModSyncRequest d) = [d]"
| "net_msg_payload (GameModSyncResponse r) = [r]"
| "net_msg_payload PlayerStatusRequest = []"
| "net_msg_payload (PlayerStatusResponse ids ages) = concat (map le32 ids) @ concat (map le32 ages)"
| "net_msg_payload (Raw _ b) = b"

definition encode_framed :: "net_msg \<Rightarrow> bool \<Rightarrow> u8 list" where
  "encode_framed m response =
     msg_type_to_wire \<lparr>mt_id = net_msg_id m, mt_response = response\<rparr> # net_msg_payload m"

definition net_msg_encode :: "net_msg \<Rightarrow> u8 list" where
  "net_msg_encode m = encode_framed m False"

section \<open>Text fields\<close>

text \<open>
  A string survives a wide field if it fits with its terminator and has only characters of the basic
  plane, and a narrow field if its UTF-8 bytes fit with their terminator; neither may contain NUL.
\<close>

definition wide_ok :: "nat \<Rightarrow> rust_string \<Rightarrow> bool" where
  "wide_ok units s \<longleftrightarrow> length s < units \<and> list_all (\<lambda>c. is_scalar c \<and> c \<noteq> 0 \<and> c < 0x10000) s"

definition narrow_ok :: "nat \<Rightarrow> rust_string \<Rightarrow> bool" where
  "narrow_ok len s \<longleftrightarrow> valid_string s \<and> 0 \<notin> set s \<and> length (as_bytes s) < len"

lemma read_wide_units:
  "\<lbrakk>length us < units; 0 \<notin> set us; rest = 0 # 0 # r\<rbrakk> \<Longrightarrow>
   read_wide (pre @ concat (map le16 us) @ rest) (length pre) units = map (char_or_replacement \<circ> unat) us"
proof (induction us arbitrary: units pre)
  case Nil
  then obtain n where "units = Suc n" by (cases units) auto
  moreover have "u16le (pre @ 0 # 0 # r) (length pre) = 0"
    by (simp add: u16le_def bytes_at_def numeral_eq_Suc)
  ultimately show ?case using Nil by simp
next
  case (Cons u us)
  then obtain n where n: "units = Suc n" by (cases units) auto
  have "read_wide ((pre @ le16 u) @ concat (map le16 us) @ rest) (length (pre @ le16 u)) n =
      map (char_or_replacement \<circ> unat) us"
    using Cons.prems n by (intro Cons.IH) auto
  moreover have "u16le (pre @ le16 u @ concat (map le16 us) @ rest) (length pre) = u"
    by (simp add: u16le_def)
  ultimately show ?case using Cons.prems n by (simp add: Let_def)
qed

lemma length_write_wide [simp]: "length (write_wide s units) = 2 * units"
proof -
  have "length (concat (map le16 us)) = 2 * length us" for us by (induction us) auto
  moreover have "length (concat (replicate n [0, 0 :: u8])) = 2 * n" for n by (induction n) auto
  ultimately show ?thesis by (simp add: write_wide_def Let_def)
qed

lemma encode_utf16_basic:
  "list_all (\<lambda>c. is_scalar c \<and> c \<noteq> 0 \<and> c < 0x10000) s \<Longrightarrow> encode_utf16 s = map of_nat s"
  by (induction s) (auto simp: encode_utf16_def utf16_char_def)

lemma read_write_wide:
  assumes "wide_ok units s"
  shows "read_wide (pre @ write_wide s units @ post) (length pre) units = s"
proof -
  define us where "us = (map of_nat s :: u16 list)"
  have ok: "length us < units" "list_all (\<lambda>c. is_scalar c \<and> c \<noteq> 0 \<and> c < 0x10000) s"
    using assms by (auto simp: wide_ok_def us_def)
  have un: "unat (of_nat c :: u16) = c" if "c \<in> set s" for c
    using ok(2) that by (auto simp: list_all_iff unsigned_of_nat take_bit_nat_eq_self)
  then have "0 \<notin> set us"
    using ok(2) unfolding us_def list_all_iff by (metis (no_types, lifting) imageE list.set_map unat_0)
  moreover have "concat (replicate (units - length us) [0, 0 :: u8]) @ post =
      0 # 0 # concat (replicate (units - length us - 1) [0, 0]) @ post"
    using ok(1) by (cases "units - length us") auto
  ultimately have "read_wide (pre @ concat (map le16 us) @
      (concat (replicate (units - length us) [0, 0]) @ post)) (length pre) units =
      map (char_or_replacement \<circ> unat) us"
    using ok(1) by (intro read_wide_units) auto
  moreover have "map (char_or_replacement \<circ> unat) us = s"
    using ok(2) un unfolding us_def by (auto simp: list_all_iff char_or_replacement_def intro!: map_idI)
  ultimately show ?thesis
    using encode_utf16_basic [OF ok(2)] ok(1) by (simp add: write_wide_def Let_def flip: us_def)
qed

lemma length_write_narrow [simp]: "0 < len \<Longrightarrow> length (write_narrow s len) = len"
  by (simp add: write_narrow_def Let_def min_def)

lemma read_write_narrow:
  assumes "narrow_ok len s"
  shows "read_narrow (pre @ write_narrow s len @ post) (length pre) len = s"
proof -
  have "min (length (as_bytes s)) (len - 1) = length (as_bytes s)"
    using assms by (auto simp: narrow_ok_def)
  then have "write_narrow s len = as_bytes s @ replicate (len - length (as_bytes s)) 0"
    by (simp add: write_narrow_def Let_def)
  moreover have "takeWhile (\<lambda>c. c \<noteq> 0) (as_bytes s @ replicate (len - length (as_bytes s)) 0) = as_bytes s"
    using assms as_bytes_no_nul [of s]
    by (subst takeWhile_append2) (auto simp: narrow_ok_def)
  ultimately show ?thesis
    using assms from_utf8_lossy_as_bytes [of s]
    by (simp add: narrow_ok_def read_narrow_def Let_def bytes_at_def min_def)
qed

section \<open>Round trip\<close>

text \<open>The values that a message can carry across the wire.\<close>

fun net_msg_ok :: "net_msg \<Rightarrow> bool" where
  "net_msg_ok (Generic b) \<longleftrightarrow> length b = 512"
| "net_msg_ok (Chat _ m) \<longleftrightarrow> wide_ok 256 m"
| "net_msg_ok (CommandPackage _ _ payload) \<longleftrightarrow> length payload < 2 ^ 15"
| "net_msg_ok (PlayerStatusResponse ids ages) \<longleftrightarrow> length ids = 8 \<and> length ages = 8"
| "net_msg_ok (Raw i _) \<longleftrightarrow>
     i < 128 \<and> i AND RESPONSE_FLAG = 0 \<and> i \<notin> {0, 5, 6, 7, 8, 9, 10, 11, 12, 13, 14, 15, 16, 27, 28, 29}"
| "net_msg_ok _ \<longleftrightarrow> True"

lemma bit_RESPONSE_FLAG: "bit RESPONSE_FLAG n \<longleftrightarrow> n = 6"
proof -
  have eq: "RESPONSE_FLAG = 2 ^ 6" by (simp add: RESPONSE_FLAG_def)
  show ?thesis by (simp only: eq bit_exp_iff possible_bit_word) auto
qed

lemma is_internal_bit: "is_internal b \<longleftrightarrow> bit b 7"
proof -
  have "bit b 7 \<longleftrightarrow> bit (unat b) 7" by (simp add: bit_unsigned_iff)
  also have "\<dots> \<longleftrightarrow> odd (unat b div 128)" by (simp add: bit_iff_odd)
  also have "\<dots> \<longleftrightarrow> 128 \<le> unat b"
  proof (cases "unat b < 128")
    case False
    then have "unat b div 128 = 1" using unsigned_less [of b, where ?'a = nat] by (intro div_nat_eqI) simp_all
    then show ?thesis using False by simp
  qed simp
  finally show ?thesis by (simp add: is_internal_def IPT_BASE_def word_le_nat_alt)
qed

lemma from_wire_to_wire:
  assumes "i AND RESPONSE_FLAG = 0"
  shows "msg_type_from_wire (msg_type_to_wire \<lparr>mt_id = i, mt_response = r\<rparr>) = \<lparr>mt_id = i, mt_response = r\<rparr>"
proof -
  have n6: "\<not> bit i 6"
    using assms by (metis bit_0_eq bit_RESPONSE_FLAG bit_and_iff bot_apply bot_bool_def)
  then have "(i OR (if r then RESPONSE_FLAG else 0)) AND NOT RESPONSE_FLAG = i"
    by (intro bit_word_eqI) (auto simp: bit_simps bit_RESPONSE_FLAG)
  moreover have "(i OR RESPONSE_FLAG) AND RESPONSE_FLAG \<noteq> 0"
    by (metis bit_0_eq bit_RESPONSE_FLAG bit_and_iff bit_or_iff bot_apply bot_bool_def)
  ultimately show ?thesis
    using assms by (auto simp: msg_type_from_wire_def msg_type_to_wire_def)
qed

lemma to_wire_not_internal:
  assumes "i < 128"
  shows "\<not> is_internal (msg_type_to_wire \<lparr>mt_id = i, mt_response = r\<rparr>)"
proof -
  have "\<not> bit i 7" using assms is_internal_bit [of i] by (auto simp: is_internal_def IPT_BASE_def)
  then show ?thesis by (auto simp: is_internal_bit msg_type_to_wire_def bit_simps bit_RESPONSE_FLAG)
qed

lemma net_msg_id_ok: "net_msg_ok m \<Longrightarrow> net_msg_id m < 128 \<and> net_msg_id m AND RESPONSE_FLAG = 0"
  by (cases m) (simp_all add: RESPONSE_FLAG_def)

lemma u32le_words:
  "i < length ws \<Longrightarrow> u32le (x # concat (map le32 ws) @ r) (Suc (i * 4)) = ws ! i"
  using bytes_at_concat_le32 [of i ws]
  by (simp add: u32le_def bytes_at_append_le mult.commute)

lemma words_map: "length ws = 8 \<Longrightarrow> map (\<lambda>i. u32le (x # concat (map le32 ws) @ r) (Suc (i * 4))) [0..<8] = ws"
  by (intro nth_equalityI) (auto simp: u32le_words)

lemma net_msg_body_encode:
  assumes "net_msg_ok m"
  shows "net_msg_body (net_msg_id m) (x # net_msg_payload m) = Inr m"
proof (cases m)
  case (Chat o2a s)
  then show ?thesis
    using assms read_write_wide [of 256 s "[x, o2a]" "[]"]
    by (simp add: net_msg_body_def msg_need_def flip: numeral_2_eq_2)
next
  case (PlayerStatusResponse ids ages)
  then have len: "length ids = 8" "length ages = 8" using assms by auto
  have "u32le (x # concat (map le32 ids) @ concat (map le32 ages)) (33 + i * 4) = ages ! i" if "i < 8" for i
  proof -
    have "33 + i * 4 = Suc (32 + 4 * i)" by simp
    then show ?thesis using that len by (simp only: u32le_def bytes_at_Cons_Suc) (simp add: bytes_at_concat_le32)
  qed
  then have "map (\<lambda>i. u32le (x # concat (map le32 ids) @ concat (map le32 ages)) (33 + i * 4)) [0..<8] = ages"
    using len by (intro nth_equalityI) auto
  then show ?thesis
    using PlayerStatusResponse assms words_map [of ids x "concat (map le32 ages)"]
    by (simp add: net_msg_body_def msg_need_def)
next
  case (CommandPackage stamp play payload)
  then show ?thesis
    using assms sint_of_nat_small [of "length payload"]
    by (simp add: net_msg_body_def msg_need_def u32le_def u16le_def Let_def nth_append)
qed (use assms in \<open>simp_all add: net_msg_body_def msg_need_def u32le_def nth_append\<close>)

lemma net_msg_decode_encode:
  assumes "net_msg_ok m"
  shows "net_msg_decode (encode_framed m response) =
    Inr \<lparr>fr_ty = \<lparr>mt_id = net_msg_id m, mt_response = response\<rparr>, fr_msg = m\<rparr>"
  using net_msg_id_ok [OF assms] net_msg_body_encode [OF assms]
  by (simp add: net_msg_decode_def encode_framed_def to_wire_not_internal from_wire_to_wire)

interpretation game_msg: codec
  "\<lambda>f. encode_framed (fr_msg f) (mt_response (fr_ty f))" net_msg_decode
  "\<lambda>f. net_msg_ok (fr_msg f) \<and> mt_id (fr_ty f) = net_msg_id (fr_msg f)"
  by standard (simp add: net_msg_decode_encode)

section \<open>Properties\<close>

text \<open>
  C36: Every game message whose fields fit the wire, sent with or without the reply flag, is decoded to
  the same message, the same id and the same reply marker.
\<close>

theorem net_msg_roundtrip:
  assumes "net_msg_ok m"
  shows "net_msg_decode (encode_framed m response) =
    Inr \<lparr>fr_ty = \<lparr>mt_id = net_msg_id m, mt_response = response\<rparr>, fr_msg = m\<rparr>"
  using assms by (rule net_msg_decode_encode)

theorem net_msg_roundtrip_witness:
  "net_msg_decode (encode_framed (Chat 1 [72, 105, 0x20AC]) True) =
    Inr \<lparr>fr_ty = \<lparr>mt_id = 5, mt_response = True\<rparr>, fr_msg = Chat 1 [72, 105, 0x20AC]\<rparr>"
  using net_msg_roundtrip [of "Chat 1 [72, 105, 0x20AC]" True]
  by (simp add: wide_ok_def is_scalar_def)

text \<open>
  An encoded message of a fixed-size id has exactly the size the table \<^const>\<open>MSG_SIZE\<close> gives for
  that id; a message of an id without an entry is a command package or one kept raw.
\<close>

lemma msg_size_table:
  assumes "net_msg_ok m" and "\<forall>i b. m \<noteq> Raw i b"
  shows "unat (net_msg_id m) < length MSG_SIZE \<and>
    (case MSG_SIZE ! unat (net_msg_id m) of
       Some n \<Rightarrow> length (encode_framed m response) = n
     | None \<Rightarrow> \<exists>stamp play payload. m = CommandPackage stamp play payload)"
  using assms by (cases m) (simp_all add: MSG_SIZE_def encode_framed_def)

lemma msg_size_table_witness:
  "length (encode_framed (DropStamp 1 2 3) False) = 13"
  using msg_size_table [of "DropStamp 1 2 3" False] by (simp add: MSG_SIZE_def)

text \<open>
  The dispatcher treats as dead exactly the ids 1, 2, 3, 4, 8, 27, 28 and everything above 30,
  and ignores exactly 9 and 11.
\<close>

lemma dispatch_classes:
  "(dispatch i = Dead \<longleftrightarrow> i \<in> {1, 2, 3, 4, 8, 27, 28} \<or> 30 < i) \<and> (dispatch i = Ignored \<longleftrightarrow> i \<in> {9, 11})"
proof (cases "unat i < 31")
  case True
  have "list_all (\<lambda>i. (dispatch i = Dead \<longleftrightarrow> i \<in> {1, 2, 3, 4, 8, 27, 28} \<or> 30 < i) \<and>
      (dispatch i = Ignored \<longleftrightarrow> i \<in> {9, 11})) (map of_nat [0..<31])"
    by code_simp
  moreover have "i \<in> set (map of_nat [0..<31])" using True by (auto intro: image_eqI [of _ _ "unat i"])
  ultimately show ?thesis by (auto simp: list_all_iff)
next
  case False
  then show ?thesis by (auto simp: dispatch_def DISPATCH_TARGET_def word_less_nat_alt)
qed


end
