(* ===== verification/Internal_Packets.thy ===== *)
theory Internal_Packets
  imports Messages
begin

text \<open>
  The control plane of the network library, \<^verbatim>\<open>src/crates/don-net/src/internal.rs\<close>: nine packet types
  with ids from \<^const>\<open>IPT_BASE\<close> on, each of one exact size.
\<close>

section \<open>Packets\<close>

definition IPT_PLAYERLIST :: u8 where "IPT_PLAYERLIST = 128"
definition IPT_DROPREQUEST :: u8 where "IPT_DROPREQUEST = 129"
definition IPT_CANCELDROPREQUEST :: u8 where "IPT_CANCELDROPREQUEST = 130"
definition IPT_PULSEPACKET :: u8 where "IPT_PULSEPACKET = 131"
definition IPT_ADDPLAYER :: u8 where "IPT_ADDPLAYER = 132"
definition IPT_DESTROYPLAYER :: u8 where "IPT_DESTROYPLAYER = 133"
definition IPT_MIGRATEHOST :: u8 where "IPT_MIGRATEHOST = 134"
definition IPT_DSYNCMSG :: u8 where "IPT_DSYNCMSG = 135"
definition IPT_READYFLAG :: u8 where "IPT_READYFLAG = 136"

lemmas IPT_defs = IPT_PLAYERLIST_def IPT_DROPREQUEST_def IPT_CANCELDROPREQUEST_def IPT_PULSEPACKET_def
  IPT_ADDPLAYER_def IPT_DESTROYPLAYER_def IPT_MIGRATEHOST_def IPT_DSYNCMSG_def IPT_READYFLAG_def IPT_BASE_def

definition IPT_SIZE :: "nat list" where
  "IPT_SIZE = [34, 5, 5, 1, 70, 5, 5, 5, 2]"

definition ADD_PLAYER_NAME_LEN :: nat where "ADD_PLAYER_NAME_LEN = 64"
definition MAX_PLAYERS :: nat where "MAX_PLAYERS = 8"

datatype internal_packet =
    PlayerList u8 "i32 list"
  | DropRequest i32
  | CancelDropRequest i32
  | Pulse
  | AddPlayer rust_string i32 bool
  | DestroyPlayer i32
  | MigrateHost i32
  | Dsync i32
  | ReadyFlag bool

datatype internal_error =
    NotInternal u8
  | UnknownType u8
  | InternalShort u8 nat nat
  | InternalTrailing u8 nat nat
  | BadPlayerCount u8
  | ZeroPlayerId nat
  | DuplicatePlayerId i32
  | InvalidPlayerId i32
  | InvalidBool u8 u8

fun internal_packet_id :: "internal_packet \<Rightarrow> u8" where
  "internal_packet_id (PlayerList _ _) = IPT_PLAYERLIST"
| "internal_packet_id (DropRequest _) = IPT_DROPREQUEST"
| "internal_packet_id (CancelDropRequest _) = IPT_CANCELDROPREQUEST"
| "internal_packet_id Pulse = IPT_PULSEPACKET"
| "internal_packet_id (AddPlayer _ _ _) = IPT_ADDPLAYER"
| "internal_packet_id (DestroyPlayer _) = IPT_DESTROYPLAYER"
| "internal_packet_id (MigrateHost _) = IPT_MIGRATEHOST"
| "internal_packet_id (Dsync _) = IPT_DSYNCMSG"
| "internal_packet_id (ReadyFlag _) = IPT_READYFLAG"

definition internal_wire_len :: "internal_packet \<Rightarrow> nat" where
  "internal_wire_len p = IPT_SIZE ! unat (internal_packet_id p - IPT_BASE)"

text \<open>The loop that refuses a zero or repeated id among the first \<open>num\<close> slots.\<close>

fun check_player_ids :: "i32 list \<Rightarrow> nat \<Rightarrow> nat list \<Rightarrow> (unit, internal_error) result" where
  "check_player_ids ids num [] = Inr ()"
| "check_player_ids ids num (slot # slots) =
     (if slot < num then
        (if ids ! slot = 0 then Inl (ZeroPlayerId slot)
         else if ids ! slot \<in> set (take slot ids) then Inl (DuplicatePlayerId (ids ! slot))
         else check_player_ids ids num slots)
      else check_player_ids ids num slots)"

definition decode_player_list :: "u8 list \<Rightarrow> (internal_packet, internal_error) result" where
  "decode_player_list buf =
     (let num = unat (buf ! 1) in
      if MAX_PLAYERS < num then Inl (BadPlayerCount (buf ! 1))
      else let ids = map (\<lambda>i. u32le buf (2 + i * 4)) [0..<MAX_PLAYERS] in
        case check_player_ids ids num [0..<MAX_PLAYERS] of
          Inl e \<Rightarrow> Inl e
        | Inr _ \<Rightarrow> Inr (PlayerList (buf ! 1) ids))"

definition internal_packet_decode :: "u8 list \<Rightarrow> (internal_packet, internal_error) result" where
  "internal_packet_decode buf =
     (if buf = [] then Inl (NotInternal 0)
      else let i = buf ! 0 in
      if i < IPT_BASE then Inl (NotInternal i)
      else let idx = unat (i - IPT_BASE) in
      if length IPT_SIZE \<le> idx then Inl (UnknownType i)
      else let n = IPT_SIZE ! idx in
      if length buf < n then Inl (InternalShort i n (length buf))
      else if n < length buf then Inl (InternalTrailing i n (length buf))
      else if i = IPT_PLAYERLIST then decode_player_list buf
      else if i = IPT_DROPREQUEST then Inr (DropRequest (u32le buf 1))
      else if i = IPT_CANCELDROPREQUEST then Inr (CancelDropRequest (u32le buf 1))
      else if i = IPT_PULSEPACKET then Inr Pulse
      else if i = IPT_ADDPLAYER then
        (let unique_id = u32le buf 65 in
         if unique_id = 0 then Inl (InvalidPlayerId unique_id)
         else if 1 < buf ! 69 then Inl (InvalidBool i (buf ! 69))
         else Inr (AddPlayer (read_narrow buf 1 ADD_PLAYER_NAME_LEN) unique_id (buf ! 69 \<noteq> 0)))
      else if i = IPT_DESTROYPLAYER then
        (let unique_id = u32le buf 1 in
         if unique_id = 0 then Inl (InvalidPlayerId unique_id) else Inr (DestroyPlayer unique_id))
      else if i = IPT_MIGRATEHOST then Inr (MigrateHost (u32le buf 1))
      else if i = IPT_DSYNCMSG then Inr (Dsync (u32le buf 1))
      else if i = IPT_READYFLAG then
        (if 1 < buf ! 1 then Inl (InvalidBool i (buf ! 1)) else Inr (ReadyFlag (buf ! 1 \<noteq> 0)))
      else Inl (UnknownType i))"

fun internal_packet_body :: "internal_packet \<Rightarrow> u8 list" where
  "internal_packet_body (PlayerList n ids) = n # concat (map le32 ids)"
| "internal_packet_body (DropRequest u) = le32 u"
| "internal_packet_body (CancelDropRequest u) = le32 u"
| "internal_packet_body (DestroyPlayer u) = le32 u"
| "internal_packet_body Pulse = []"
| "internal_packet_body (AddPlayer name u h) =
     write_narrow name ADD_PLAYER_NAME_LEN @ le32 u @ [of_bool h]"
| "internal_packet_body (MigrateHost h) = le32 h"
| "internal_packet_body (Dsync f) = le32 f"
| "internal_packet_body (ReadyFlag r) = [of_bool r]"

definition internal_packet_encode :: "internal_packet \<Rightarrow> u8 list" where
  "internal_packet_encode p = internal_packet_id p # internal_packet_body p"

section \<open>Session record header\<close>

record generic_session_data =
  gsd_ty :: u8
  gsd_validity_number :: u8

definition generic_session_data_decode :: "u8 list \<Rightarrow> generic_session_data option" where
  "generic_session_data_decode b =
     (if 2 \<le> length b then Some \<lparr>gsd_ty = b ! 0, gsd_validity_number = b ! 1\<rparr> else None)"

definition generic_session_data_encode :: "generic_session_data \<Rightarrow> u8 list" where
  "generic_session_data_encode d = [gsd_ty d, gsd_validity_number d]"

section \<open>Lemmas\<close>

fun internal_packet_ok :: "internal_packet \<Rightarrow> bool" where
  "internal_packet_ok (PlayerList n ids) \<longleftrightarrow>
     length ids = MAX_PLAYERS \<and> unat n \<le> MAX_PLAYERS \<and> 0 \<notin> set (take (unat n) ids) \<and>
     distinct (take (unat n) ids)"
| "internal_packet_ok (AddPlayer name u _) \<longleftrightarrow> narrow_ok ADD_PLAYER_NAME_LEN name \<and> u \<noteq> 0"
| "internal_packet_ok (DestroyPlayer u) \<longleftrightarrow> u \<noteq> 0"
| "internal_packet_ok _ \<longleftrightarrow> True"

lemma check_player_ids_iff:
  "check_player_ids ids n slots = Inr () \<longleftrightarrow>
     (\<forall>s\<in>set slots. s < n \<longrightarrow> ids ! s \<noteq> 0 \<and> ids ! s \<notin> set (take s ids))"
  by (induction slots) auto

lemma distinct_take_iff:
  "n \<le> length xs \<Longrightarrow> distinct (take n xs) \<longleftrightarrow> (\<forall>s<n. xs ! s \<notin> set (take s xs))"
proof (induction n)
  case (Suc n)
  then show ?case by (auto simp: take_Suc_conv_app_nth less_Suc_eq)
qed simp

lemma check_player_ids_distinct:
  assumes "length ids = MAX_PLAYERS" "n \<le> MAX_PLAYERS"
  shows "check_player_ids ids n [0..<MAX_PLAYERS] = Inr () \<longleftrightarrow>
    0 \<notin> set (take n ids) \<and> distinct (take n ids)"
proof -
  have "0 \<notin> set (take n ids) \<longleftrightarrow> (\<forall>s<n. ids ! s \<noteq> 0)"
    using assms by (auto simp: in_set_conv_nth)
  then show ?thesis
    using assms by (auto simp: check_player_ids_iff distinct_take_iff)
qed

lemma length_internal_packet_encode:
  "internal_packet_ok p \<Longrightarrow> length (internal_packet_encode p) = internal_wire_len p"
  by (cases p) (auto simp: internal_packet_encode_def internal_wire_len_def IPT_SIZE_def IPT_defs
      MAX_PLAYERS_def ADD_PLAYER_NAME_LEN_def)

lemma decode_player_list_encode:
  assumes "internal_packet_ok (PlayerList n ids)"
  shows "decode_player_list (x # n # concat (map le32 ids)) = Inr (PlayerList n ids)"
proof -
  have ids: "map (\<lambda>i. u32le (x # n # concat (map le32 ids)) (2 + i * 4)) [0..<MAX_PLAYERS] = ids"
    using assms bytes_at_concat_le32
    by (intro nth_equalityI) (auto simp: u32le_def mult.commute)
  show ?thesis
    using assms check_player_ids_distinct [of ids "unat n"] unfolding decode_player_list_def ids
    by (auto simp: ids split: sum.splits)
qed

lemma internal_packet_decode_encode:
  assumes "internal_packet_ok p"
  shows "internal_packet_decode (internal_packet_encode p) = Inr p"
proof (cases p)
  case (PlayerList n ids)
  then show ?thesis
    using assms decode_player_list_encode [of n ids]
    by (simp add: internal_packet_decode_def internal_packet_encode_def IPT_defs IPT_SIZE_def MAX_PLAYERS_def)
next
  case (AddPlayer name u h)
  then have "read_narrow (132 # write_narrow name 64 @ le32 u @ [of_bool h]) 1 64 = name"
    using assms read_write_narrow [of 64 name "[132]"] by (simp add: ADD_PLAYER_NAME_LEN_def)
  then show ?thesis
    using AddPlayer assms
    by (simp add: internal_packet_decode_def internal_packet_encode_def IPT_defs IPT_SIZE_def
        ADD_PLAYER_NAME_LEN_def Let_def u32le_def nth_append)
qed (use assms in \<open>simp_all add: internal_packet_decode_def internal_packet_encode_def IPT_defs IPT_SIZE_def
        Let_def u32le_def\<close>)

interpretation internal: codec internal_packet_encode internal_packet_decode internal_packet_ok
  by standard (rule internal_packet_decode_encode)

lemma Cons_of_parts: "b \<noteq> [] \<Longrightarrow> b ! 0 # bytes_at b 1 (length b - 1) = b"
  by (cases b) (simp_all add: bytes_at_def)

lemma encode_decode_player_list:
  assumes "decode_player_list buf = Inr p" "length buf = 34" "buf ! 0 = IPT_PLAYERLIST"
  shows "internal_packet_ok p \<and> internal_packet_encode p = buf"
proof -
  let ?ids = "map (\<lambda>i. u32le buf (2 + i * 4)) [0..<MAX_PLAYERS]"
  have p: "p = PlayerList (buf ! 1) ?ids" "unat (buf ! 1) \<le> MAX_PLAYERS"
      "check_player_ids ?ids (unat (buf ! 1)) [0..<MAX_PLAYERS] = Inr ()"
    using assms(1) by (auto simp: decode_player_list_def Let_def split: if_splits sum.splits)
  have "concat (map le32 ?ids) = bytes_at buf 2 32"
    using concat_le32_words [of 2 8 buf] assms(2) by (simp add: MAX_PLAYERS_def comp_def)
  moreover have "buf ! 0 # buf ! 1 # bytes_at buf 2 32 = buf"
    using assms(2) by (cases buf; cases "tl buf") (auto simp: bytes_at_def)
  ultimately have "internal_packet_encode p = buf"
    using p(1) assms(3) by (simp add: internal_packet_encode_def)
  moreover have "internal_packet_ok p"
    using p check_player_ids_distinct [of ?ids] by simp
  ultimately show ?thesis by simp
qed

lemma u8_cases_01: "\<not> (1 :: u8) < v \<Longrightarrow> of_bool (v \<noteq> 0) = v"
proof -
  assume "\<not> 1 < v"
  then have "unat v = 0 \<or> unat v = 1" by (auto simp: word_less_nat_alt)
  then have "v = 0 \<or> v = 1" by (simp add: word_unat_eq_iff)
  then show ?thesis by auto
qed

lemma internal_packet_canonical:
  assumes "internal_packet_decode b = Inr p" "\<forall>name u h. p \<noteq> AddPlayer name u h"
  shows "internal_packet_ok p \<and> internal_packet_encode p = b"
proof -
  have b: "b \<noteq> []" "length b = IPT_SIZE ! unat (b ! 0 - IPT_BASE)"
    using assms(1) by (auto simp: internal_packet_decode_def Let_def split: if_splits)
  have five: "b ! 0 # le32 (u32le b 1) = b" if "length b = 5"
    using Cons_of_parts [OF b(1)] that by (simp add: le32_u32le)
  have two: "b = [b ! 0, b ! 1]" if "length b = 2"
    using that by (cases b; cases "tl b") auto
  consider "b ! 0 = IPT_PLAYERLIST" | "b ! 0 \<in> {IPT_DROPREQUEST, IPT_CANCELDROPREQUEST, IPT_DESTROYPLAYER,
      IPT_MIGRATEHOST, IPT_DSYNCMSG}" | "b ! 0 = IPT_PULSEPACKET" | "b ! 0 = IPT_READYFLAG"
    using assms by (auto simp: internal_packet_decode_def Let_def split: if_splits)
  then show ?thesis
  proof cases
    case 1
    then have "length b = 34" using b by (simp add: IPT_SIZE_def IPT_defs)
    moreover from this 1 have "decode_player_list b = Inr p"
      using assms(1) b(1) by (simp add: internal_packet_decode_def IPT_SIZE_def IPT_defs)
    ultimately show ?thesis using 1 encode_decode_player_list by blast
  next
    case 2
    then have len: "length b = 5" using b by (auto simp: IPT_SIZE_def IPT_defs)
    then show ?thesis
      using 2 assms(1) five [OF len]
      by (auto simp: internal_packet_decode_def internal_packet_encode_def IPT_SIZE_def IPT_defs Let_def
          split: if_splits)
  next
    case 3
    then show ?thesis
      using assms(1) b Cons_of_parts [OF b(1)]
      by (simp add: internal_packet_decode_def internal_packet_encode_def IPT_SIZE_def IPT_defs bytes_at_def)
  next
    case 4
    then show ?thesis
      using assms(1) b two u8_cases_01 [of "b ! 1"]
      by (auto simp: internal_packet_decode_def internal_packet_encode_def IPT_SIZE_def IPT_defs split: if_splits)
  qed
qed

section \<open>Properties\<close>

text \<open>
  A control packet with valid fields (an id other than zero, at most eight players without
  repetition, a name that fits its 64 bytes) is encoded in exactly the size of its type and decoded
  to itself.
\<close>

lemma internal_packet_roundtrip:
  assumes "internal_packet_ok p"
  shows "internal_packet_decode (internal_packet_encode p) = Inr p \<and>
    length (internal_packet_encode p) = internal_wire_len p"
  using assms by (simp add: internal_packet_decode_encode length_internal_packet_encode)

lemma internal_packet_roundtrip_witness:
  "internal_packet_decode (internal_packet_encode (PlayerList 2 [7, 9, 0, 0, 0, 0, 0, 0])) =
   Inr (PlayerList 2 [7, 9, 0, 0, 0, 0, 0, 0])"
  using internal_packet_roundtrip [of "PlayerList 2 [7, 9, 0, 0, 0, 0, 0, 0]"]
  by (simp add: MAX_PLAYERS_def)

text \<open>
  Apart from the join announcement, whose name field may hold anything after its terminator, the
  decoder accepts nothing but encodings of valid packets: exact size, boolean bytes 0 or 1, no zero and
  no repeated id among the listed players.
\<close>

lemma internal_packet_exact:
  assumes "internal_packet_decode b = Inr p" "\<forall>name u h. p \<noteq> AddPlayer name u h"
  shows "internal_packet_ok p \<and> b = internal_packet_encode p"
  using internal_packet_canonical [OF assms] by simp

lemma internal_packet_exact_witness:
  "[136, 1] = internal_packet_encode (ReadyFlag True)"
proof -
  have "internal_packet_decode [136, 1] = Inr (ReadyFlag True)"
    by (simp add: internal_packet_decode_def IPT_SIZE_def IPT_defs)
  then show ?thesis using internal_packet_exact [of "[136, 1]" "ReadyFlag True"] by simp
qed

end
