(* ===== verification/Extension.thy ===== *)
theory Extension
  imports Retail Internal_Packets
begin

text \<open>
  The project's own packets, \<^verbatim>\<open>src/crates/don-net/src/extension.rs\<close>: the game key announcement and the
  match start, above the control plane's id range, and the relation between game keys that drive the
  same package transform.
\<close>

unbundle bit_operations_syntax

definition DON_EXT_BASE :: u8 where "DON_EXT_BASE = 0xF0"
definition DON_EXT_GAMEKEY :: u8 where "DON_EXT_GAMEKEY = 0xF0"
definition DON_EXT_MATCH_START :: u8 where "DON_EXT_MATCH_START = 0xF1"
definition DON_EXT_GAMEKEY_LEN :: nat where "DON_EXT_GAMEKEY_LEN = 6"
definition DON_EXT_MATCH_START_LEN :: nat where "DON_EXT_MATCH_START_LEN = 9"

lemmas DON_EXT_defs = DON_EXT_BASE_def DON_EXT_GAMEKEY_def DON_EXT_MATCH_START_def
  DON_EXT_GAMEKEY_LEN_def DON_EXT_MATCH_START_LEN_def

datatype game_key_source = RetailGameInfoSeed | Configured

definition source_from_wire :: "u8 \<Rightarrow> game_key_source option" where
  "source_from_wire v = (if v = 1 then Some RetailGameInfoSeed else if v = 2 then Some Configured else None)"

fun source_to_wire :: "game_key_source \<Rightarrow> u8" where
  "source_to_wire RetailGameInfoSeed = 1"
| "source_to_wire Configured = 2"

fun source_as_str :: "game_key_source \<Rightarrow> string" where
  "source_as_str RetailGameInfoSeed = ''retail-gameinfo-seed''"
| "source_as_str Configured = ''configured''"

datatype don_extension =
    GameKey u32 game_key_source
  | MatchStart u32 u32

datatype extension_error =
    NotExtension u8
  | ExtUnknownType u8
  | ExtShort u8 nat nat
  | ExtTrailing u8 nat nat
  | UnknownGameKeySource u8

definition is_extension :: "u8 \<Rightarrow> bool" where
  "is_extension first_byte \<longleftrightarrow> DON_EXT_BASE \<le> first_byte"

fun extension_id :: "don_extension \<Rightarrow> u8" where
  "extension_id (GameKey _ _) = DON_EXT_GAMEKEY"
| "extension_id (MatchStart _ _) = DON_EXT_MATCH_START"

fun extension_wire_len :: "don_extension \<Rightarrow> nat" where
  "extension_wire_len (GameKey _ _) = DON_EXT_GAMEKEY_LEN"
| "extension_wire_len (MatchStart _ _) = DON_EXT_MATCH_START_LEN"

text \<open>The exact length of a known id.\<close>

definition extension_len :: "u8 \<Rightarrow> nat option" where
  "extension_len i =
     (if i = DON_EXT_GAMEKEY then Some DON_EXT_GAMEKEY_LEN
      else if i = DON_EXT_MATCH_START then Some DON_EXT_MATCH_START_LEN else None)"

definition extension_decode :: "u8 list \<Rightarrow> (don_extension, extension_error) result" where
  "extension_decode buf =
     (if buf = [] then Inl (NotExtension 0)
      else let i = buf ! 0 in
      if \<not> is_extension i then Inl (NotExtension i)
      else case extension_len i of
        None \<Rightarrow> Inl (ExtUnknownType i)
      | Some n \<Rightarrow>
          if length buf < n then Inl (ExtShort i n (length buf))
          else if n < length buf then Inl (ExtTrailing i n (length buf))
          else if i = DON_EXT_GAMEKEY then
            (case source_from_wire (buf ! 5) of
               None \<Rightarrow> Inl (UnknownGameKeySource (buf ! 5))
             | Some src \<Rightarrow> Inr (GameKey (u32le buf 1) src))
          else if i = DON_EXT_MATCH_START then Inr (MatchStart (u32le buf 1) (u32le buf 5))
          else Inl (ExtUnknownType i))"

fun extension_body :: "don_extension \<Rightarrow> u8 list" where
  "extension_body (GameKey s src) = le32 s @ [source_to_wire src]"
| "extension_body (MatchStart epoch s) = le32 epoch @ le32 s"

definition extension_encode :: "don_extension \<Rightarrow> u8 list" where
  "extension_encode e = extension_id e # extension_body e"

definition GAME_KEY_WIRE_MASK :: u32 where "GAME_KEY_WIRE_MASK = 0x00FFFFFF"

definition game_keys_are_wire_equivalent :: "u32 \<Rightarrow> u32 \<Rightarrow> bool" where
  "game_keys_are_wire_equivalent a b \<longleftrightarrow> a AND GAME_KEY_WIRE_MASK = b AND GAME_KEY_WIRE_MASK"

section \<open>The codec\<close>

lemma source_wire [simp]: "source_from_wire (source_to_wire src) = Some src"
  by (cases src) (simp_all add: source_from_wire_def)

lemma source_from_wire_SomeD: "source_from_wire v = Some src \<Longrightarrow> source_to_wire src = v"
  by (auto simp: source_from_wire_def split: if_splits)

lemma extension_encode_decode:
  assumes "extension_decode b = Inr e"
  shows "extension_encode e = b"
proof -
  have b: "b \<noteq> []" "b ! 0 = DON_EXT_GAMEKEY \<and> length b = 6 \<or> b ! 0 = DON_EXT_MATCH_START \<and> length b = 9"
    using assms by (auto simp: extension_decode_def extension_len_def DON_EXT_defs Let_def
        split: if_splits option.splits)
  have parts: "b = b ! 0 # bytes_at b 1 (length b - 1)"
    using Cons_of_parts [OF b(1)] by simp
  consider "b ! 0 = DON_EXT_GAMEKEY" "length b = 6" | "b ! 0 = DON_EXT_MATCH_START" "length b = 9"
    using b(2) by blast
  then show ?thesis
  proof cases
    case 1
    then obtain src where src: "source_from_wire (b ! 5) = Some src" "e = GameKey (u32le b 1) src"
      using assms b(1) by (auto simp: extension_decode_def extension_len_def is_extension_def DON_EXT_defs
          split: option.splits)
    have "bytes_at b 1 5 = bytes_at b 1 4 @ [b ! 5]"
      using bytes_at_add [of b 1 4 1] bytes_at_1 [of 5 b] 1 by simp
    then show ?thesis
      using 1 src parts source_from_wire_SomeD [OF src(1)]
      by (simp add: extension_encode_def le32_u32le)
  next
    case 2
    then have "e = MatchStart (u32le b 1) (u32le b 5)"
      using assms b(1) by (simp add: extension_decode_def extension_len_def is_extension_def DON_EXT_defs)
    then show ?thesis
      using 2 parts bytes_at_add [of b 1 4 4] by (simp add: extension_encode_def le32_u32le)
  qed
qed

lemma extension_decode_encode: "extension_decode (extension_encode e) = Inr e"
  by (cases e) (simp_all add: extension_decode_def extension_encode_def extension_len_def is_extension_def
      DON_EXT_defs u32le_def nth_append)

interpretation extension: canonical_codec extension_encode extension_decode "\<lambda>_. True"
  by standard (simp_all add: extension_decode_encode extension_encode_decode)

section \<open>Wire-equivalent keys\<close>

lemma same_pads_encode: "same_pads a b \<Longrightarrow> fst (encode_commands cs a out) = fst (encode_commands cs b out)"
proof (induction cs arbitrary: a b out)
  case (Cons c cs)
  then show ?case
    using same_pads_step [OF Cons.prems] by (cases "next_pad a"; cases "next_pad b") auto
qed simp

lemma same_pads_decode:
  "same_pads a b \<Longrightarrow> fst (decode_commands_from payload i a out) = fst (decode_commands_from payload i b out)"
proof (induction payload i a out arbitrary: b rule: decode_commands_from.induct)
  case (1 payload i a out)
  obtain pad a' b' where np: "next_pad a = (pad, a')" "next_pad b = (pad, b')" "same_pads a' b'"
    using same_pads_step [OF 1(2)] by (cases "next_pad a"; cases "next_pad b") auto
  show ?case
  proof (cases "wire_len (drop i payload)")
    case (Inr l)
    then show ?thesis
      using "1.IH" [OF _ Inr _ refl np(1) [symmetric] refl np(3)] np
      by (subst (1 2) decode_commands_from.simps) (auto simp: Let_def)
  qed (subst (1 2) decode_commands_from.simps, auto)
qed

lemma wire_mask_bits:
  "game_keys_are_wire_equivalent a b \<longleftrightarrow> (\<forall>n<24. bit a n \<longleftrightarrow> bit b n)"
proof -
  have "GAME_KEY_WIRE_MASK = mask 24" by (simp add: GAME_KEY_WIRE_MASK_def mask_eq_exp_minus_1)
  then have "game_keys_are_wire_equivalent a b \<longleftrightarrow> take_bit 24 a = take_bit 24 b"
    by (simp add: game_keys_are_wire_equivalent_def take_bit_eq_mask)
  also have "\<dots> \<longleftrightarrow> (\<forall>n<24. bit a n \<longleftrightarrow> bit b n)"
    by (metis (mono_tags) bit_eqI bit_take_bit_iff)
  finally show ?thesis .
qed

lemma wire_equivalent_xor_key: "game_keys_are_wire_equivalent a b \<Longrightarrow> xor_key a = xor_key b"
  by (auto simp: wire_mask_bits xor_key_def bit_eq_iff bit_simps)

lemma wire_equivalent_pads: "game_keys_are_wire_equivalent a b \<Longrightarrow> same_pads (obf_multiplayer a) (obf_multiplayer b)"
proof -
  assume "game_keys_are_wire_equivalent a b"
  then have "take_bit 16 a = take_bit 16 b" by (auto simp: wire_mask_bits bit_eq_iff bit_simps)
  then have "take_bit 16 (unat a) = take_bit 16 (unat b)" by (metis unsigned_take_bit_eq)
  then show ?thesis by (simp add: same_pads_def obf_multiplayer_def pad_random_new_def take_bit_eq_mod)
qed

section \<open>Properties\<close>

text \<open>
  The extension decoder accepts a packet exactly when it is the encoding of an extension, and then
  returns that extension: one byte image per value, no trailing bytes, no unknown provenance.
\<close>

lemma extension_codec_exact: "extension_decode b = Inr e \<longleftrightarrow> b = extension_encode e"
  using extension.dec_iff [of b e] by simp

text \<open>
  C32: Two game keys that agree on the 24 bits of the wire mask seal every turn into the same bytes and
  open every package to the same result, so a key recovered from ciphertext is as good as the seed.
\<close>

theorem wire_equivalent_keys:
  assumes "game_keys_are_wire_equivalent a b"
  shows "seal_package stamp play cmds a = seal_package stamp play cmds b \<and>
    decode_retail_checksum_package package a = decode_retail_checksum_package package b"
  using same_pads_encode [OF wire_equivalent_pads [OF assms], of cmds "[]"]
    same_pads_decode [OF wire_equivalent_pads [OF assms], of _ 0 "[]"] wire_equivalent_xor_key [OF assms]
  by (simp add: seal_package_def decode_retail_checksum_package_def decode_commands_def)

theorem wire_equivalent_keys_witness:
  "seal_package 6 (I8 0) [sample_group] 0x12345678 = seal_package 6 (I8 0) [sample_group] 0x00345678"
  using wire_equivalent_keys [of "0x12345678" "0x00345678"]
  by (simp add: game_keys_are_wire_equivalent_def GAME_KEY_WIRE_MASK_def)

end
