(* ===== verification/Lockstep.thy ===== *)
theory Lockstep
  imports Retail Internal_Packets
begin

text \<open>
  The authoritative turn clock, \<^verbatim>\<open>src/crates/don-net/src/lockstep.rs\<close>: one expected stamp, one package
  per participant and turn, comparison of the checksums, a deadline for each turn, and explicit changes
  of membership. The operations pass the runner's state and return the \<^verbatim>\<open>Result\<close> with the state after
  it, since an operation that fails may still have recorded a timeout.
\<close>

section \<open>Evidence\<close>

datatype epoch_cause = Initial | Drop | Reconnect | RosterChange

fun epoch_cause_name :: "epoch_cause \<Rightarrow> string" where
  "epoch_cause_name Initial = ''initial''"
| "epoch_cause_name Drop = ''drop''"
| "epoch_cause_name Reconnect = ''reconnect''"
| "epoch_cause_name RosterChange = ''roster-change''"

record checksum_difference =
  cd_channel :: nat
  cd_reference_play :: i8
  cd_reference :: u32
  cd_divergent_play :: i8
  cd_divergent :: u32

record package_evidence =
  pe_play :: i8
  pe_payload_bytes :: nat
  pe_payload_fnv1a64 :: u64
  pe_checksums :: checksums

record turn_evidence =
  te_epoch :: u32
  te_stamp :: u32
  te_packages :: "package_evidence list"
  te_differences :: "checksum_difference list"

definition checksums_agree :: "turn_evidence \<Rightarrow> bool" where
  "checksums_agree t \<longleftrightarrow> te_differences t = []"

record turn_timeout_evidence =
  tt_epoch :: u32
  tt_stamp :: u32
  tt_deadline_ms :: u64
  tt_observed_ms :: u64
  tt_received :: "i8 list"
  tt_missing :: "i8 list"

datatype lockstep_evidence =
    EpochEvidence u32 epoch_cause u32 "i8 list"
  | TimeoutEvidence turn_timeout_evidence
  | TurnEvidence turn_evidence

datatype lockstep_status =
    Waiting u32 u32 u64 "i8 list"
  | Ready u32 u32 "i8 list"
  | TimedOut turn_timeout_evidence

datatype submit_outcome =
    Accepted "i8 list"
  | Duplicate

datatype lockstep_error =
    NoParticipants
  | InvalidParticipant i8
  | DuplicateParticipant i8
  | ZeroTimeout
  | UnexpectedStamp u32 u32
  | UnexpectedPlay i8
  | DuplicateConflict u32 i8
  | Checksum retail_checksum_error
  | TurnTimedOut turn_timeout_evidence
  | TurnNotReady u32 "i8 list"
  | EpochOverflow
  | StampOverflow

section \<open>The runner\<close>

record pending_package =
  pp_package :: turn_package
  pp_checksums :: checksums

record lockstep_runner =
  lr_game_key :: u32
  lr_timeout_ms :: u64
  lr_epoch :: u32
  lr_expected_stamp :: u32
  lr_deadline_ms :: u64
  lr_participants :: "i8 list"
  lr_pending :: "(i8, pending_package) btree"
  lr_timed_out :: "turn_timeout_evidence option"
  lr_evidence :: "lockstep_evidence list"

text \<open>The loop over the sorted slots, with the slot before.\<close>

fun check_participants :: "i8 option \<Rightarrow> i8 list \<Rightarrow> (unit, lockstep_error) result" where
  "check_participants prev [] = Inr ()"
| "check_participants prev (play # plays) =
     (if i8_val play < 0 \<or> MAX_PLAYERS \<le> nat (i8_val play) then Inl (InvalidParticipant play)
      else if prev = Some play then Inl (DuplicateParticipant play)
      else check_participants (Some play) plays)"

definition normalize_participants :: "i8 list \<Rightarrow> (i8 list, lockstep_error) result" where
  "normalize_participants participants =
     (if participants = [] then Inl NoParticipants
      else case check_participants None (sort participants) of
        Inl e \<Rightarrow> Inl e
      | Inr _ \<Rightarrow> Inr (sort participants))"

fun fnv1a64_from :: "u64 \<Rightarrow> u8 list \<Rightarrow> u64" where
  "fnv1a64_from hash [] = hash"
| "fnv1a64_from hash (b # bs) = fnv1a64_from (xor hash (ucast b) * 0x100000001b3) bs"

definition fnv1a64 :: "u8 list \<Rightarrow> u64" where
  "fnv1a64 bytes = fnv1a64_from 0xcbf29ce484222325 bytes"

definition lockstep_new :: "u32 \<Rightarrow> i8 list \<Rightarrow> u32 \<Rightarrow> u64 \<Rightarrow> u64 \<Rightarrow> (lockstep_runner, lockstep_error) result" where
  "lockstep_new game_key participants first_stamp now_ms timeout_ms =
     (if timeout_ms = 0 then Inl ZeroTimeout
      else case normalize_participants participants of
        Inl e \<Rightarrow> Inl e
      | Inr ps \<Rightarrow>
          Inr \<lparr>lr_game_key = game_key, lr_timeout_ms = timeout_ms, lr_epoch = 0,
               lr_expected_stamp = first_stamp, lr_deadline_ms = saturating_add now_ms timeout_ms,
               lr_participants = ps, lr_pending = [], lr_timed_out = None,
               lr_evidence = [EpochEvidence 0 Initial first_stamp ps]\<rparr>)"

definition begin_epoch ::
    "i8 list \<Rightarrow> epoch_cause \<Rightarrow> u64 \<Rightarrow> lockstep_runner \<Rightarrow> (u32, lockstep_error) result \<times> lockstep_runner" where
  "begin_epoch participants cause now_ms r =
     (case normalize_participants participants of
        Inl e \<Rightarrow> (Inl e, r)
      | Inr ps \<Rightarrow>
          (case checked_add (lr_epoch r) 1 of
             None \<Rightarrow> (Inl EpochOverflow, r)
           | Some epoch \<Rightarrow>
               (Inr epoch,
                r\<lparr>lr_epoch := epoch,
                  lr_pending := bt_retain (\<lambda>play. binary_search ps play) (lr_pending r),
                  lr_participants := ps,
                  lr_timed_out := None,
                  lr_deadline_ms := saturating_add now_ms (lr_timeout_ms r),
                  lr_evidence := lr_evidence r @ [EpochEvidence epoch cause (lr_expected_stamp r) ps]\<rparr>)))"

definition missing :: "lockstep_runner \<Rightarrow> i8 list" where
  "missing r = filter (\<lambda>play. \<not> bt_contains_key (lr_pending r) play) (lr_participants r)"

definition observe_timeout :: "u64 \<Rightarrow> lockstep_runner \<Rightarrow> lockstep_runner" where
  "observe_timeout now_ms r =
     (if lr_timed_out r \<noteq> None \<or> length (lr_pending r) = length (lr_participants r)
         \<or> now_ms < lr_deadline_ms r then r
      else let timeout = \<lparr>tt_epoch = lr_epoch r, tt_stamp = lr_expected_stamp r,
                          tt_deadline_ms = lr_deadline_ms r, tt_observed_ms = now_ms,
                          tt_received = bt_keys (lr_pending r), tt_missing = missing r\<rparr>
           in r\<lparr>lr_evidence := lr_evidence r @ [TimeoutEvidence timeout], lr_timed_out := Some timeout\<rparr>)"

definition submit ::
    "turn_package \<Rightarrow> u64 \<Rightarrow> lockstep_runner \<Rightarrow> (submit_outcome, lockstep_error) result \<times> lockstep_runner" where
  "submit package now_ms r0 =
     (let r = observe_timeout now_ms r0 in
      case lr_timed_out r of
        Some timeout \<Rightarrow> (Inl (TurnTimedOut timeout), r)
      | None \<Rightarrow>
          if tp_stamp package \<noteq> lr_expected_stamp r then
            (Inl (UnexpectedStamp (lr_expected_stamp r) (tp_stamp package)), r)
          else if \<not> binary_search (lr_participants r) (tp_play package) then
            (Inl (UnexpectedPlay (tp_play package)), r)
          else (case bt_get (lr_pending r) (tp_play package) of
            Some existing \<Rightarrow>
              ((if pp_package existing = package then Inr Duplicate
                else Inl (DuplicateConflict (tp_stamp package) (tp_play package))), r)
          | None \<Rightarrow>
              (case decode_retail_checksum_package package (lr_game_key r) of
                 Inl e \<Rightarrow> (Inl (Checksum e), r)
               | Inr decoded \<Rightarrow>
                   let r' = r\<lparr>lr_pending := bt_insert (tp_play package)
                                \<lparr>pp_package = package, pp_checksums = dr_checksums decoded\<rparr> (lr_pending r)\<rparr>
                   in (Inr (Accepted (missing r')), r'))))"

definition status :: "u64 \<Rightarrow> lockstep_runner \<Rightarrow> lockstep_status \<times> lockstep_runner" where
  "status now_ms r0 =
     (if length (lr_pending r0) = length (lr_participants r0) then
        (Ready (lr_epoch r0) (lr_expected_stamp r0) (bt_keys (lr_pending r0)), r0)
      else let r = observe_timeout now_ms r0 in
        case lr_timed_out r of
          Some timeout \<Rightarrow> (TimedOut timeout, r)
        | None \<Rightarrow> (Waiting (lr_epoch r) (lr_expected_stamp r) (lr_deadline_ms r) (missing r), r))"

text \<open>The differing channels of one package against the reference.\<close>

definition channel_differences :: "i8 \<Rightarrow> checksums \<Rightarrow> i8 \<Rightarrow> checksums \<Rightarrow> checksum_difference list" where
  "channel_differences reference expected play actual =
     map (\<lambda>c. \<lparr>cd_channel = c, cd_reference_play = reference, cd_reference = expected ! c,
               cd_divergent_play = play, cd_divergent = actual ! c\<rparr>)
       (filter (\<lambda>c. expected ! c \<noteq> actual ! c) [0..<length CHECKSUM_CHANNELS])"

definition turn_differences :: "i8 \<Rightarrow> checksums \<Rightarrow> (i8, pending_package) btree \<Rightarrow> checksum_difference list" where
  "turn_differences reference expected pending =
     concat (map (\<lambda>(play, p). if play = reference then []
                              else channel_differences reference expected play (pp_checksums p)) pending)"

definition package_evidence_of :: "pending_package \<Rightarrow> package_evidence" where
  "package_evidence_of p =
     \<lparr>pe_play = tp_play (pp_package p), pe_payload_bytes = length (tp_payload (pp_package p)),
      pe_payload_fnv1a64 = fnv1a64 (tp_payload (pp_package p)), pe_checksums = pp_checksums p\<rparr>"

text \<open>
  \<open>None\<close> is the panic of \<^verbatim>\<open>expect("nonempty participants")\<close> or of indexing the map with a key it
  lacks.
\<close>

definition commit_ready ::
    "u64 \<Rightarrow> lockstep_runner \<Rightarrow> ((turn_evidence, lockstep_error) result \<times> lockstep_runner) option" where
  "commit_ready now_ms r0 =
     (let r = observe_timeout now_ms r0 in
      case lr_timed_out r of
        Some timeout \<Rightarrow> Some (Inl (TurnTimedOut timeout), r)
      | None \<Rightarrow>
          if missing r \<noteq> [] then Some (Inl (TurnNotReady (lr_expected_stamp r) (missing r)), r)
          else (case checked_add (lr_expected_stamp r) 1 of
            None \<Rightarrow> Some (Inl StampOverflow, r)
          | Some next_stamp \<Rightarrow>
              (case bt_keys (lr_pending r) of
                 [] \<Rightarrow> None
               | reference # _ \<Rightarrow>
                   (case bt_get (lr_pending r) reference of
                      None \<Rightarrow> None
                    | Some rp \<Rightarrow>
                        let turn = \<lparr>te_epoch = lr_epoch r, te_stamp = lr_expected_stamp r,
                                    te_packages = map package_evidence_of (bt_values (lr_pending r)),
                                    te_differences = turn_differences reference (pp_checksums rp) (lr_pending r)\<rparr>
                        in Some (Inr turn,
                             r\<lparr>lr_evidence := lr_evidence r @ [TurnEvidence turn],
                               lr_pending := [],
                               lr_timed_out := None,
                               lr_expected_stamp := next_stamp,
                               lr_deadline_ms := saturating_add now_ms (lr_timeout_ms r)\<rparr>)))))"

section \<open>Transcript\<close>

definition write_i8_array :: "i8 list \<Rightarrow> string" where
  "write_i8_array values = ''['' @ comma_sep (map (\<lambda>v. show_int (i8_val v)) values) @ '']''"

definition show_u32 :: "u32 \<Rightarrow> string" where "show_u32 w = show_nat (unat w)"
definition show_u64 :: "u64 \<Rightarrow> string" where "show_u64 w = show_nat (unat w)"

definition json_package :: "package_evidence \<Rightarrow> string" where
  \<open>json_package p =
     ''{"play":'' @ show_int (i8_val (pe_play p)) @ '',"payload_bytes":'' @ show_nat (pe_payload_bytes p) @
     '',"payload_fnv1a64":"'' @ show_hex 16 (unat (pe_payload_fnv1a64 p)) @ ''","checksums":['' @
     comma_sep (map (\<lambda>c. ''"'' @ show_hex 8 (unat c) @ ''"'') (pe_checksums p)) @ '']}''\<close>

definition json_difference :: "checksum_difference \<Rightarrow> string" where
  \<open>json_difference d =
     ''{"channel":"'' @ CHECKSUM_CHANNELS ! cd_channel d @ ''","index":'' @ show_nat (cd_channel d) @
     '',"reference_play":'' @ show_int (i8_val (cd_reference_play d)) @
     '',"reference":"'' @ show_hex 8 (unat (cd_reference d)) @
     ''","divergent_play":'' @ show_int (i8_val (cd_divergent_play d)) @
     '',"divergent":"'' @ show_hex 8 (unat (cd_divergent d)) @ ''"}''\<close>

definition write_turn_json :: "turn_evidence \<Rightarrow> string" where
  \<open>write_turn_json t =
     ''{"type":"turn","epoch":'' @ show_u32 (te_epoch t) @ '',"stamp":'' @ show_u32 (te_stamp t) @
     '',"checksum_agreement":'' @ (if checksums_agree t then ''true'' else ''false'') @
     '',"packages":['' @ comma_sep (map json_package (te_packages t)) @
     ''],"desync":['' @ comma_sep (map json_difference (te_differences t)) @ '']}''\<close>

fun json_event :: "lockstep_evidence \<Rightarrow> string" where
  \<open>json_event (EpochEvidence epoch cause stamp participants) =
     ''{"type":"epoch","epoch":'' @ show_u32 epoch @ '',"cause":"'' @ epoch_cause_name cause @
     ''","stamp":'' @ show_u32 stamp @ '',"participants":'' @ write_i8_array participants @ ''}''\<close>
| \<open>json_event (TimeoutEvidence t) =
     ''{"type":"timeout","epoch":'' @ show_u32 (tt_epoch t) @ '',"stamp":'' @ show_u32 (tt_stamp t) @
     '',"deadline_ms":'' @ show_u64 (tt_deadline_ms t) @ '',"observed_ms":'' @ show_u64 (tt_observed_ms t) @
     '',"received":'' @ write_i8_array (tt_received t) @ '',"missing":'' @ write_i8_array (tt_missing t) @ ''}''\<close>
| \<open>json_event (TurnEvidence t) = write_turn_json t\<close>

definition export_json :: "lockstep_runner \<Rightarrow> string" where
  \<open>export_json r =
     ''{"schema":"don.lockstep-transcript.v1","timeout_ms":'' @ show_u64 (lr_timeout_ms r) @
     '',"next_stamp":'' @ show_u32 (lr_expected_stamp r) @ '',"events":['' @
     comma_sep (map json_event (lr_evidence r)) @ '']}''\<close>

definition transcript_fnv1a64 :: "lockstep_runner \<Rightarrow> u64" where
  "transcript_fnv1a64 r = fnv1a64 (ascii_bytes (export_json r))"

section \<open>Membership\<close>

definition participants_ok :: "i8 list \<Rightarrow> bool" where
  "participants_ok ps \<longleftrightarrow> ps \<noteq> [] \<and> sorted_wrt (<) ps \<and> (\<forall>p\<in>set ps. 0 \<le> i8_val p \<and> i8_val p < int MAX_PLAYERS)"

lemma check_participants_iff:
  "sorted ps \<Longrightarrow> (\<forall>q. prev = Some q \<longrightarrow> (\<forall>p\<in>set ps. q \<le> p)) \<Longrightarrow>
   check_participants prev ps = Inr () \<longleftrightarrow>
     (\<forall>p\<in>set ps. 0 \<le> i8_val p \<and> i8_val p < int MAX_PLAYERS) \<and> distinct ps \<and>
     (\<forall>q. prev = Some q \<longrightarrow> q \<notin> set ps)"
proof (induction prev ps rule: check_participants.induct)
  case (2 prev play plays)
  have iff: "(i8_val play < 0 \<or> MAX_PLAYERS \<le> nat (i8_val play)) \<longleftrightarrow> \<not> (0 \<le> i8_val play \<and> i8_val play < int MAX_PLAYERS)"
    by auto
  have "prev = Some q \<Longrightarrow> q \<noteq> play \<Longrightarrow> q \<notin> set plays" for q
    using 2(2,3) by (auto dest: antisym)
  then show ?case using 2 by (auto simp: iff)
qed simp

lemma normalize_participants_iff:
  "normalize_participants xs = Inr ps \<longleftrightarrow> ps = sort xs \<and> distinct xs \<and> participants_ok ps"
proof -
  have "sort xs = [] \<longleftrightarrow> xs = []" by (metis set_empty set_sort)
  then show ?thesis
    using check_participants_iff [of "sort xs" None]
    by (auto simp: normalize_participants_def participants_ok_def strict_sorted_iff split: sum.splits)
qed

lemma participants_ok_sorted: "participants_ok ps \<Longrightarrow> sorted ps \<and> distinct ps"
  by (simp add: participants_ok_def strict_sorted_iff)

section \<open>Invariant\<close>

definition pending_ok :: "lockstep_runner \<Rightarrow> i8 \<Rightarrow> pending_package \<Rightarrow> bool" where
  "pending_ok r play p \<longleftrightarrow>
     play \<in> set (lr_participants r) \<and> tp_play (pp_package p) = play \<and>
     tp_stamp (pp_package p) = lr_expected_stamp r \<and>
     (\<exists>d. decode_retail_checksum_package (pp_package p) (lr_game_key r) = Inr d \<and> dr_checksums d = pp_checksums p)"

definition timeout_ok :: "lockstep_runner \<Rightarrow> turn_timeout_evidence \<Rightarrow> bool" where
  "timeout_ok r t \<longleftrightarrow>
     tt_epoch t = lr_epoch r \<and> tt_stamp t = lr_expected_stamp r \<and> tt_deadline_ms t \<le> tt_observed_ms t \<and>
     tt_received t = bt_keys (lr_pending r) \<and> tt_missing t = missing r \<and> missing r \<noteq> [] \<and>
     last (lr_evidence r) = TimeoutEvidence t"

definition turn_ok :: "turn_evidence \<Rightarrow> bool" where
  "turn_ok t \<longleftrightarrow>
     te_packages t \<noteq> [] \<and> sorted_wrt (<) (map pe_play (te_packages t)) \<and>
     (te_differences t = [] \<longleftrightarrow> (\<forall>p\<in>set (te_packages t). \<forall>q\<in>set (te_packages t). pe_checksums p = pe_checksums q))"

definition turn_stamps :: "lockstep_evidence list \<Rightarrow> u32 list" where
  "turn_stamps evs = concat (map (\<lambda>e. case e of TurnEvidence t \<Rightarrow> [te_stamp t] | _ \<Rightarrow> []) evs)"

definition epochs_of :: "lockstep_evidence list \<Rightarrow> u32 list" where
  "epochs_of evs = concat (map (\<lambda>e. case e of EpochEvidence n _ _ _ \<Rightarrow> [n] | _ \<Rightarrow> []) evs)"

text \<open>
  The history: it opens with the initial epoch at the first stamp; the stamps of the committed turns
  run from there to the expected stamp without gap or repetition; the epochs count up from 0.
\<close>

definition history_ok :: "lockstep_runner \<Rightarrow> bool" where
  "history_ok r \<longleftrightarrow>
     (\<exists>first ps evs. lr_evidence r = EpochEvidence 0 Initial first ps # evs \<and>
        unat first \<le> unat (lr_expected_stamp r) \<and>
        map unat (turn_stamps (lr_evidence r)) = [unat first ..< unat (lr_expected_stamp r)]) \<and>
     map unat (epochs_of (lr_evidence r)) = [0 ..< Suc (unat (lr_epoch r))] \<and>
     (\<forall>t. TurnEvidence t \<in> set (lr_evidence r) \<longrightarrow> turn_ok t)"

definition lockstep_inv :: "lockstep_runner \<Rightarrow> bool" where
  "lockstep_inv r \<longleftrightarrow>
     participants_ok (lr_participants r) \<and> bt_wf (lr_pending r) \<and>
     (\<forall>(play, p)\<in>set (lr_pending r). pending_ok r play p) \<and>
     (\<forall>t. lr_timed_out r = Some t \<longrightarrow> timeout_ok r t) \<and> history_ok r"

lemma pending_keys_subset: "lockstep_inv r \<Longrightarrow> set (bt_keys (lr_pending r)) \<subseteq> set (lr_participants r)"
  by (auto simp: lockstep_inv_def pending_ok_def bt_keys_def)

lemma missing_Nil_subset: "missing r = [] \<longleftrightarrow> set (lr_participants r) \<subseteq> set (bt_keys (lr_pending r))"
  by (auto simp: missing_def filter_empty_conv bt_contains_key_iff)

lemma missing_Nil_iff:
  assumes "lockstep_inv r"
  shows "length (lr_pending r) = length (lr_participants r) \<longleftrightarrow> missing r = []"
proof -
  have sub: "set (bt_keys (lr_pending r)) \<subseteq> set (lr_participants r)"
    using assms by (rule pending_keys_subset)
  have d: "distinct (bt_keys (lr_pending r))" "distinct (lr_participants r)"
    using assms bt.distinct_keys participants_ok_sorted by (auto simp: lockstep_inv_def)
  have "missing r = [] \<longleftrightarrow> set (lr_participants r) \<subseteq> set (bt_keys (lr_pending r))"
    by (rule missing_Nil_subset)
  also have "\<dots> \<longleftrightarrow> card (set (bt_keys (lr_pending r))) = card (set (lr_participants r))"
    using sub card_subset_eq by (metis List.finite_set subset_antisym order_refl)
  also have "\<dots> \<longleftrightarrow> length (lr_pending r) = length (lr_participants r)"
    using d by (simp add: distinct_card length_bt [symmetric])
  finally show ?thesis by simp
qed

lemma turn_stamps_append [simp]: "turn_stamps (xs @ ys) = turn_stamps xs @ turn_stamps ys"
  by (simp add: turn_stamps_def)

lemma epochs_of_append [simp]: "epochs_of (xs @ ys) = epochs_of xs @ epochs_of ys"
  by (simp add: epochs_of_def)

lemma turn_stamps_single [simp]:
  "turn_stamps [TurnEvidence t] = [te_stamp t]" "turn_stamps [TimeoutEvidence o1] = []"
  "turn_stamps [EpochEvidence n c s ps] = []"
  by (simp_all add: turn_stamps_def)

lemma epochs_of_single [simp]:
  "epochs_of [TurnEvidence t] = []" "epochs_of [TimeoutEvidence o1] = []"
  "epochs_of [EpochEvidence n c s ps] = [n]"
  by (simp_all add: epochs_of_def)

lemma lockstep_inv_new:
  "lockstep_new key ps first now timeout = Inr r \<Longrightarrow> lockstep_inv r"
  by (auto simp: lockstep_new_def normalize_participants_iff lockstep_inv_def history_ok_def
      turn_stamps_def epochs_of_def split: if_splits sum.splits)

lemma missing_cong:
  "lr_pending r = lr_pending r' \<Longrightarrow> lr_participants r = lr_participants r' \<Longrightarrow> missing r = missing r'"
  by (simp add: missing_def)

lemma observe_timeout_fields [simp]:
  "lr_game_key (observe_timeout now r) = lr_game_key r"
  "lr_timeout_ms (observe_timeout now r) = lr_timeout_ms r"
  "lr_epoch (observe_timeout now r) = lr_epoch r"
  "lr_expected_stamp (observe_timeout now r) = lr_expected_stamp r"
  "lr_deadline_ms (observe_timeout now r) = lr_deadline_ms r"
  "lr_participants (observe_timeout now r) = lr_participants r"
  "lr_pending (observe_timeout now r) = lr_pending r"
  "missing (observe_timeout now r) = missing r"
  by (simp_all add: observe_timeout_def Let_def missing_def)

lemma lockstep_inv_observe: "lockstep_inv r \<Longrightarrow> lockstep_inv (observe_timeout now r)"
proof -
  assume inv: "lockstep_inv r"
  show "lockstep_inv (observe_timeout now r)"
  proof (cases "observe_timeout now r = r")
    case False
    then obtain t where t: "observe_timeout now r =
        r\<lparr>lr_evidence := lr_evidence r @ [TimeoutEvidence t], lr_timed_out := Some t\<rparr>"
        "tt_epoch t = lr_epoch r" "tt_stamp t = lr_expected_stamp r" "tt_deadline_ms t \<le> tt_observed_ms t"
        "tt_received t = bt_keys (lr_pending r)" "tt_missing t = missing r" "missing r \<noteq> []"
      using missing_Nil_iff [OF inv] by (auto simp: observe_timeout_def Let_def not_less split: if_splits)
    show ?thesis
      using inv t(2-) unfolding lockstep_inv_def t(1)
      by (auto simp: pending_ok_def timeout_ok_def missing_def history_ok_def)
  qed (use inv in simp)
qed

subsection \<open>Differences\<close>

lemma length_CHECKSUM_CHANNELS [simp]: "length CHECKSUM_CHANNELS = 16"
  by (simp add: CHECKSUM_CHANNELS_def)

lemma channel_differences_Nil_iff:
  "length e = 16 \<Longrightarrow> length a = 16 \<Longrightarrow> channel_differences ref e play a = [] \<longleftrightarrow> e = a"
  by (auto simp: channel_differences_def filter_empty_conv intro: nth_equalityI)

lemma decode_retail_checksums_ok:
  "decode_retail_checksum_package package key = Inr d \<Longrightarrow> checksums_ok (dr_checksums d)"
  by (auto simp: decode_retail_checksum_package_def split: if_splits sum.splits option.splits
      dest!: scan_checksums_found)

lemma pending_ok_length: "pending_ok r play p \<Longrightarrow> length (pp_checksums p) = 16"
  by (auto simp: pending_ok_def checksums_ok_def dest!: decode_retail_checksums_ok)

lemma turn_differences_Nil_iff:
  assumes "\<forall>(play, p)\<in>set m. length (pp_checksums p) = 16" "bt_wf m" "bt_get m reference = Some rp"
  shows "turn_differences reference (pp_checksums rp) m = [] \<longleftrightarrow>
    (\<forall>(play, p)\<in>set m. pp_checksums p = pp_checksums rp)"
proof -
  have rp: "(reference, rp) \<in> set m" using assms(2,3) by (simp add: bt_get_mem)
  have uniq: "p = rp" if "(reference, p) \<in> set m" for p
    using that rp assms(2) by (metis bt_get_mem option.inject)
  have entry: "(if play = reference then [] else channel_differences reference (pp_checksums rp) play (pp_checksums p)) = [] \<longleftrightarrow>
      pp_checksums p = pp_checksums rp" if "(play, p) \<in> set m" for play p
  proof (cases "play = reference")
    case False
    have "length (pp_checksums p) = 16" "length (pp_checksums rp) = 16" using that rp assms(1) by auto
    then show ?thesis using False channel_differences_Nil_iff by auto
  qed (use that uniq in auto)
  have "turn_differences reference (pp_checksums rp) m = [] \<longleftrightarrow>
      (\<forall>(play, p)\<in>set m. (if play = reference then []
         else channel_differences reference (pp_checksums rp) play (pp_checksums p)) = [])"
    by (simp only: turn_differences_def concat_eq_Nil_conv set_map ball_simps) (simp add: case_prod_beta)
  also have "\<dots> \<longleftrightarrow> (\<forall>(play, p)\<in>set m. pp_checksums p = pp_checksums rp)"
  proof (intro ball_cong refl)
    fix x assume mem: "x \<in> set m"
    obtain play p where x: "x = (play, p)" by fastforce
    show "(case x of (play, p) \<Rightarrow> (if play = reference then []
        else channel_differences reference (pp_checksums rp) play (pp_checksums p)) = []) \<longleftrightarrow>
        (case x of (play, p) \<Rightarrow> pp_checksums p = pp_checksums rp)"
      using entry [OF mem [unfolded x]] by (simp only: x prod.case)
  qed
  finally show ?thesis .
qed

subsection \<open>Preservation\<close>

text \<open>What a successful commit does, on a state in which no timeout is on record.\<close>

lemma commit_ready_cases:
  assumes "commit_ready now r = Some (res, r')"
  obtains (refused) e where "res = Inl e" "r' = observe_timeout now r"
  | (committed) next_stamp reference rp turn where
      "res = Inr turn" "lr_timed_out (observe_timeout now r) = None" "missing r = []"
      "checked_add (lr_expected_stamp r) 1 = Some next_stamp"
      "bt_get (lr_pending r) reference = Some rp" "bt_keys (lr_pending r) \<noteq> []" "hd (bt_keys (lr_pending r)) = reference"
      "turn = \<lparr>te_epoch = lr_epoch r, te_stamp = lr_expected_stamp r,
               te_packages = map package_evidence_of (bt_values (lr_pending r)),
               te_differences = turn_differences reference (pp_checksums rp) (lr_pending r)\<rparr>"
      "r' = (observe_timeout now r)\<lparr>lr_evidence := lr_evidence (observe_timeout now r) @ [TurnEvidence turn],
               lr_pending := [], lr_timed_out := None, lr_expected_stamp := next_stamp,
               lr_deadline_ms := saturating_add now (lr_timeout_ms r)\<rparr>"
  using assms that by (auto simp: commit_ready_def Let_def split: option.splits if_splits list.splits)

lemma turn_ok_commit:
  assumes inv: "lockstep_inv r" and ref: "bt_get (lr_pending r) reference = Some rp"
  shows "turn_ok \<lparr>te_epoch = e, te_stamp = s, te_packages = map package_evidence_of (bt_values (lr_pending r)),
               te_differences = turn_differences reference (pp_checksums rp) (lr_pending r)\<rparr>"
proof -
  have wf: "bt_wf (lr_pending r)" and ok: "\<forall>(play, p)\<in>set (lr_pending r). pending_ok r play p"
    using inv by (auto simp: lockstep_inv_def)
  have rp: "(reference, rp) \<in> set (lr_pending r)" using wf ref by (simp add: bt_get_mem)
  have "map pe_play (map package_evidence_of (bt_values (lr_pending r))) = bt_keys (lr_pending r)"
    using ok by (auto simp: bt_values_def bt_keys_def package_evidence_of_def pending_ok_def)
  moreover have "turn_differences reference (pp_checksums rp) (lr_pending r) = [] \<longleftrightarrow>
      (\<forall>(play, p)\<in>set (lr_pending r). pp_checksums p = pp_checksums rp)"
    using ok pending_ok_length by (intro turn_differences_Nil_iff [OF _ wf ref]) fastforce
  moreover have "(\<forall>(play, p)\<in>set (lr_pending r). pp_checksums p = pp_checksums rp) \<longleftrightarrow>
      (\<forall>p\<in>set (bt_values (lr_pending r)). \<forall>q\<in>set (bt_values (lr_pending r)). pp_checksums p = pp_checksums q)"
  proof -
    have V: "rp \<in> set (bt_values (lr_pending r))" using rp by (force simp: bt_values_def)
    have "(\<forall>(play, p)\<in>set (lr_pending r). pp_checksums p = pp_checksums rp) \<longleftrightarrow>
        (\<forall>p\<in>set (bt_values (lr_pending r)). pp_checksums p = pp_checksums rp)"
      by (simp add: bt_values_def case_prod_beta)
    then show ?thesis using V by (simp only:) (metis (no_types))
  qed
  moreover have "bt_values (lr_pending r) \<noteq> []" using rp by (auto simp: bt_values_def)
  ultimately show ?thesis
    using bt.sorted_keys [OF wf] unfolding turn_ok_def by (simp add: package_evidence_of_def)
qed

lemma lockstep_inv_commit:
  assumes inv: "lockstep_inv r" and "commit_ready now r = Some (res, r')"
  shows "lockstep_inv r'"
  using assms(2)
proof (cases rule: commit_ready_cases)
  case refused
  then show ?thesis using lockstep_inv_observe [OF inv] by simp
next
  case (committed next_stamp reference rp turn)
  let ?o = "observe_timeout now r"
  have o: "lockstep_inv ?o" using inv by (rule lockstep_inv_observe)
  have t: "turn_ok turn" using turn_ok_commit [OF inv committed(5)] committed(8) by simp
  have n: "unat next_stamp = Suc (unat (lr_expected_stamp r))"
    using checked_succ [OF committed(4)] .
  have st: "te_stamp turn = lr_expected_stamp r" using committed(8) by simp
  have "history_ok r'"
    using o t n st unfolding committed(9) lockstep_inv_def history_ok_def by (auto simp: upt_Suc_append)
  moreover have "participants_ok (lr_participants r')" using o committed(9) by (simp add: lockstep_inv_def)
  ultimately show ?thesis using committed(9) by (simp add: lockstep_inv_def)
qed

lemma lockstep_inv_begin_epoch:
  assumes "lockstep_inv r"
  shows "lockstep_inv (snd (begin_epoch ps cause now r))"
proof (cases "normalize_participants ps")
  case (Inr qs)
  show ?thesis
  proof (cases "checked_add (lr_epoch r) 1")
    case (Some e)
    let ?r' = "snd (begin_epoch ps cause now r)"
    have qs: "participants_ok qs" "sorted qs"
      using Inr participants_ok_sorted by (auto simp: normalize_participants_iff)
    have e: "unat e = Suc (unat (lr_epoch r))" using checked_succ [OF Some] .
    have r': "?r' = r\<lparr>lr_epoch := e, lr_pending := bt_retain (\<lambda>play. binary_search qs play) (lr_pending r),
        lr_participants := qs, lr_timed_out := None,
        lr_deadline_ms := saturating_add now (lr_timeout_ms r),
        lr_evidence := lr_evidence r @ [EpochEvidence e cause (lr_expected_stamp r) qs]\<rparr>"
      using Inr Some by (simp add: begin_epoch_def)
    have "history_ok ?r'"
      using assms e unfolding r' lockstep_inv_def history_ok_def by auto
    moreover have "\<forall>(play, p)\<in>set (lr_pending ?r'). pending_ok ?r' play p"
      using assms binary_search_sorted [OF qs(2)] unfolding r'
      by (auto simp: lockstep_inv_def pending_ok_def bt_retain_def)
    moreover have "bt_wf (lr_pending ?r')" "lr_participants ?r' = qs" "lr_timed_out ?r' = None"
      using assms unfolding r' by (simp_all add: lockstep_inv_def bt_wf_retain)
    ultimately show ?thesis using qs(1) by (simp add: lockstep_inv_def)
  qed (use assms Inr in \<open>simp add: begin_epoch_def\<close>)
qed (use assms in \<open>simp add: begin_epoch_def\<close>)

text \<open>What a submission does: it is refused or repeated, or the package is stored.\<close>

lemma submit_cases:
  obtains (kept) res where "submit package now r = (res, observe_timeout now r)" "\<nexists>ms. res = Inr (Accepted ms)"
  | (stored) d where
      "lr_timed_out (observe_timeout now r) = None" "tp_stamp package = lr_expected_stamp r"
      "binary_search (lr_participants r) (tp_play package)" "bt_get (lr_pending r) (tp_play package) = None"
      "decode_retail_checksum_package package (lr_game_key r) = Inr d"
      "snd (submit package now r) = (observe_timeout now r)\<lparr>lr_pending := bt_insert (tp_play package)
         \<lparr>pp_package = package, pp_checksums = dr_checksums d\<rparr> (lr_pending r)\<rparr>"
      "fst (submit package now r) = Inr (Accepted (missing (snd (submit package now r))))"
proof (cases "lr_timed_out (observe_timeout now r)")
  case (Some t)
  then show ?thesis by (intro kept [of "Inl (TurnTimedOut t)"]) (simp_all add: submit_def Let_def)
next
  case None
  show ?thesis
  proof (cases "tp_stamp package = lr_expected_stamp r \<and> binary_search (lr_participants r) (tp_play package)")
    case False
    then show ?thesis using None by (intro kept [of "fst (submit package now r)"]) (auto simp: submit_def Let_def)
  next
    case True
    show ?thesis
    proof (cases "bt_get (lr_pending r) (tp_play package)")
      case (Some e)
      then show ?thesis
        using None True by (intro kept [of "fst (submit package now r)"]) (auto simp: submit_def Let_def)
    next
      case fresh: None
      show ?thesis
      proof (cases "decode_retail_checksum_package package (lr_game_key r)")
        case (Inl e)
        then show ?thesis
          using None True fresh by (intro kept [of "Inl (Checksum e)"]) (auto simp: submit_def Let_def)
      next
        case (Inr d)
        then show ?thesis using None True fresh by (intro stored [of d]) (auto simp: submit_def Let_def)
      qed
    qed
  qed
qed

lemma lockstep_inv_insert:
  assumes "lockstep_inv r" "lr_timed_out r = None" "pending_ok r play p"
  shows "lockstep_inv (r\<lparr>lr_pending := bt_insert play p (lr_pending r)\<rparr>)"
proof -
  have wf: "bt_wf (lr_pending r)" using assms by (simp add: lockstep_inv_def)
  have "pending_ok r k q" if "(k, q) \<in> set (bt_insert play p (lr_pending r))" for k q
  proof -
    have "bt_get (bt_insert play p (lr_pending r)) k = Some q"
      using that bt_wf_insert [OF wf] by (simp add: bt_get_mem)
    then have "k = play \<and> q = p \<or> (k, q) \<in> set (lr_pending r)"
      using bt.get_insert [OF wf] wf by (auto simp: bt_get_mem split: if_splits)
    then show ?thesis using assms by (auto simp: lockstep_inv_def)
  qed
  then have "\<forall>(k, q)\<in>set (bt_insert play p (lr_pending r)). pending_ok r k q" by auto
  then show ?thesis
    using assms bt_wf_insert [OF wf] by (simp add: lockstep_inv_def pending_ok_def history_ok_def)
qed

lemma lockstep_inv_submit:
  assumes "lockstep_inv r"
  shows "lockstep_inv (snd (submit package now r))"
proof (cases package now r rule: submit_cases)
  case (kept res)
  then show ?thesis using lockstep_inv_observe [OF assms] by simp
next
  case (stored d)
  have "sorted (lr_participants r)"
    using assms participants_ok_sorted by (simp add: lockstep_inv_def)
  then have "pending_ok (observe_timeout now r) (tp_play package) \<lparr>pp_package = package, pp_checksums = dr_checksums d\<rparr>"
    using stored binary_search_sorted by (auto simp: pending_ok_def)
  then show ?thesis
    using lockstep_inv_insert [OF lockstep_inv_observe [OF assms] stored(1)] stored(6) by simp
qed

lemma lockstep_inv_status: "lockstep_inv r \<Longrightarrow> lockstep_inv (snd (status now r))"
  using lockstep_inv_observe [of r now] by (auto simp: status_def Let_def split: option.splits)

section \<open>Runs\<close>

definition lockstep_init :: "lockstep_runner \<Rightarrow> bool" where
  "lockstep_init r \<longleftrightarrow> (\<exists>key ps first now timeout. lockstep_new key ps first now timeout = Inr r)"

inductive lockstep_step :: "lockstep_runner \<Rightarrow> lockstep_runner \<Rightarrow> bool" where
  step_submit: "lockstep_step r (snd (submit package now r))"
| step_status: "lockstep_step r (snd (status now r))"
| step_commit: "commit_ready now r = Some (res, r') \<Longrightarrow> lockstep_step r r'"
| step_epoch: "lockstep_step r (snd (begin_epoch ps cause now r))"

inductive_cases lockstep_stepE: "lockstep_step r r'"

interpretation lockstep: invariant_rule lockstep_init lockstep_step lockstep_inv
proof
  fix r assume "lockstep_init r"
  then show "lockstep_inv r" by (auto simp: lockstep_init_def dest: lockstep_inv_new)
next
  fix r r' assume "lockstep_inv r" "lockstep_step r r'"
  then show "lockstep_inv r'"
    by (auto elim!: lockstep_stepE intro: lockstep_inv_submit lockstep_inv_status
        lockstep_inv_commit lockstep_inv_begin_epoch)
qed

subsection \<open>Consequences of the invariant\<close>

lemma ready_no_timeout:
  assumes "lockstep_inv r" "missing r = []"
  shows "observe_timeout now r = r" "lr_timed_out r = None"
  using assms missing_Nil_iff [OF assms(1)]
  by (auto simp: observe_timeout_def lockstep_inv_def timeout_ok_def)

lemma ready_keys:
  assumes "lockstep_inv r" "missing r = []"
  shows "bt_keys (lr_pending r) = lr_participants r"
proof (rule bt.keys_eq_sorted)
  show "set (lr_participants r) = dom (bt_get (lr_pending r))"
    using assms bt.set_keys [of "lr_pending r"] pending_keys_subset [OF assms(1)]
    by (simp add: missing_Nil_subset lockstep_inv_def)
qed (use assms in \<open>auto simp: lockstep_inv_def participants_ok_def\<close>)

lemma commit_ready_ok:
  assumes "lockstep_inv r" "missing r = []" "checked_add (lr_expected_stamp r) 1 = Some n"
  shows "\<exists>turn r'. commit_ready now r = Some (Inr turn, r')"
proof -
  have "bt_keys (lr_pending r) \<noteq> []"
    using ready_keys [OF assms(1,2)] assms(1) by (simp add: lockstep_inv_def participants_ok_def)
  then obtain k ks where k: "bt_keys (lr_pending r) = k # ks" by (cases "bt_keys (lr_pending r)") auto
  then have "bt_get (lr_pending r) k \<noteq> None"
    using bt_contains_key_iff [of "lr_pending r" k] by (simp add: bt_contains_key_def)
  then show ?thesis
    using assms k ready_no_timeout(1) [OF assms(1,2), of now] ready_no_timeout(2) [OF assms(1,2)]
    by (auto simp: commit_ready_def Let_def split: option.splits)
qed

lemma commit_ready_committed:
  assumes "lockstep_inv r" "commit_ready now r = Some (Inr turn, r')"
  shows "missing r = []" "checked_add (lr_expected_stamp r) 1 = Some (lr_expected_stamp r')"
    "te_epoch turn = lr_epoch r" "te_stamp turn = lr_expected_stamp r"
    "te_packages turn = map package_evidence_of (bt_values (lr_pending r))"
    "map pe_play (te_packages turn) = lr_participants r"
    "te_differences turn =
       turn_differences (hd (lr_participants r)) (pp_checksums (the (bt_get (lr_pending r) (hd (lr_participants r))))) (lr_pending r)"
    "r' = r\<lparr>lr_evidence := lr_evidence r @ [TurnEvidence turn], lr_pending := [],
            lr_expected_stamp := lr_expected_stamp r', lr_deadline_ms := saturating_add now (lr_timeout_ms r)\<rparr>"
proof -
  from assms(2) obtain next_stamp reference rp where c: "missing r = []"
      "checked_add (lr_expected_stamp r) 1 = Some next_stamp" "bt_get (lr_pending r) reference = Some rp"
      "hd (bt_keys (lr_pending r)) = reference"
      "turn = \<lparr>te_epoch = lr_epoch r, te_stamp = lr_expected_stamp r,
               te_packages = map package_evidence_of (bt_values (lr_pending r)),
               te_differences = turn_differences reference (pp_checksums rp) (lr_pending r)\<rparr>"
      "r' = (observe_timeout now r)\<lparr>lr_evidence := lr_evidence (observe_timeout now r) @ [TurnEvidence turn],
               lr_pending := [], lr_timed_out := None, lr_expected_stamp := next_stamp,
               lr_deadline_ms := saturating_add now (lr_timeout_ms r)\<rparr>"
    by (cases rule: commit_ready_cases) auto
  have obs: "observe_timeout now r = r" "lr_timed_out r = None"
    using ready_no_timeout [OF assms(1) c(1)] by auto
  have "map (\<lambda>p. tp_play (pp_package p)) (bt_values (lr_pending r)) = bt_keys (lr_pending r)"
    using assms(1) by (auto simp: bt_values_def bt_keys_def pending_ok_def lockstep_inv_def)
  then show "map pe_play (te_packages turn) = lr_participants r"
    using ready_keys [OF assms(1) c(1)] c(5) by (simp add: package_evidence_of_def comp_def)
  show "te_differences turn =
      turn_differences (hd (lr_participants r)) (pp_checksums (the (bt_get (lr_pending r) (hd (lr_participants r))))) (lr_pending r)"
    using ready_keys [OF assms(1) c(1)] c(3-5) by simp
  show "r' = r\<lparr>lr_evidence := lr_evidence r @ [TurnEvidence turn], lr_pending := [],
            lr_expected_stamp := lr_expected_stamp r', lr_deadline_ms := saturating_add now (lr_timeout_ms r)\<rparr>"
    using c(6) obs by simp
qed (use assms(2) in \<open>cases rule: commit_ready_cases, auto\<close>)+

end
