(* ===== verification/Lockstep_Properties.thy ===== *)
theory Lockstep_Properties
  imports Lockstep
begin

text \<open>
  What the turn clock guarantees: reachable states are well-formed, a turn commits exactly when every
  participant has submitted, the order in which packages arrive does not matter, disagreements are
  reported exactly, and a timeout holds until the membership changes.
\<close>

section \<open>Order of submission\<close>

text \<open>
  The effect of one submission on the pending map when no timeout is on record, and of a list of
  submissions at one time.
\<close>

definition acceptable :: "lockstep_runner \<Rightarrow> turn_package \<Rightarrow> pending_package option" where
  "acceptable r p =
     (if tp_stamp p = lr_expected_stamp r \<and> tp_play p \<in> set (lr_participants r) then
        (case decode_retail_checksum_package p (lr_game_key r) of
           Inl _ \<Rightarrow> None
         | Inr d \<Rightarrow> Some \<lparr>pp_package = p, pp_checksums = dr_checksums d\<rparr>)
      else None)"

definition store_package ::
    "lockstep_runner \<Rightarrow> turn_package \<Rightarrow> (i8, pending_package) btree \<Rightarrow> (i8, pending_package) btree" where
  "store_package r p m =
     (case (bt_get m (tp_play p), acceptable r p) of (None, Some e) \<Rightarrow> bt_insert (tp_play p) e m | _ \<Rightarrow> m)"

definition submit_all :: "turn_package list \<Rightarrow> u64 \<Rightarrow> lockstep_runner \<Rightarrow> lockstep_runner" where
  "submit_all ps now r = fold (\<lambda>p r. snd (submit p now r)) ps r"

lemma submit_timed_out:
  "lr_timed_out r = Some t \<Longrightarrow> submit p now r = (Inl (TurnTimedOut t), r)"
  by (simp add: submit_def observe_timeout_def)

lemma submit_store:
  assumes "lockstep_inv r" "lr_timed_out (observe_timeout now r) = None"
  shows "snd (submit p now r) = r\<lparr>lr_pending := store_package r p (lr_pending r)\<rparr>"
proof -
  have o: "observe_timeout now r = r"
    using assms(2) by (auto simp: observe_timeout_def Let_def split: if_splits)
  have "sorted (lr_participants r)"
    using assms(1) participants_ok_sorted by (simp add: lockstep_inv_def)
  then show ?thesis
    using assms(2) unfolding o
    by (auto simp: submit_def o store_package_def acceptable_def binary_search_sorted Let_def
        split: option.splits sum.splits)
qed

lemma no_timeout_after_submit:
  assumes "lockstep_inv r" "lr_timed_out (observe_timeout now r) = None"
  shows "lr_timed_out (observe_timeout now (snd (submit p now r))) = None"
proof (cases "missing r = []")
  case True
  have "store_package r p (lr_pending r) = lr_pending r"
    using True missing_Nil_subset [of r]
    by (auto simp: store_package_def acceptable_def bt_contains_key_iff [symmetric] bt_contains_key_def
        split: option.splits)
  then show ?thesis using submit_store [OF assms] assms(2) by simp
next
  case False
  then have "now < lr_deadline_ms r" "lr_timed_out r = None"
    using assms missing_Nil_iff [OF assms(1)] by (auto simp: observe_timeout_def Let_def split: if_splits)
  then show ?thesis using submit_store [OF assms] by (simp add: observe_timeout_def)
qed

lemma store_package_cong:
  "store_package (r\<lparr>lr_pending := m'\<rparr>) = store_package r"
proof -
  have "acceptable (r\<lparr>lr_pending := m'\<rparr>) p = acceptable r p" for p
    by (simp add: acceptable_def cong: if_cong)
  then show ?thesis by (simp add: fun_eq_iff store_package_def)
qed

lemma submit_all_store:
  assumes "lockstep_inv r" "lr_timed_out (observe_timeout now r) = None"
  shows "submit_all ps now r = r\<lparr>lr_pending := fold (store_package r) ps (lr_pending r)\<rparr>"
  using assms
proof (induction ps arbitrary: r)
  case (Cons p ps)
  let ?r = "snd (submit p now r)"
  have "submit_all ps now ?r = ?r\<lparr>lr_pending := fold (store_package ?r) ps (lr_pending ?r)\<rparr>"
    using Cons.prems by (intro Cons.IH lockstep_inv_submit no_timeout_after_submit)
  then show ?case using submit_store [OF Cons.prems] by (simp add: submit_all_def store_package_cong)
qed (simp add: submit_all_def)

lemma submit_all_timed_out: "lr_timed_out r = Some t \<Longrightarrow> submit_all ps now r = r"
  by (induction ps) (simp_all add: submit_all_def submit_timed_out)

lemma bt_wf_store: "bt_wf m \<Longrightarrow> bt_wf (store_package r p m)"
  by (auto simp: store_package_def bt_wf_insert split: option.splits)

lemma bt_get_store:
  "bt_wf m \<Longrightarrow> bt_get (store_package r p m) k =
     (if bt_get m k = None \<and> tp_play p = k then acceptable r p else bt_get m k)"
  by (auto simp: store_package_def bt.get_insert split: option.splits)

lemma bt_get_store_all:
  assumes "bt_wf m" "distinct (map tp_play ps)"
  shows "bt_wf (fold (store_package r) ps m)"
    "bt_get (fold (store_package r) ps m) k = Some e \<longleftrightarrow>
       bt_get m k = Some e \<or> (bt_get m k = None \<and> (\<exists>p\<in>set ps. tp_play p = k \<and> acceptable r p = Some e))"
  using assms
proof (induction ps arbitrary: m)
  case (Cons p ps)
  {
    case 1
    then show ?case using Cons.IH(1) [OF bt_wf_store] by simp
  next
    case 2
    then have d: "bt_wf (store_package r p m)" "distinct (map tp_play ps)" "\<forall>q\<in>set ps. tp_play q \<noteq> tp_play p"
      by (auto intro: bt_wf_store) (metis imageI)
    then show ?case
      using Cons.IH(2) [OF d(1,2)] 2 by (auto simp: bt_get_store)
  }
qed auto

lemma fold_store_set:
  assumes "bt_wf m" "distinct (map tp_play ps)" "distinct (map tp_play qs)" "set ps = set qs"
  shows "fold (store_package r) ps m = fold (store_package r) qs m"
proof (rule bt_get_ext)
  show "bt_get (fold (store_package r) ps m) = bt_get (fold (store_package r) qs m)"
  proof
    fix k
    have "bt_get (fold (store_package r) ps m) k = Some e \<longleftrightarrow> bt_get (fold (store_package r) qs m) k = Some e" for e
      using bt_get_store_all(2) [OF assms(1,2)] bt_get_store_all(2) [OF assms(1,3)] assms(4) by simp
    then show "bt_get (fold (store_package r) ps m) k = bt_get (fold (store_package r) qs m) k"
      by (metis option.exhaust)
  qed
qed (use assms bt_get_store_all(1) in auto)

lemma observe_timeout_idem: "observe_timeout now (observe_timeout now r) = observe_timeout now r"
  by (simp add: observe_timeout_def Let_def)

lemma submit_observe: "submit p now (observe_timeout now r) = submit p now r"
  by (simp add: submit_def observe_timeout_idem)

lemma submit_all_set:
  assumes "lockstep_inv r" "distinct (map tp_play ps)" "distinct (map tp_play qs)" "set ps = set qs"
  shows "submit_all ps now r = submit_all qs now r"
proof (cases "lr_timed_out (observe_timeout now r)")
  case None
  then show ?thesis
    using fold_store_set [of "lr_pending r" ps qs r] assms
    by (simp add: submit_all_store lockstep_inv_def)
next
  case (Some t)
  show ?thesis
  proof (cases "ps = []")
    case False
    then obtain p ps' q qs' where "ps = p # ps'" "qs = q # qs'"
      using assms(4) by (metis list.exhaust set_empty)
    then show ?thesis
      using submit_timed_out [OF Some] submit_all_timed_out [OF Some]
        submit_observe [of _ now r]
      by (simp add: submit_all_def)
  qed (use assms(4) in simp)
qed

section \<open>Properties\<close>

text \<open>
  C1: In every state the runner can reach from its creation by submissions, status queries, commits
  and membership changes, in any order and at any times: the participants are distinct valid slots in
  order; each pending package is one of theirs, for the expected stamp, with the checksums it decodes
  to; a recorded timeout names exactly the packages that are there and those that are missing; and the
  committed turns carry consecutive stamps, the epochs consecutive numbers.
\<close>

theorem lockstep_invariant:
  assumes "reach lockstep_init lockstep_step r"
  shows "lockstep_inv r"
  using assms by (rule lockstep.reach_inv)

definition sample_runner :: lockstep_runner where
  "sample_runner = \<lparr>lr_game_key = 12345, lr_timeout_ms = 1000, lr_epoch = 0, lr_expected_stamp = 6,
     lr_deadline_ms = 1000, lr_participants = [I8 0, I8 1], lr_pending = [], lr_timed_out = None,
     lr_evidence = [EpochEvidence 0 Initial 6 [I8 0, I8 1]]\<rparr>"

definition sample_package :: "i8 \<Rightarrow> turn_package" where
  "sample_package play = seal_package 6 play [checksum_command (replicate 16 0)] 12345"

lemmas i8_eval = less_i8_def less_eq_i8_def i8_val_def

lemma sample_runner_new: "lockstep_new 12345 [I8 1, I8 0] 6 0 1000 = Inr sample_runner"
  by (simp add: lockstep_new_def normalize_participants_def sample_runner_def i8_eval MAX_PLAYERS_def
      saturating_add_def)

lemma sample_runner_reach: "reach lockstep_init lockstep_step sample_runner"
  by (rule reach_init, unfold lockstep_init_def) (use sample_runner_new in blast)

theorem lockstep_invariant_witness: "lockstep_inv sample_runner"
  by (rule lockstep_invariant [OF sample_runner_reach])

lemma reach_submit_all:
  "reach lockstep_init lockstep_step r \<Longrightarrow> reach lockstep_init lockstep_step (submit_all ps now r)"
proof (induction ps arbitrary: r)
  case (Cons p ps)
  then show ?case
    using reach_step [OF Cons.prems step_submit] by (simp add: submit_all_def)
qed (simp add: submit_all_def)

definition sample_entry :: "i8 \<Rightarrow> pending_package" where
  "sample_entry play = \<lparr>pp_package = sample_package play, pp_checksums = replicate 16 0\<rparr>"

definition sample_ready :: lockstep_runner where
  "sample_ready = sample_runner\<lparr>lr_pending := [(I8 0, sample_entry (I8 0)), (I8 1, sample_entry (I8 1))]\<rparr>"

lemma sample_package_play: "tp_play (sample_package play) = play" "tp_stamp (sample_package play) = 6"
  by (simp_all add: sample_package_def seal_package_def)

lemma acceptable_sample:
  "play \<in> {I8 0, I8 1} \<Longrightarrow> acceptable sample_runner (sample_package play) = Some (sample_entry play)"
  using decode_seal_checksum [OF checksums_ok_zero, of 6 play 12345]
  by (auto simp: acceptable_def sample_package_play sample_entry_def) (auto simp: sample_package_def sample_runner_def)

lemma sample_no_timeout: "lr_timed_out (observe_timeout 1 sample_runner) = None"
  by (simp add: observe_timeout_def sample_runner_def)

lemma sample_ready_eq:
  "submit_all [sample_package (I8 0), sample_package (I8 1)] 1 sample_runner = sample_ready"
proof -
  have "lr_pending sample_runner = []" by (simp add: sample_runner_def)
  moreover have "store_package sample_runner (sample_package (I8 0)) [] = [(I8 0, sample_entry (I8 0))]"
    by (simp add: store_package_def acceptable_sample sample_package_play)
  moreover have "store_package sample_runner (sample_package (I8 1)) [(I8 0, sample_entry (I8 0))] =
      [(I8 0, sample_entry (I8 0)), (I8 1, sample_entry (I8 1))]"
    by (simp add: store_package_def acceptable_sample sample_package_play bt_get_def i8_eval)
  ultimately show ?thesis
    using submit_all_store [OF lockstep.reach_inv [OF sample_runner_reach] sample_no_timeout]
    by (simp add: sample_ready_def)
qed

lemma sample_ready_reach: "reach lockstep_init lockstep_step sample_ready"
  using reach_submit_all [OF sample_runner_reach, of "[sample_package (I8 0), sample_package (I8 1)]" 1]
  by (simp add: sample_ready_eq)

lemma sample_ready_missing: "missing sample_ready = []"
  by (simp add: missing_def sample_ready_def sample_runner_def bt_contains_key_iff bt_keys_def)

text \<open>
  C2: Committing never panics, and it succeeds exactly when no participant's package is missing and the
  stamp can be advanced; in particular a turn that is complete cannot be lost to the deadline.
\<close>

theorem commit_ready_iff:
  assumes "reach lockstep_init lockstep_step r"
  shows "commit_ready now r \<noteq> None \<and>
    ((\<exists>turn r'. commit_ready now r = Some (Inr turn, r')) \<longleftrightarrow>
     missing r = [] \<and> unat (lr_expected_stamp r) + 1 < 2 ^ 32)"
proof -
  have inv: "lockstep_inv r" using assms by (rule lockstep.reach_inv)
  have c: "checked_add (lr_expected_stamp r) 1 = None \<longleftrightarrow> \<not> unat (lr_expected_stamp r) + 1 < 2 ^ 32"
    by (simp add: checked_add_def)
  show ?thesis
  proof (cases "missing r = [] \<and> unat (lr_expected_stamp r) + 1 < 2 ^ 32")
    case True
    then obtain n where "checked_add (lr_expected_stamp r) 1 = Some n" using c by blast
    then show ?thesis using commit_ready_ok [OF inv] True by fastforce
  next
    case False
    have "\<nexists>turn r'. commit_ready now r = Some (Inr turn, r')"
      using False c commit_ready_committed(1,2) [OF inv] by (metis option.distinct(1))
    moreover have "commit_ready now r \<noteq> None"
      using False c by (auto simp: commit_ready_def Let_def split: option.splits)
    ultimately show ?thesis using False by simp
  qed
qed

theorem commit_ready_iff_witness:
  "\<exists>turn r'. commit_ready 5000 sample_ready = Some (Inr turn, r')"
  using commit_ready_iff [OF sample_ready_reach, of 5000] sample_ready_missing
  by (simp add: sample_ready_def sample_runner_def)

text \<open>
  C3: A committed turn holds one package of every participant, in slot order, under the expected stamp
  and the current epoch; it is appended to the evidence, the stamp advances by one, the pending
  packages are cleared, and the checksums agree exactly if all packages carry the same ones.
\<close>

theorem commit_ready_turn:
  assumes "reach lockstep_init lockstep_step r" and "commit_ready now r = Some (Inr turn, r')"
  shows "map pe_play (te_packages turn) = lr_participants r \<and>
    te_stamp turn = lr_expected_stamp r \<and> te_epoch turn = lr_epoch r \<and>
    lr_evidence r' = lr_evidence r @ [TurnEvidence turn] \<and>
    unat (lr_expected_stamp r') = Suc (unat (lr_expected_stamp r)) \<and>
    lr_pending r' = [] \<and> lr_participants r' = lr_participants r \<and> lr_epoch r' = lr_epoch r \<and>
    (checksums_agree turn \<longleftrightarrow>
       (\<forall>p\<in>set (te_packages turn). \<forall>q\<in>set (te_packages turn). pe_checksums p = pe_checksums q))"
proof -
  have inv: "lockstep_inv r" using assms(1) by (rule lockstep.reach_inv)
  note c = commit_ready_committed [OF inv assms(2)]
  have "TurnEvidence turn \<in> set (lr_evidence r')" by (subst c(8)) simp
  then have "turn_ok turn"
    using lockstep_inv_commit [OF inv assms(2)] by (simp add: lockstep_inv_def history_ok_def)
  then have "checksums_agree turn \<longleftrightarrow>
      (\<forall>p\<in>set (te_packages turn). \<forall>q\<in>set (te_packages turn). pe_checksums p = pe_checksums q)"
    by (simp add: checksums_agree_def turn_ok_def)
  moreover have "unat (lr_expected_stamp r') = Suc (unat (lr_expected_stamp r))"
    by (rule checked_succ [OF c(2)])
  moreover have "lr_evidence r' = lr_evidence r @ [TurnEvidence turn]" "lr_pending r' = []"
      "lr_participants r' = lr_participants r" "lr_epoch r' = lr_epoch r"
    by (subst c(8), simp)+
  ultimately show ?thesis using c(3,4,6) by blast
qed

theorem commit_ready_turn_witness:
  "\<exists>turn r'. commit_ready 5000 sample_ready = Some (Inr turn, r') \<and> map pe_play (te_packages turn) = [I8 0, I8 1]"
proof -
  obtain turn r' where c: "commit_ready 5000 sample_ready = Some (Inr turn, r')"
    using commit_ready_ok [OF lockstep.reach_inv [OF sample_ready_reach] sample_ready_missing, of 7 5000]
    by (auto simp: checked_add_def sample_ready_def sample_runner_def)
  then show ?thesis
    using commit_ready_turn [OF sample_ready_reach c] by (auto simp: sample_ready_def sample_runner_def)
qed



lemma mem_turn_differences:
  "d \<in> set (turn_differences ref e m) \<longleftrightarrow>
     (\<exists>play p c. (play, p) \<in> set m \<and> play \<noteq> ref \<and> c < 16 \<and> e ! c \<noteq> pp_checksums p ! c \<and>
        d = \<lparr>cd_channel = c, cd_reference_play = ref, cd_reference = e ! c,
             cd_divergent_play = play, cd_divergent = pp_checksums p ! c\<rparr>)"
  by (auto simp: turn_differences_def channel_differences_def split: if_splits)

text \<open>
  C5: The differences of a committed turn are exactly the channels on which a participant's checksum
  departs from that of the lowest slot, with both values: none is invented and none is missed.
\<close>

theorem desync_report_exact:
  assumes "reach lockstep_init lockstep_step r" and "commit_ready now r = Some (Inr turn, r')"
  shows "d \<in> set (te_differences turn) \<longleftrightarrow>
    (\<exists>p\<in>set (te_packages turn). \<exists>c<16.
       pe_checksums (hd (te_packages turn)) ! c \<noteq> pe_checksums p ! c \<and>
       d = \<lparr>cd_channel = c, cd_reference_play = pe_play (hd (te_packages turn)),
            cd_reference = pe_checksums (hd (te_packages turn)) ! c,
            cd_divergent_play = pe_play p, cd_divergent = pe_checksums p ! c\<rparr>)"
proof -
  have inv: "lockstep_inv r" using assms(1) by (rule lockstep.reach_inv)
  note c = commit_ready_committed [OF inv assms(2)]
  have keys: "bt_keys (lr_pending r) = lr_participants r" using ready_keys [OF inv c(1)] .
  then obtain k0 rp ms where m: "lr_pending r = (k0, rp) # ms" "lr_participants r = k0 # map fst ms"
    using inv by (cases "lr_pending r") (auto simp: lockstep_inv_def participants_ok_def bt_keys_def)
  have ok: "\<forall>(play, p)\<in>set (lr_pending r). tp_play (pp_package p) = play"
    using inv by (auto simp: lockstep_inv_def pending_ok_def)
  have uniq: "play = k0 \<longleftrightarrow> p = rp" if "(play, p) \<in> set (lr_pending r)" for play p
  proof
    assume "play = k0"
    then have "bt_get (lr_pending r) k0 = Some p"
      using that inv by (simp add: bt_get_mem lockstep_inv_def)
    then show "p = rp" using m by (simp add: bt_get_def)
  next
    assume "p = rp"
    then show "play = k0" using that ok m by auto
  qed
  have diff: "te_differences turn = turn_differences k0 (pp_checksums rp) (lr_pending r)"
    using c(7) m by (simp add: bt_get_def)
  have pk: "set (te_packages turn) = package_evidence_of ` snd ` set (lr_pending r)"
      "hd (te_packages turn) = package_evidence_of rp"
    using c(5) m by (simp_all add: bt_values_def image_image)
  have pe: "pe_checksums (package_evidence_of q) = pp_checksums q"
      "pe_play (package_evidence_of q) = tp_play (pp_package q)" for q
    by (simp_all add: package_evidence_of_def)
  show ?thesis
  proof
    assume "d \<in> set (te_differences turn)"
    then obtain play q c where q: "(play, q) \<in> set (lr_pending r)" "play \<noteq> k0" "c < 16"
        "pp_checksums rp ! c \<noteq> pp_checksums q ! c"
        "d = \<lparr>cd_channel = c, cd_reference_play = k0, cd_reference = pp_checksums rp ! c,
              cd_divergent_play = play, cd_divergent = pp_checksums q ! c\<rparr>"
      by (auto simp: diff mem_turn_differences)
    then have "package_evidence_of q \<in> set (te_packages turn)" "tp_play (pp_package q) = play"
        "tp_play (pp_package rp) = k0"
      using ok m pk(1) by force+
    then show "\<exists>p\<in>set (te_packages turn). \<exists>c<16.
       pe_checksums (hd (te_packages turn)) ! c \<noteq> pe_checksums p ! c \<and>
       d = \<lparr>cd_channel = c, cd_reference_play = pe_play (hd (te_packages turn)),
            cd_reference = pe_checksums (hd (te_packages turn)) ! c,
            cd_divergent_play = pe_play p, cd_divergent = pe_checksums p ! c\<rparr>"
      using q by (intro bexI [of _ "package_evidence_of q"] exI [of _ c]) (simp_all add: pk(2) pe)
  next
    assume "\<exists>p\<in>set (te_packages turn). \<exists>c<16.
       pe_checksums (hd (te_packages turn)) ! c \<noteq> pe_checksums p ! c \<and>
       d = \<lparr>cd_channel = c, cd_reference_play = pe_play (hd (te_packages turn)),
            cd_reference = pe_checksums (hd (te_packages turn)) ! c,
            cd_divergent_play = pe_play p, cd_divergent = pe_checksums p ! c\<rparr>"
    then obtain play q c where q: "(play, q) \<in> set (lr_pending r)" "c < 16"
        "pp_checksums rp ! c \<noteq> pp_checksums q ! c"
        "d = \<lparr>cd_channel = c, cd_reference_play = tp_play (pp_package rp), cd_reference = pp_checksums rp ! c,
              cd_divergent_play = tp_play (pp_package q), cd_divergent = pp_checksums q ! c\<rparr>"
      by (auto simp: pk pe)
    moreover have "tp_play (pp_package q) = play" "tp_play (pp_package rp) = k0" using ok m q(1) by auto
    moreover have "play \<noteq> k0" using q uniq by auto
    ultimately show "d \<in> set (te_differences turn)"
      unfolding diff mem_turn_differences by blast
  qed
qed

theorem desync_report_exact_witness:
  "\<exists>turn r'. commit_ready 5000 sample_ready = Some (Inr turn, r') \<and> te_differences turn = []"
proof -
  obtain turn r' where c: "commit_ready 5000 sample_ready = Some (Inr turn, r')"
    using commit_ready_ok [OF lockstep.reach_inv [OF sample_ready_reach] sample_ready_missing, of 7 5000]
    by (auto simp: checked_add_def sample_ready_def sample_runner_def)
  have pk: "te_packages turn = map package_evidence_of [sample_entry (I8 0), sample_entry (I8 1)]"
    using commit_ready_committed(5) [OF lockstep.reach_inv [OF sample_ready_reach] c]
    by (simp add: sample_ready_def bt_values_def)
  have "d \<notin> set (te_differences turn)" for d
    using desync_report_exact [OF sample_ready_reach c, of d] pk
    by (auto simp: package_evidence_of_def sample_entry_def)
  then show ?thesis using c by (metis last_in_set)
qed

text \<open>
  A timeout is final until the membership changes: once it is on record, whatever is submitted,
  committed or asked at whatever time, the answer is that timeout and the state does not change; a
  membership change that is accepted clears it and restarts the deadline.
\<close>

lemma timeout_latched:
  assumes "reach lockstep_init lockstep_step r" and "lr_timed_out r = Some t"
  shows "submit package now r = (Inl (TurnTimedOut t), r) \<and>
    commit_ready now r = Some (Inl (TurnTimedOut t), r) \<and> status now r = (TimedOut t, r) \<and>
    (fst (begin_epoch ps cause now r) = Inr e \<longrightarrow>
       lr_timed_out (snd (begin_epoch ps cause now r)) = None \<and>
       lr_deadline_ms (snd (begin_epoch ps cause now r)) = saturating_add now (lr_timeout_ms r))"
proof -
  have inv: "lockstep_inv r" using assms(1) by (rule lockstep.reach_inv)
  have o: "observe_timeout now r = r" using assms(2) by (simp add: observe_timeout_def)
  have "length (lr_pending r) \<noteq> length (lr_participants r)"
    using inv assms(2) missing_Nil_iff [OF inv] by (auto simp: lockstep_inv_def timeout_ok_def)
  then have "status now r = (TimedOut t, r)" using assms(2) o by (simp add: status_def)
  moreover have "commit_ready now r = Some (Inl (TurnTimedOut t), r)"
    using assms(2) o by (simp add: commit_ready_def)
  moreover have "fst (begin_epoch ps cause now r) = Inr e \<longrightarrow>
       lr_timed_out (snd (begin_epoch ps cause now r)) = None \<and>
       lr_deadline_ms (snd (begin_epoch ps cause now r)) = saturating_add now (lr_timeout_ms r)"
    by (auto simp: begin_epoch_def split: sum.splits option.splits)
  ultimately show ?thesis using submit_timed_out [OF assms(2)] by blast
qed

lemma sample_late:
  obtains r t where "reach lockstep_init lockstep_step r" "lr_timed_out r = Some t" "tt_missing t = [I8 0, I8 1]"
proof -
  let ?r = "snd (status 1000 sample_runner)"
  have "\<exists>t. lr_timed_out ?r = Some t \<and> tt_missing t = [I8 0, I8 1]"
    by (simp add: status_def observe_timeout_def sample_runner_def missing_def bt_contains_key_def Let_def)
  then show thesis using that reach_step [OF sample_runner_reach step_status [of _ 1000]] by blast
qed

lemma timeout_latched_witness:
  "\<exists>r t. lr_timed_out r = Some t \<and> submit (sample_package (I8 0)) 2000 r = (Inl (TurnTimedOut t), r)"
proof -
  obtain r t where r: "reach lockstep_init lockstep_step r" "lr_timed_out r = Some t"
    by (rule sample_late)
  then show ?thesis using timeout_latched [OF r, of "sample_package (I8 0)" 2000] by blast
qed

text \<open>
  A membership change keeps the clock and the packages of those who stay: the expected stamp does
  not move, the epoch counts up by one, and if everyone who stays had submitted, the turn that was
  waiting for the others commits at once, at any later time.
\<close>

lemma membership_change_resumes:
  assumes "reach lockstep_init lockstep_step r" and "begin_epoch ps cause now r = (Inr e, r')"
  shows "lr_expected_stamp r' = lr_expected_stamp r \<and> unat (lr_epoch r') = Suc (unat (lr_epoch r)) \<and>
    set (lr_participants r') = set ps \<and>
    (\<forall>k. bt_get (lr_pending r') k = (if k \<in> set ps then bt_get (lr_pending r) k else None)) \<and>
    (set ps \<subseteq> set (bt_keys (lr_pending r)) \<and> unat (lr_expected_stamp r) + 1 < 2 ^ 32 \<longrightarrow>
       (\<exists>turn r''. commit_ready now' r' = Some (Inr turn, r'')))"
proof -
  obtain qs where n: "normalize_participants ps = Inr qs" "checked_add (lr_epoch r) 1 = Some e"
      and r': "r' = r\<lparr>lr_epoch := e, lr_pending := bt_retain (\<lambda>play. binary_search qs play) (lr_pending r),
        lr_participants := qs, lr_timed_out := None,
        lr_deadline_ms := saturating_add now (lr_timeout_ms r),
        lr_evidence := lr_evidence r @ [EpochEvidence e cause (lr_expected_stamp r) qs]\<rparr>"
    using assms(2) by (auto simp: begin_epoch_def split: sum.splits option.splits)
  have qs: "set qs = set ps" "sorted qs" using n(1) by (auto simp: normalize_participants_iff)
  have inv: "lockstep_inv r'"
    using lockstep_inv_begin_epoch [OF lockstep.reach_inv [OF assms(1)], of ps cause now] assms(2) by simp
  have get: "bt_get (lr_pending r') k = (if k \<in> set ps then bt_get (lr_pending r) k else None)" for k
    using binary_search_sorted [OF qs(2)] qs(1) by (simp add: r' bt_get_retain)
  have "\<exists>turn r''. commit_ready now' r' = Some (Inr turn, r'')"
    if "set ps \<subseteq> set (bt_keys (lr_pending r))" "unat (lr_expected_stamp r) + 1 < 2 ^ 32"
  proof -
    have "missing r' = []"
      using that(1) get qs(1)
      by (auto simp: missing_Nil_subset r' bt_contains_key_iff [symmetric] bt_contains_key_def)
    moreover have "checked_add (lr_expected_stamp r') 1 = Some (lr_expected_stamp r' + 1)"
      using that(2) by (simp add: checked_add_def r')
    ultimately show ?thesis by (rule commit_ready_ok [OF inv])
  qed
  then show ?thesis using get qs(1) checked_succ [OF n(2)] by (simp add: r')
qed

lemma sample_half: "submit_all [sample_package (I8 0)] 1 sample_runner =
    sample_runner\<lparr>lr_pending := [(I8 0, sample_entry (I8 0))]\<rparr>"
proof -
  have "lr_pending sample_runner = []" by (simp add: sample_runner_def)
  then show ?thesis
    using submit_all_store [OF lockstep.reach_inv [OF sample_runner_reach] sample_no_timeout]
    by (simp add: store_package_def acceptable_sample sample_package_play)
qed

lemma membership_change_resumes_witness:
  "\<exists>turn r''. commit_ready 4000
     (snd (begin_epoch [I8 0] Drop 2000 (submit_all [sample_package (I8 0)] 1 sample_runner))) = Some (Inr turn, r'')"
proof -
  let ?r = "submit_all [sample_package (I8 0)] 1 sample_runner"
  have "fst (begin_epoch [I8 0] Drop 2000 ?r) = Inr 1"
    unfolding sample_half
    by (simp add: begin_epoch_def normalize_participants_def i8_eval MAX_PLAYERS_def checked_add_def sample_runner_def)
  then have b: "begin_epoch [I8 0] Drop 2000 ?r = (Inr 1, snd (begin_epoch [I8 0] Drop 2000 ?r))"
    by (simp add: prod_eq_iff)
  have "set [I8 0] \<subseteq> set (bt_keys (lr_pending ?r)) \<and> unat (lr_expected_stamp ?r) + 1 < 2 ^ 32"
    unfolding sample_half by (simp add: bt_keys_def sample_runner_def)
  then show ?thesis
    using membership_change_resumes [OF reach_submit_all [OF sample_runner_reach] b, of 4000] by blast
qed

text \<open>
  An accepted package can be sent again without effect, and a different package for the same slot
  and stamp is refused without effect, as long as the turn has not timed out in between.
\<close>

lemma resubmission:
  assumes "reach lockstep_init lockstep_step r" and "submit p now r = (Inr (Accepted ms), r')"
    and "lr_timed_out (observe_timeout now' r') = None"
    and "tp_play q = tp_play p" and "tp_stamp q = tp_stamp p"
  shows "submit q now' r' =
    (if q = p then Inr Duplicate else Inl (DuplicateConflict (tp_stamp q) (tp_play q)), r')"
proof (cases p now r rule: submit_cases)
  case (kept res)
  then show ?thesis using assms(2) by auto
next
  case (stored d)
  have wf: "bt_wf (lr_pending r)" using lockstep.reach_inv [OF assms(1)] by (simp add: lockstep_inv_def)
  have r': "r' = (observe_timeout now r)\<lparr>lr_pending := bt_insert (tp_play p)
      \<lparr>pp_package = p, pp_checksums = dr_checksums d\<rparr> (lr_pending r)\<rparr>"
    using stored(6) assms(2) by simp
  have o: "observe_timeout now' r' = r'"
    using assms(3) by (auto simp: observe_timeout_def Let_def split: if_splits)
  have get: "bt_get (lr_pending r') (tp_play q) = Some \<lparr>pp_package = p, pp_checksums = dr_checksums d\<rparr>"
    using assms(4) bt.get_insert [OF wf] by (simp add: r')
  have "tp_stamp q = lr_expected_stamp r'" "binary_search (lr_participants r') (tp_play q)"
    using stored(2,3) assms(4,5) by (simp_all add: r')
  then show ?thesis using get o assms(3) by (simp add: submit_def)
qed

lemma resubmission_witness:
  "submit (sample_package (I8 0)) 2 (submit_all [sample_package (I8 0)] 1 sample_runner) =
   (Inr Duplicate, submit_all [sample_package (I8 0)] 1 sample_runner)"
proof -
  let ?r = "submit_all [sample_package (I8 0)] 1 sample_runner"
  have o: "observe_timeout 1 sample_runner = sample_runner"
    by (simp add: observe_timeout_def sample_runner_def)
  have "\<exists>ms. submit (sample_package (I8 0)) 1 sample_runner = (Inr (Accepted ms), ?r)"
  proof (cases "sample_package (I8 0)" "1 :: u64" sample_runner rule: submit_cases)
    case (kept res)
    then have "?r = sample_runner" using o by (simp add: submit_all_def)
    then show ?thesis unfolding sample_half by (auto dest: arg_cong [where f = lr_pending] simp: sample_runner_def)
  next
    case (stored d)
    then show ?thesis by (metis prod.collapse fold_simps submit_all_def)
  qed
  then obtain ms where s: "submit (sample_package (I8 0)) 1 sample_runner = (Inr (Accepted ms), ?r)" by blast
  have "lr_timed_out (observe_timeout 2 ?r) = None"
    unfolding sample_half by (simp add: observe_timeout_def sample_runner_def)
  from resubmission [OF sample_runner_reach s this refl refl] show ?thesis by simp
qed

end
