(* ===== verification/Evidence.thy ===== *)
theory Evidence
  imports Lockstep
begin

text \<open>
  Persisted lockstep transcripts, \<^verbatim>\<open>src/crates/don-net/src/evidence.rs\<close>: the binary form of a recorded
  match, its reader over a cursor, and the replay that reading performs. The replay drives the runner
  of theory \<open>Lockstep\<close>.
\<close>

section \<open>Data\<close>

definition LOCKSTEP_EVIDENCE_MAGIC :: "u8 list" where
  "LOCKSTEP_EVIDENCE_MAGIC = ascii_bytes ''DONLSTP'' @ [0]"
definition LOCKSTEP_EVIDENCE_VERSION :: u16 where "LOCKSTEP_EVIDENCE_VERSION = 1"
definition MAX_LOCKSTEP_EVIDENCE_BYTES :: nat where "MAX_LOCKSTEP_EVIDENCE_BYTES = 8 * 1024 * 1024"
definition MAX_LOCKSTEP_ACTIONS :: nat where "MAX_LOCKSTEP_ACTIONS = 65536"
definition MAX_LOCKSTEP_OUTCOME_BYTES :: nat where "MAX_LOCKSTEP_OUTCOME_BYTES = 4 * 1024 * 1024"
definition HEADER_LEN :: nat where "HEADER_LEN = 40"
definition RECORD_INITIAL :: u8 where "RECORD_INITIAL = 1"
definition RECORD_EPOCH :: u8 where "RECORD_EPOCH = 2"
definition RECORD_PACKAGE :: u8 where "RECORD_PACKAGE = 3"
definition RECORD_OBSERVE_DEADLINE :: u8 where "RECORD_OBSERVE_DEADLINE = 4"
definition RECORD_COMMIT :: u8 where "RECORD_COMMIT = 5"

lemmas RECORD_defs = RECORD_INITIAL_def RECORD_EPOCH_def RECORD_PACKAGE_def RECORD_OBSERVE_DEADLINE_def
  RECORD_COMMIT_def

text \<open>\<^verbatim>\<open>usize::MAX\<close> of a 64-bit target.\<close>

definition USIZE_MAX :: nat where "USIZE_MAX = 2 ^ 64 - 1"

record epoch_member =
  em_play :: i8
  em_unique_id :: i32

datatype replay_action =
    InitialAction u64 u32 "epoch_member list"
  | EpochAction u64 epoch_cause "epoch_member list"
  | PackageAction u64 turn_package
  | ObserveDeadline u64
  | CommitAction u64

fun at_ms :: "replay_action \<Rightarrow> u64" where
  "at_ms (InitialAction t _ _) = t"
| "at_ms (EpochAction t _ _) = t"
| "at_ms (PackageAction t _) = t"
| "at_ms (ObserveDeadline t) = t"
| "at_ms (CommitAction t) = t"

record replayed_lockstep =
  rl_outcome_json :: rust_string
  rl_outcome_fnv1a64 :: u64
  rl_next_stamp :: u32
  rl_final_epoch :: u32
  rl_evidence :: "lockstep_evidence list"

record persisted_transcript =
  pt_game_key :: u32
  pt_timeout_ms :: u64
  pt_actions :: "replay_action list"
  pt_outcome_json :: rust_string
  pt_outcome_fnv1a64 :: u64

datatype evidence_error =
    TranscriptTooLarge nat
  | TooManyActions nat
  | OutcomeTooLarge nat
  | BadMagic
  | UnsupportedVersion u16
  | NonzeroFlags u16
  | Truncated nat nat
  | Trailing nat
  | UnknownRecord u8
  | MalformedRecord u8 nat
  | PackageTooLarge nat
  | InvalidEpochCause u8
  | InitialNotFirst
  | MissingInitial
  | InitialCauseAfterStart
  | NoncanonicalMembers
  | NonMonotonicTime nat u64 u64
  | OutcomeNotUtf8
  | OutcomeHashMismatch u64 u64
  | ReplayOutcomeMismatch
  | ReplayError nat lockstep_error

section \<open>Replay\<close>

definition validate_members :: "epoch_member list \<Rightarrow> (unit, evidence_error) result" where
  "validate_members members =
     (if members = [] \<or> 8 < length members
         \<or> list_ex (\<lambda>m. \<not> (I8 0 \<le> em_play m \<and> em_play m < I8 8) \<or> em_unique_id m = 0) members
         \<or> list_ex (\<lambda>i. em_play (members ! (i + 1)) \<le> em_play (members ! i)) [0..<length members - 1]
         \<or> list_ex (\<lambda>i. list_ex (\<lambda>prior. em_unique_id prior = em_unique_id (members ! i)) (take i members))
             [0..<length members]
      then Inl NoncanonicalMembers else Inr ())"

text \<open>
  One action after the first, at its index. The commit of the runner is the only call that could
  panic, which is \<^const>\<open>None\<close>.
\<close>

fun execute_action ::
    "nat \<Rightarrow> replay_action \<Rightarrow> lockstep_runner \<Rightarrow> (lockstep_runner, evidence_error) result option" where
  "execute_action i (InitialAction _ _ _) r = Some (Inl InitialNotFirst)"
| "execute_action i (EpochAction t cause members) r =
     Some (if cause = Initial then Inl InitialCauseAfterStart
           else case validate_members members of
             Inl e \<Rightarrow> Inl e
           | Inr _ \<Rightarrow>
               (case begin_epoch (map em_play members) cause t r of
                  (Inl e, _) \<Rightarrow> Inl (ReplayError i e)
                | (Inr _, r') \<Rightarrow> Inr r'))"
| "execute_action i (PackageAction t package) r =
     Some (if 512 < length (tp_payload package) then Inl (PackageTooLarge (length (tp_payload package)))
           else case submit package t r of
             (Inl e, _) \<Rightarrow> Inl (ReplayError i e)
           | (Inr _, r') \<Rightarrow> Inr r')"
| "execute_action i (ObserveDeadline t) r = Some (Inr (snd (status t r)))"
| "execute_action i (CommitAction t) r =
     (case commit_ready t r of
        None \<Rightarrow> None
      | Some (Inl e, _) \<Rightarrow> Some (Inl (ReplayError i e))
      | Some (Inr _, r') \<Rightarrow> Some (Inr r'))"

fun execute_from ::
    "nat \<Rightarrow> u64 \<Rightarrow> replay_action list \<Rightarrow> lockstep_runner \<Rightarrow> (lockstep_runner, evidence_error) result option" where
  "execute_from i previous_ms [] r = Some (Inr r)"
| "execute_from i previous_ms (a # as) r =
     (if at_ms a < previous_ms then Some (Inl (NonMonotonicTime i previous_ms (at_ms a)))
      else case execute_action i a r of
        None \<Rightarrow> None
      | Some (Inl e) \<Rightarrow> Some (Inl e)
      | Some (Inr r') \<Rightarrow> execute_from (i + 1) (at_ms a) as r')"

definition replay_result :: "lockstep_runner \<Rightarrow> replayed_lockstep" where
  "replay_result r =
     (let json = to_rust_string (export_json r)
      in \<lparr>rl_outcome_json = json, rl_outcome_fnv1a64 = fnv1a64 (as_bytes json),
          rl_next_stamp = lr_expected_stamp r, rl_final_epoch = lr_epoch r, rl_evidence = lr_evidence r\<rparr>)"

definition execute ::
    "u32 \<Rightarrow> u64 \<Rightarrow> replay_action list \<Rightarrow> (replayed_lockstep, evidence_error) result option" where
  "execute game_key timeout_ms actions =
     (if MAX_LOCKSTEP_ACTIONS < length actions then Some (Inl (TooManyActions (length actions)))
      else case actions of
        InitialAction t first_stamp members # rest \<Rightarrow>
          (case validate_members members of
             Inl e \<Rightarrow> Some (Inl e)
           | Inr _ \<Rightarrow>
               (case lockstep_new game_key (map em_play members) first_stamp t timeout_ms of
                  Inl e \<Rightarrow> Some (Inl (ReplayError 0 e))
                | Inr r \<Rightarrow> map_option (map_sum id replay_result) (execute_from 1 t rest r)))
      | _ \<Rightarrow> Some (Inl MissingInitial))"

fun package_too_large :: "replay_action \<Rightarrow> bool" where
  "package_too_large (PackageAction _ package) \<longleftrightarrow> 512 < length (tp_payload package)"
| "package_too_large _ \<longleftrightarrow> False"

fun action_payload_len :: "replay_action \<Rightarrow> nat" where
  "action_payload_len (PackageAction _ package) = length (tp_payload package)"
| "action_payload_len _ = 0"

definition validate_bounds :: "persisted_transcript \<Rightarrow> (unit, evidence_error) result" where
  "validate_bounds t =
     (if MAX_LOCKSTEP_ACTIONS < length (pt_actions t) then Inl (TooManyActions (length (pt_actions t)))
      else if MAX_LOCKSTEP_OUTCOME_BYTES < length (as_bytes (pt_outcome_json t))
      then Inl (OutcomeTooLarge (length (as_bytes (pt_outcome_json t))))
      else case find package_too_large (pt_actions t) of
        Some a \<Rightarrow> Inl (PackageTooLarge (action_payload_len a))
      | None \<Rightarrow> Inr ())"

definition record_transcript ::
    "u32 \<Rightarrow> u64 \<Rightarrow> replay_action list \<Rightarrow> (persisted_transcript, evidence_error) result option" where
  "record_transcript game_key timeout_ms actions =
     (case execute game_key timeout_ms actions of
        None \<Rightarrow> None
      | Some (Inl e) \<Rightarrow> Some (Inl e)
      | Some (Inr r) \<Rightarrow>
          let t = \<lparr>pt_game_key = game_key, pt_timeout_ms = timeout_ms, pt_actions = actions,
                   pt_outcome_json = rl_outcome_json r, pt_outcome_fnv1a64 = rl_outcome_fnv1a64 r\<rparr>
          in Some (map_sum id (\<lambda>_. t) (validate_bounds t)))"

definition replay :: "persisted_transcript \<Rightarrow> (replayed_lockstep, evidence_error) result option" where
  "replay t =
     (case validate_bounds t of
        Inl e \<Rightarrow> Some (Inl e)
      | Inr _ \<Rightarrow>
          let actual = fnv1a64 (as_bytes (pt_outcome_json t)) in
          if actual \<noteq> pt_outcome_fnv1a64 t
          then Some (Inl (OutcomeHashMismatch (pt_outcome_fnv1a64 t) actual))
          else case execute (pt_game_key t) (pt_timeout_ms t) (pt_actions t) of
            None \<Rightarrow> None
          | Some (Inl e) \<Rightarrow> Some (Inl e)
          | Some (Inr r) \<Rightarrow>
              Some (if rl_outcome_fnv1a64 r \<noteq> pt_outcome_fnv1a64 t \<or> rl_outcome_json r \<noteq> pt_outcome_json t
                    then Inl ReplayOutcomeMismatch else Inr r))"

section \<open>Binary form\<close>

fun encode_cause :: "epoch_cause \<Rightarrow> u8" where
  "encode_cause Initial = 0"
| "encode_cause Drop = 1"
| "encode_cause Reconnect = 2"
| "encode_cause RosterChange = 3"

definition encode_member :: "epoch_member \<Rightarrow> u8 list" where
  "encode_member m = i8_bits (em_play m) # le32 (em_unique_id m)"

definition encode_members :: "epoch_member list \<Rightarrow> (u8 list, evidence_error) result" where
  "encode_members members =
     (if 255 < length members then Inl (MalformedRecord RECORD_EPOCH (length members))
      else Inr (of_nat (length members) # concat (map encode_member members)))"

fun encode_action_payload :: "replay_action \<Rightarrow> (u8 \<times> u8 list, evidence_error) result" where
  "encode_action_payload (InitialAction t first_stamp members) =
     (case encode_members members of
        Inl e \<Rightarrow> Inl e
      | Inr ms \<Rightarrow> Inr (RECORD_INITIAL, le64 t @ le32 first_stamp @ ms))"
| "encode_action_payload (EpochAction t cause members) =
     (if cause = Initial then Inl InitialCauseAfterStart
      else case encode_members members of
        Inl e \<Rightarrow> Inl e
      | Inr ms \<Rightarrow> Inr (RECORD_EPOCH, le64 t @ encode_cause cause # ms))"
| "encode_action_payload (PackageAction t package) =
     (if 512 < length (tp_payload package) then Inl (PackageTooLarge (length (tp_payload package)))
      else Inr (RECORD_PACKAGE,
        le64 t @ le32 (tp_stamp package) @ i8_bits (tp_play package) #
        le16 (of_nat (length (tp_payload package))) @ tp_payload package))"
| "encode_action_payload (ObserveDeadline t) = Inr (RECORD_OBSERVE_DEADLINE, le64 t)"
| "encode_action_payload (CommitAction t) = Inr (RECORD_COMMIT, le64 t)"

definition encode_action :: "replay_action \<Rightarrow> (u8 list, evidence_error) result" where
  "encode_action a =
     (case encode_action_payload a of
        Inl e \<Rightarrow> Inl e
      | Inr (ty, payload) \<Rightarrow> Inr (ty # le32 (of_nat (length payload)) @ payload))"

fun encode_actions :: "replay_action list \<Rightarrow> (u8 list, evidence_error) result" where
  "encode_actions [] = Inr []"
| "encode_actions (a # as) =
     (case encode_action a of
        Inl e \<Rightarrow> Inl e
      | Inr r \<Rightarrow> (case encode_actions as of Inl e \<Rightarrow> Inl e | Inr rs \<Rightarrow> Inr (r @ rs)))"

definition transcript_header :: "persisted_transcript \<Rightarrow> u8 list" where
  "transcript_header t =
     LOCKSTEP_EVIDENCE_MAGIC @ le16 LOCKSTEP_EVIDENCE_VERSION @ le16 0 @
     le32 (of_nat (length (pt_actions t))) @ le32 (of_nat (length (as_bytes (pt_outcome_json t)))) @
     le64 (pt_outcome_fnv1a64 t) @ le32 (pt_game_key t) @ le64 (pt_timeout_ms t)"

definition transcript_encode :: "persisted_transcript \<Rightarrow> (u8 list, evidence_error) result option" where
  "transcript_encode t =
     (case replay t of
        None \<Rightarrow> None
      | Some (Inl e) \<Rightarrow> Some (Inl e)
      | Some (Inr _) \<Rightarrow> Some (
          case encode_actions (pt_actions t) of
            Inl e \<Rightarrow> Inl e
          | Inr records \<Rightarrow>
              let total = HEADER_LEN + length records + length (as_bytes (pt_outcome_json t)) in
              if USIZE_MAX < total then Inl (TranscriptTooLarge USIZE_MAX)
              else if MAX_LOCKSTEP_EVIDENCE_BYTES < total then Inl (TranscriptTooLarge total)
              else Inr (transcript_header t @ records @ as_bytes (pt_outcome_json t))))"

definition binary_fnv1a64 :: "persisted_transcript \<Rightarrow> (u64, evidence_error) result option" where
  "binary_fnv1a64 t = map_option (map_sum id fnv1a64) (transcript_encode t)"

text \<open>A reader takes the cursor and gives a value and the cursor after it, or an error.\<close>

record cursor =
  cur_bytes :: "u8 list"
  cur_offset :: nat

type_synonym 'a reader = "cursor \<Rightarrow> ('a \<times> cursor, evidence_error) result"

definition rd_return :: "'a \<Rightarrow> 'a reader" where "rd_return x c = Inr (x, c)"
definition rd_fail :: "evidence_error \<Rightarrow> 'a reader" where "rd_fail e c = Inl e"
definition rd_bind :: "'a reader \<Rightarrow> ('a \<Rightarrow> 'b reader) \<Rightarrow> 'b reader" where
  "rd_bind r k c = (case r c of Inl e \<Rightarrow> Inl e | Inr (x, c') \<Rightarrow> k x c')"

definition cursor_new :: "u8 list \<Rightarrow> cursor" where
  "cursor_new bytes = \<lparr>cur_bytes = bytes, cur_offset = 0\<rparr>"

definition cur_remaining :: "cursor \<Rightarrow> nat" where
  "cur_remaining c = length (cur_bytes c) - cur_offset c"

definition cur_take :: "nat \<Rightarrow> u8 list reader" where
  "cur_take len c =
     (if USIZE_MAX < cur_offset c + len then Inl (Truncated USIZE_MAX (cur_remaining c))
      else if length (cur_bytes c) < cur_offset c + len then Inl (Truncated len (cur_remaining c))
      else Inr (bytes_at (cur_bytes c) (cur_offset c) len, c\<lparr>cur_offset := cur_offset c + len\<rparr>))"

definition cur_u8 :: "u8 reader" where "cur_u8 = rd_bind (cur_take 1) (\<lambda>b. rd_return (b ! 0))"
definition cur_u16 :: "u16 reader" where "cur_u16 = rd_bind (cur_take 2) (\<lambda>b. rd_return (from_le b))"
definition cur_u32 :: "u32 reader" where "cur_u32 = rd_bind (cur_take 4) (\<lambda>b. rd_return (from_le b))"
definition cur_u64 :: "u64 reader" where "cur_u64 = rd_bind (cur_take 8) (\<lambda>b. rd_return (from_le b))"

definition decode_cause :: "u8 \<Rightarrow> epoch_cause reader" where
  "decode_cause b =
     (if b = 0 then rd_return Initial else if b = 1 then rd_return Drop
      else if b = 2 then rd_return Reconnect else if b = 3 then rd_return RosterChange
      else rd_fail (InvalidEpochCause b))"

fun read_members :: "nat \<Rightarrow> epoch_member list reader" where
  "read_members 0 = rd_return []"
| "read_members (Suc n) =
     rd_bind cur_u8 (\<lambda>play. rd_bind cur_u32 (\<lambda>u.
     rd_bind (read_members n) (\<lambda>ms. rd_return (\<lparr>em_play = I8 play, em_unique_id = u\<rparr> # ms))))"

definition expect_end :: "u8 \<Rightarrow> unit reader" where
  "expect_end ty c = (if cur_remaining c \<noteq> 0 then Inl (MalformedRecord ty (length (cur_bytes c))) else Inr ((), c))"

definition decode_members :: "u8 \<Rightarrow> epoch_member list reader" where
  "decode_members ty =
     rd_bind cur_u8 (\<lambda>count. rd_bind (read_members (unat count)) (\<lambda>ms.
     rd_bind (expect_end ty) (\<lambda>_. rd_return ms)))"

definition decode_action_body :: "u8 \<Rightarrow> nat \<Rightarrow> replay_action reader" where
  "decode_action_body ty len =
     (if ty = RECORD_INITIAL then
        (if len < 13 then rd_fail (MalformedRecord ty len)
         else rd_bind cur_u64 (\<lambda>t. rd_bind cur_u32 (\<lambda>first_stamp. rd_bind (decode_members ty) (\<lambda>members.
           rd_return (InitialAction t first_stamp members)))))
      else if ty = RECORD_EPOCH then
        (if len < 10 then rd_fail (MalformedRecord ty len)
         else rd_bind cur_u64 (\<lambda>t. rd_bind cur_u8 (\<lambda>b. rd_bind (decode_cause b) (\<lambda>cause.
           rd_bind (decode_members ty) (\<lambda>members. rd_return (EpochAction t cause members))))))
      else if ty = RECORD_PACKAGE then
        (if len < 15 then rd_fail (MalformedRecord ty len)
         else rd_bind cur_u64 (\<lambda>t. rd_bind cur_u32 (\<lambda>stamp. rd_bind cur_u8 (\<lambda>play. rd_bind cur_u16 (\<lambda>payload_len.
           if 512 < unat payload_len then rd_fail (PackageTooLarge (unat payload_len))
           else rd_bind (cur_take (unat payload_len)) (\<lambda>payload.
             rd_return (PackageAction t \<lparr>tp_stamp = stamp, tp_play = I8 play, tp_payload = payload\<rparr>)))))))
      else if ty = RECORD_OBSERVE_DEADLINE then
        (if len \<noteq> 8 then rd_fail (MalformedRecord ty len)
         else rd_bind cur_u64 (\<lambda>t. rd_return (ObserveDeadline t)))
      else if ty = RECORD_COMMIT then
        (if len \<noteq> 8 then rd_fail (MalformedRecord ty len)
         else rd_bind cur_u64 (\<lambda>t. rd_return (CommitAction t)))
      else rd_fail (UnknownRecord ty))"

definition decode_action :: "u8 \<Rightarrow> u8 list \<Rightarrow> (replay_action, evidence_error) result" where
  "decode_action ty bytes =
     map_sum id fst
       (rd_bind (decode_action_body ty (length bytes)) (\<lambda>action. rd_bind (expect_end ty) (\<lambda>_. rd_return action))
         (cursor_new bytes))"

fun read_actions :: "nat \<Rightarrow> replay_action list reader" where
  "read_actions 0 = rd_return []"
| "read_actions (Suc n) =
     rd_bind cur_u8 (\<lambda>ty. rd_bind cur_u32 (\<lambda>len. rd_bind (cur_take (unat len)) (\<lambda>bytes.
       case decode_action ty bytes of
         Inl e \<Rightarrow> rd_fail e
       | Inr a \<Rightarrow> rd_bind (read_actions n) (\<lambda>as. rd_return (a # as)))))"

text \<open>The text at the end, with nothing after it.\<close>

definition read_outcome :: "nat \<Rightarrow> rust_string reader" where
  "read_outcome outcome_len =
     rd_bind (cur_take outcome_len) (\<lambda>outcome c.
       if cur_remaining c \<noteq> 0 then Inl (Trailing (cur_remaining c))
       else case from_utf8 outcome of None \<Rightarrow> Inl OutcomeNotUtf8 | Some json \<Rightarrow> Inr (json, c))"

text \<open>The fixed header: action count, text length, hash, key and timeout.\<close>

definition read_header :: "(u32 \<times> u32 \<times> u64 \<times> u32 \<times> u64) reader" where
  "read_header =
     rd_bind (cur_take 8) (\<lambda>magic. if magic \<noteq> LOCKSTEP_EVIDENCE_MAGIC then rd_fail BadMagic else
     rd_bind cur_u16 (\<lambda>version. if version \<noteq> LOCKSTEP_EVIDENCE_VERSION then rd_fail (UnsupportedVersion version) else
     rd_bind cur_u16 (\<lambda>flags. if flags \<noteq> 0 then rd_fail (NonzeroFlags flags) else
     rd_bind cur_u32 (\<lambda>action_count.
       if MAX_LOCKSTEP_ACTIONS < unat action_count then rd_fail (TooManyActions (unat action_count)) else
     rd_bind cur_u32 (\<lambda>outcome_len.
       if MAX_LOCKSTEP_OUTCOME_BYTES < unat outcome_len then rd_fail (OutcomeTooLarge (unat outcome_len)) else
     rd_bind cur_u64 (\<lambda>hash. rd_bind cur_u32 (\<lambda>game_key. rd_bind cur_u64 (\<lambda>timeout_ms.
     rd_return (action_count, outcome_len, hash, game_key, timeout_ms)))))))))"

definition read_transcript :: "persisted_transcript reader" where
  "read_transcript =
     rd_bind read_header (\<lambda>(action_count, outcome_len, hash, game_key, timeout_ms).
     rd_bind (read_actions (unat action_count)) (\<lambda>actions.
     rd_bind (read_outcome (unat outcome_len)) (\<lambda>json.
       rd_return \<lparr>pt_game_key = game_key, pt_timeout_ms = timeout_ms, pt_actions = actions,
                  pt_outcome_json = json, pt_outcome_fnv1a64 = hash\<rparr>)))"

definition transcript_decode :: "u8 list \<Rightarrow> (persisted_transcript, evidence_error) result option" where
  "transcript_decode bytes =
     (if MAX_LOCKSTEP_EVIDENCE_BYTES < length bytes then Some (Inl (TranscriptTooLarge (length bytes)))
      else case read_transcript (cursor_new bytes) of
        Inl e \<Rightarrow> Some (Inl e)
      | Inr (t, _) \<Rightarrow> map_option (map_sum id (\<lambda>_. t)) (replay t))"

end
