(* ===== verification/Evidence_Codec.thy ===== *)
theory Evidence_Codec
  imports Evidence
begin

text \<open>
  The binary form of a transcript is read back exactly: a cursor reader accepts a value precisely
  when its encoding stands at the cursor. From these equivalences follow that of the whole transcript
  and what its replay promises.
\<close>

section \<open>Cursors\<close>

text \<open>The cursor \<open>c'\<close> is the cursor \<open>c\<close> after the bytes \<open>bs\<close>.\<close>

definition eats :: "cursor \<Rightarrow> u8 list \<Rightarrow> cursor \<Rightarrow> bool" where
  "eats c bs c' \<longleftrightarrow>
     cur_bytes c' = cur_bytes c \<and> cur_offset c' = cur_offset c + length bs \<and>
     cur_offset c' \<le> length (cur_bytes c) \<and> length (cur_bytes c) \<le> USIZE_MAX \<and>
     bytes_at (cur_bytes c) (cur_offset c) (length bs) = bs"

named_theorems reads

lemma eats_append: "eats c (xs @ ys) c'' \<longleftrightarrow> (\<exists>c'. eats c xs c' \<and> eats c' ys c'')"
proof
  assume e: "eats c (xs @ ys) c''"
  then have "eats c xs (c\<lparr>cur_offset := cur_offset c + length xs\<rparr>)"
    "eats (c\<lparr>cur_offset := cur_offset c + length xs\<rparr>) ys c''"
    using bytes_at_add [of "cur_bytes c" "cur_offset c" "length xs" "length ys"]
    by (auto simp: eats_def length_bytes_at)
  then show "\<exists>c'. eats c xs c' \<and> eats c' ys c''" by blast
next
  assume "\<exists>c'. eats c xs c' \<and> eats c' ys c''"
  then show "eats c (xs @ ys) c''"
    using bytes_at_add [of "cur_bytes c" "cur_offset c" "length xs" "length ys"] by (auto simp: eats_def)
qed

definition cur_ok :: "cursor \<Rightarrow> bool" where
  "cur_ok c \<longleftrightarrow> cur_offset c \<le> length (cur_bytes c) \<and> length (cur_bytes c) \<le> USIZE_MAX"

lemma eats_Nil: "eats c [] c' \<longleftrightarrow> c' = c \<and> cur_ok c"
  by (cases c; cases c') (auto simp: eats_def bytes_at_def cur_ok_def)

lemma eats_ok: "eats c bs c' \<Longrightarrow> cur_ok c \<and> cur_ok c'"
  by (auto simp: eats_def cur_ok_def)

lemma rd_bind_iff [reads]:
  "rd_bind r k c = Inr (y, c'') \<longleftrightarrow> (\<exists>x c'. r c = Inr (x, c') \<and> k x c' = Inr (y, c''))"
  by (auto simp: rd_bind_def split: sum.splits)

lemma rd_return_iff [reads]: "rd_return x c = Inr (y, c') \<longleftrightarrow> y = x \<and> c' = c"
  by (auto simp: rd_return_def)

lemma rd_fail_iff [reads]: "rd_fail e c = Inr (y, c') \<longleftrightarrow> False"
  by (simp add: rd_fail_def)

lemma rd_case_iff [reads]:
  "(case x of Inl e \<Rightarrow> rd_fail e | Inr a \<Rightarrow> k a) c = Inr (y, c') \<longleftrightarrow> (\<exists>a. x = Inr a \<and> k a c = Inr (y, c'))"
  by (cases x) (auto simp: rd_fail_def)

lemma rd_if_iff [reads]:
  "(if b then rd_fail e else k) c = Inr (y, c') \<longleftrightarrow> \<not> b \<and> k c = Inr (y, c')"
  by (auto simp: rd_fail_def)

lemma cur_take_iff [reads]:
  assumes "cur_ok c"
  shows "cur_take n c = Inr (bs, c') \<longleftrightarrow> (eats c bs c' \<and> cur_ok c') \<and> length bs = n"
proof -
  have "cur_take n c = Inr (bs, c') \<longleftrightarrow> cur_offset c + n \<le> length (cur_bytes c) \<and>
      bs = bytes_at (cur_bytes c) (cur_offset c) n \<and> c' = c\<lparr>cur_offset := cur_offset c + n\<rparr>"
    using assms by (auto simp: cur_take_def cur_ok_def not_less)
  also have "\<dots> \<longleftrightarrow> eats c bs c' \<and> length bs = n"
    using assms by (cases c; cases c') (auto simp: eats_def cur_ok_def length_bytes_at)
  finally show ?thesis using eats_ok by blast
qed

lemma cur_u8_iff [reads]: "cur_ok c \<Longrightarrow> cur_u8 c = Inr (x, c') \<longleftrightarrow> eats c [x] c' \<and> cur_ok c'"
  by (auto simp: cur_u8_def reads length_Suc_conv)

lemma cur_u16_iff [reads]: "cur_ok c \<Longrightarrow> cur_u16 c = Inr (x, c') \<longleftrightarrow> eats c (le16 x) c' \<and> cur_ok c'"
  by (auto simp: cur_u16_def reads le16_from_le)

lemma cur_u32_iff [reads]: "cur_ok c \<Longrightarrow> cur_u32 c = Inr (x, c') \<longleftrightarrow> eats c (le32 x) c' \<and> cur_ok c'"
  by (auto simp: cur_u32_def reads le32_from_le)

lemma cur_u64_iff [reads]: "cur_ok c \<Longrightarrow> cur_u64 c = Inr (x, c') \<longleftrightarrow> eats c (le64 x) c' \<and> cur_ok c'"
  by (auto simp: cur_u64_def reads le64_from_le)

lemma decode_cause_iff [reads]: "decode_cause b c = Inr (cause, c') \<longleftrightarrow> b = encode_cause cause \<and> c' = c"
  by (cases cause) (auto simp: decode_cause_def reads)

lemma concat_encode_member_eats:
  "eats c (concat (map encode_member (m # ms))) c'' \<longleftrightarrow>
     (\<exists>c1 c2. eats c [i8_bits (em_play m)] c1 \<and> eats c1 (le32 (em_unique_id m)) c2 \<and>
        eats c2 (concat (map encode_member ms)) c'')"
proof -
  have "concat (map encode_member (m # ms)) =
      [i8_bits (em_play m)] @ le32 (em_unique_id m) @ concat (map encode_member ms)"
    by (simp add: encode_member_def)
  then show ?thesis by (simp only: eats_append) blast
qed

lemma read_members_iff [reads]:
  "cur_ok c \<Longrightarrow> read_members n c = Inr (ms, c') \<longleftrightarrow>
     length ms = n \<and> eats c (concat (map encode_member ms)) c' \<and> cur_ok c'"
proof (induction n arbitrary: c ms)
  case 0
  then show ?case by (auto simp: reads eats_Nil)
next
  case (Suc n)
  show ?case
  proof (cases ms)
    case Nil
    then show ?thesis by (simp add: reads)
  next
    case (Cons m ms')
    obtain u play where m: "m = \<lparr>em_play = I8 play, em_unique_id = u\<rparr>"
      by (metis epoch_member.cases i8.exhaust)
    have "read_members (Suc n) c = Inr (ms, c') \<longleftrightarrow>
        (\<exists>c1 c2. eats c [play] c1 \<and> cur_ok c1 \<and> eats c1 (le32 u) c2 \<and> cur_ok c2 \<and>
          read_members n c2 = Inr (ms', c'))"
      using Suc.prems by (simp add: reads Cons m cong: conj_cong) blast
    also have "\<dots> \<longleftrightarrow> (\<exists>c1 c2. eats c [play] c1 \<and> eats c1 (le32 u) c2 \<and>
          length ms' = n \<and> eats c2 (concat (map encode_member ms')) c' \<and> cur_ok c')"
      using Suc.IH eats_ok by blast
    also have "\<dots> \<longleftrightarrow> length ms = Suc n \<and> eats c (concat (map encode_member ms)) c' \<and> cur_ok c'"
      unfolding Cons concat_encode_member_eats m by auto
    finally show ?thesis .
  qed
qed

definition at_end :: "cursor \<Rightarrow> bool" where "at_end c \<longleftrightarrow> cur_remaining c = 0"

lemma expect_end_iff [reads]: "expect_end ty c = Inr (u, c') \<longleftrightarrow> at_end c \<and> c' = c"
  by (auto simp: expect_end_def at_end_def)

definition members_bytes :: "epoch_member list \<Rightarrow> u8 list" where
  "members_bytes ms = [of_nat (length ms)] @ concat (map encode_member ms)"

lemma decode_members_iff [reads]:
  assumes "cur_ok c"
  shows "decode_members ty c = Inr (ms, c') \<longleftrightarrow>
    length ms \<le> 255 \<and> at_end c' \<and> eats c (members_bytes ms) c' \<and> cur_ok c'"
proof -
  have "decode_members ty c = Inr (ms, c') \<longleftrightarrow>
      (\<exists>count c1. eats c [count] c1 \<and> cur_ok c1 \<and> length ms = unat count \<and>
         eats c1 (concat (map encode_member ms)) c' \<and> cur_ok c' \<and> at_end c')"
    using assms by (simp add: decode_members_def reads cong: conj_cong)
  also have "\<dots> \<longleftrightarrow> length ms \<le> 255 \<and> at_end c' \<and> eats c (members_bytes ms) c' \<and> cur_ok c'"
  proof
    assume "\<exists>count c1. eats c [count] c1 \<and> cur_ok c1 \<and> length ms = unat count \<and>
         eats c1 (concat (map encode_member ms)) c' \<and> cur_ok c' \<and> at_end c'"
    then obtain count c1 where a: "eats c [count] c1" "length ms = unat count"
        "eats c1 (concat (map encode_member ms)) c'" "cur_ok c'" "at_end c'" by blast
    then have "unat count < 256" using unsigned_less [of count] by simp
    then have "length ms \<le> 255" using a(2) by linarith
    moreover have "eats c [of_nat (length ms)] c1" using a(1,2) by simp
    ultimately show "length ms \<le> 255 \<and> at_end c' \<and> eats c (members_bytes ms) c' \<and> cur_ok c'"
      unfolding members_bytes_def eats_append using a(3-5) by blast
  next
    assume a: "length ms \<le> 255 \<and> at_end c' \<and> eats c (members_bytes ms) c' \<and> cur_ok c'"
    then obtain c1 where "eats c [of_nat (length ms)] c1" "eats c1 (concat (map encode_member ms)) c'"
      unfolding members_bytes_def eats_append by blast
    moreover have "unat (of_nat (length ms) :: u8) = length ms"
      using a by (simp add: unsigned_of_nat take_bit_nat_eq_self)
    ultimately show "\<exists>count c1. eats c [count] c1 \<and> cur_ok c1 \<and> length ms = unat count \<and>
         eats c1 (concat (map encode_member ms)) c' \<and> cur_ok c' \<and> at_end c'"
      using a eats_ok by metis
  qed
  finally show ?thesis .
qed

section \<open>Actions\<close>

fun action_ok :: "replay_action \<Rightarrow> bool" where
  "action_ok (InitialAction _ _ members) \<longleftrightarrow> length members \<le> 255"
| "action_ok (EpochAction _ _ members) \<longleftrightarrow> length members \<le> 255"
| "action_ok (PackageAction _ p) \<longleftrightarrow> length (tp_payload p) \<le> 512"
| "action_ok _ \<longleftrightarrow> True"

fun action_type :: "replay_action \<Rightarrow> u8" where
  "action_type (InitialAction _ _ _) = RECORD_INITIAL"
| "action_type (EpochAction _ _ _) = RECORD_EPOCH"
| "action_type (PackageAction _ _) = RECORD_PACKAGE"
| "action_type (ObserveDeadline _) = RECORD_OBSERVE_DEADLINE"
| "action_type (CommitAction _) = RECORD_COMMIT"

fun action_bytes :: "replay_action \<Rightarrow> u8 list" where
  "action_bytes (InitialAction t first_stamp members) = le64 t @ le32 first_stamp @ members_bytes members"
| "action_bytes (EpochAction t cause members) = le64 t @ [encode_cause cause] @ members_bytes members"
| "action_bytes (PackageAction t p) =
     le64 t @ le32 (tp_stamp p) @ [i8_bits (tp_play p)] @ le16 (of_nat (length (tp_payload p))) @ tp_payload p"
| "action_bytes (ObserveDeadline t) = le64 t"
| "action_bytes (CommitAction t) = le64 t"

lemma eats_all:
  assumes "length bytes \<le> USIZE_MAX"
  shows "(\<exists>c'. eats (cursor_new bytes) bs c' \<and> at_end c') \<longleftrightarrow> bytes = bs"
proof
  assume "bytes = bs"
  then have "eats (cursor_new bytes) bs \<lparr>cur_bytes = bytes, cur_offset = length bs\<rparr>"
      "at_end \<lparr>cur_bytes = bytes, cur_offset = length bs\<rparr>"
    using assms by (simp_all add: eats_def at_end_def cursor_new_def cur_remaining_def)
  then show "\<exists>c'. eats (cursor_new bytes) bs c' \<and> at_end c'" by blast
qed (auto simp: eats_def at_end_def cursor_new_def cur_remaining_def bytes_at_def)

lemma cur_ok_new: "length bytes \<le> USIZE_MAX \<Longrightarrow> cur_ok (cursor_new bytes)"
  by (simp add: cur_ok_def cursor_new_def)

lemma action_types_distinct [simp]:
  "RECORD_INITIAL \<noteq> RECORD_EPOCH" "RECORD_INITIAL \<noteq> RECORD_PACKAGE" "RECORD_INITIAL \<noteq> RECORD_OBSERVE_DEADLINE"
  "RECORD_INITIAL \<noteq> RECORD_COMMIT" "RECORD_EPOCH \<noteq> RECORD_PACKAGE" "RECORD_EPOCH \<noteq> RECORD_OBSERVE_DEADLINE"
  "RECORD_EPOCH \<noteq> RECORD_COMMIT" "RECORD_PACKAGE \<noteq> RECORD_OBSERVE_DEADLINE" "RECORD_PACKAGE \<noteq> RECORD_COMMIT"
  "RECORD_OBSERVE_DEADLINE \<noteq> RECORD_COMMIT"
  by (simp_all add: RECORD_defs)

declare action_types_distinct [THEN not_sym, simp]

definition len_ok :: "u8 \<Rightarrow> nat \<Rightarrow> bool" where
  "len_ok ty len \<longleftrightarrow>
     (if ty = RECORD_INITIAL then 13 \<le> len else if ty = RECORD_EPOCH then 10 \<le> len
      else if ty = RECORD_PACKAGE then 15 \<le> len else len = 8)"

lemma payload_len_iff: "n = unat (w :: u16) \<and> unat w \<le> 512 \<longleftrightarrow> w = of_nat n \<and> n \<le> 512"
  by (auto simp: unsigned_of_nat take_bit_nat_eq_self)

lemma eats_step:
  "(\<exists>c1. (eats c xs c1 \<and> cur_ok c1) \<and> eats c1 ys c') \<longleftrightarrow> eats c (xs @ ys) c'"
  using eats_append eats_ok by blast

lemma eats_cur_ok: "eats c xs c' \<and> cur_ok c' \<longleftrightarrow> eats c xs c'"
  using eats_ok by blast

lemma decode_initial_iff:
  assumes "cur_ok c"
  shows "rd_bind cur_u64 (\<lambda>t. rd_bind cur_u32 (\<lambda>first_stamp. rd_bind (decode_members ty) (\<lambda>members.
      rd_return (InitialAction t first_stamp members)))) c = Inr (InitialAction t st ms, c') \<longleftrightarrow>
    (length ms \<le> 255 \<and> at_end c') \<and> eats c (le64 t @ le32 st @ members_bytes ms) c'"
  using assms unfolding eats_append by (simp add: reads cong: conj_cong) (use eats_ok in blast)

lemma decode_epoch_iff:
  assumes "cur_ok c"
  shows "rd_bind cur_u64 (\<lambda>t. rd_bind cur_u8 (\<lambda>b. rd_bind (decode_cause b) (\<lambda>cause. rd_bind (decode_members ty) (\<lambda>members.
      rd_return (EpochAction t cause members))))) c = Inr (EpochAction t cause ms, c') \<longleftrightarrow>
    (length ms \<le> 255 \<and> at_end c') \<and> eats c (le64 t @ [encode_cause cause] @ members_bytes ms) c'"
  using assms unfolding eats_append by (simp add: reads cong: conj_cong) (use eats_ok in blast)

lemma decode_package_iff:
  assumes "cur_ok c"
  shows "rd_bind cur_u64 (\<lambda>t. rd_bind cur_u32 (\<lambda>stamp. rd_bind cur_u8 (\<lambda>play. rd_bind cur_u16 (\<lambda>payload_len.
      if 512 < unat payload_len then rd_fail (PackageTooLarge (unat payload_len))
      else rd_bind (cur_take (unat payload_len)) (\<lambda>payload.
        rd_return (PackageAction t \<lparr>tp_stamp = stamp, tp_play = I8 play, tp_payload = payload\<rparr>)))))) c =
      Inr (PackageAction t \<lparr>tp_stamp = stamp, tp_play = I8 play, tp_payload = payload\<rparr>, c') \<longleftrightarrow>
    length payload \<le> 512 \<and> eats c (le64 t @ le32 stamp @ [play] @ le16 (of_nat (length payload)) @ payload) c'"
    (is "?l \<longleftrightarrow> ?r")
proof -
  have "?l \<longleftrightarrow> (\<exists>c1. eats c (le64 t) c1 \<and> cur_ok c1 \<and> (\<exists>c2. eats c1 (le32 stamp) c2 \<and> cur_ok c2 \<and>
      (\<exists>c3. eats c2 [play] c3 \<and> cur_ok c3 \<and> (\<exists>w c4. (eats c3 (le16 w) c4 \<and> cur_ok c4 \<and> eats c4 payload c' \<and> cur_ok c') \<and>
        length payload = unat w \<and> unat w \<le> 512))))"
    using assms by (simp add: reads not_less if_distribR cong: conj_cong if_cong split: if_splits) blast
  also have "\<dots> \<longleftrightarrow> ?r" unfolding payload_len_iff eats_append using eats_ok by blast
  finally show ?thesis .
qed

lemma decode_action_body_iff:
  assumes "cur_ok c"
  shows "(\<exists>c'. decode_action_body ty len c = Inr (a, c') \<and> at_end c') \<longleftrightarrow>
    ty = action_type a \<and> len_ok ty len \<and> action_ok a \<and> (\<exists>c'. eats c (action_bytes a) c' \<and> at_end c')"
proof -
  have last: "rd_bind cur_u64 (\<lambda>t. rd_return (f t)) c = Inr (y, c') \<longleftrightarrow> (\<exists>t. y = f t \<and> eats c (le64 t) c')"
    for f :: "u64 \<Rightarrow> replay_action" and y c'
    using assms eats_ok by (auto simp: reads)
  have other: "decode_action_body ty len c = Inr (a, c') \<Longrightarrow> ty = action_type a" for c'
    unfolding decode_action_body_def
    by (auto simp: rd_bind_iff rd_return_iff rd_fail_iff if_distribR split: if_splits)
  show ?thesis
  proof (cases "ty = action_type a")
    case True
    then show ?thesis
    proof (cases a)
      case (InitialAction t st ms)
      then show ?thesis
        using True decode_initial_iff [OF assms, of ty t st ms] by (simp add: decode_action_body_def len_ok_def rd_fail_def) blast
    next
      case (EpochAction t cause ms)
      then show ?thesis
        using True decode_epoch_iff [OF assms, of ty t cause ms]
        by (simp add: decode_action_body_def len_ok_def rd_fail_def) blast
    next
      case (PackageAction t p)
      obtain stamp pl payload where p: "p = \<lparr>tp_stamp = stamp, tp_play = pl, tp_payload = payload\<rparr>" by (cases p)
      obtain play where "pl = I8 play" by (cases pl)
      then show ?thesis
        using True PackageAction p decode_package_iff [OF assms, of t stamp play payload]
        by (simp add: decode_action_body_def len_ok_def rd_fail_def)
    next
      case (ObserveDeadline t)
      then show ?thesis using True by (auto simp: decode_action_body_def len_ok_def rd_fail_def last)
    next
      case (CommitAction t)
      then show ?thesis using True by (auto simp: decode_action_body_def len_ok_def rd_fail_def last)
    qed
  qed (use other in blast)
qed

lemma length_members_bytes: "length (members_bytes ms) = 1 + 5 * length ms"
  by (simp add: members_bytes_def length_concat comp_def encode_member_def sum_list_triv)

lemma action_bytes_len: "len_ok (action_type a) (length (action_bytes a))"
  by (cases a) (simp_all add: len_ok_def length_members_bytes)

lemma action_bytes_bound: "action_ok a \<Longrightarrow> length (action_bytes a) < 2 ^ 16"
  by (cases a) (simp_all add: length_members_bytes)

lemma decode_action_iff:
  assumes "length bytes \<le> USIZE_MAX"
  shows "decode_action ty bytes = Inr a \<longleftrightarrow> ty = action_type a \<and> action_ok a \<and> bytes = action_bytes a"
proof -
  have "decode_action ty bytes = Inr a \<longleftrightarrow>
      (\<exists>c'. decode_action_body ty (length bytes) (cursor_new bytes) = Inr (a, c') \<and> at_end c')"
    unfolding decode_action_def
    by (cases "decode_action_body ty (length bytes) (cursor_new bytes)")
      (auto simp: rd_bind_def expect_end_def at_end_def rd_return_def split: if_splits)
  also have "\<dots> \<longleftrightarrow> ty = action_type a \<and> len_ok ty (length bytes) \<and> action_ok a \<and> bytes = action_bytes a"
    using decode_action_body_iff [OF cur_ok_new [OF assms]] eats_all [OF assms] by simp
  finally show ?thesis using action_bytes_len by auto
qed

definition record_bytes :: "replay_action \<Rightarrow> u8 list" where
  "record_bytes a = [action_type a] @ le32 (of_nat (length (action_bytes a))) @ action_bytes a"

lemma unat_record_len: "action_ok a \<Longrightarrow> unat (of_nat (length (action_bytes a)) :: u32) = length (action_bytes a)"
  using action_bytes_bound [of a] by (simp add: unsigned_of_nat take_bit_nat_eq_self)

lemma usize_u32: "unat (w :: u32) \<le> USIZE_MAX"
proof -
  have "unat w < 2 ^ 32" using unsigned_less [of w] by simp
  then show ?thesis by (simp add: USIZE_MAX_def)
qed

lemma read_record_iff:
  assumes "cur_ok c"
  shows "(\<exists>ty len bs c1 c2. eats c [ty] c1 \<and> eats c1 (le32 len) c2 \<and> eats c2 bs c' \<and> length bs = unat len \<and>
      decode_action ty bs = Inr a) \<longleftrightarrow> action_ok a \<and> eats c (record_bytes a) c'" (is "?l \<longleftrightarrow> ?r")
proof
  assume ?l
  then obtain ty len bs c1 c2 where e: "eats c [ty] c1" "eats c1 (le32 len) c2" "eats c2 bs c'" "length bs = unat len"
      and "decode_action ty bs = Inr a" by blast
  then have "ty = action_type a" "action_ok a" "bs = action_bytes a"
    using decode_action_iff [of bs ty a] usize_u32 [of len] by simp_all
  moreover have "len = of_nat (length bs)" using e(4) by simp
  ultimately show ?r unfolding record_bytes_def eats_append using e by blast
next
  assume r: ?r
  then obtain c1 c2 where "eats c [action_type a] c1"
      "eats c1 (le32 (of_nat (length (action_bytes a)))) c2" "eats c2 (action_bytes a) c'"
    unfolding record_bytes_def eats_append by blast
  moreover have "decode_action (action_type a) (action_bytes a) = Inr a"
    using r action_bytes_bound [of a] by (subst decode_action_iff) (simp_all add: USIZE_MAX_def)
  ultimately show ?l using unat_record_len [of a] r by metis
qed

lemma read_actions_iff [reads]:
  "cur_ok c \<Longrightarrow> read_actions n c = Inr (as, c') \<longleftrightarrow>
     length as = n \<and> list_all action_ok as \<and> eats c (concat (map record_bytes as)) c' \<and> cur_ok c'"
proof (induction n arbitrary: c as)
  case 0
  then show ?case by (auto simp: reads eats_Nil)
next
  case (Suc n)
  show ?case
  proof (cases as)
    case Nil
    then show ?thesis by (auto simp: reads split: sum.splits)
  next
    case (Cons a as')
    have "read_actions (Suc n) c = Inr (as, c') \<longleftrightarrow>
        (\<exists>c3. (\<exists>ty len bs c1 c2. eats c [ty] c1 \<and> eats c1 (le32 len) c2 \<and> eats c2 bs c3 \<and> length bs = unat len \<and>
          decode_action ty bs = Inr a) \<and> read_actions n c3 = Inr (as', c'))"
      using Suc.prems by (simp add: reads Cons cong: conj_cong) (use eats_ok in blast)
    also have "\<dots> \<longleftrightarrow> (\<exists>c3. (action_ok a \<and> eats c (record_bytes a) c3) \<and> length as' = n \<and> list_all action_ok as' \<and>
        eats c3 (concat (map record_bytes as')) c' \<and> cur_ok c')"
      unfolding read_record_iff [OF Suc.prems] using Suc.IH eats_ok by blast
    also have "\<dots> \<longleftrightarrow> length as = Suc n \<and> list_all action_ok as \<and> eats c (concat (map record_bytes as)) c' \<and> cur_ok c'"
      by (auto simp: Cons eats_append)
    finally show ?thesis .
  qed
qed

section \<open>Transcripts\<close>

definition transcript_ok :: "persisted_transcript \<Rightarrow> bool" where
  "transcript_ok t \<longleftrightarrow>
     length (pt_actions t) \<le> MAX_LOCKSTEP_ACTIONS \<and> list_all action_ok (pt_actions t) \<and>
     length (as_bytes (pt_outcome_json t)) \<le> MAX_LOCKSTEP_OUTCOME_BYTES \<and> valid_string (pt_outcome_json t)"

definition transcript_bytes :: "persisted_transcript \<Rightarrow> u8 list" where
  "transcript_bytes t =
     transcript_header t @ concat (map record_bytes (pt_actions t)) @ as_bytes (pt_outcome_json t)"

lemma length_magic [simp]: "length LOCKSTEP_EVIDENCE_MAGIC = 8"
  by (simp add: LOCKSTEP_EVIDENCE_MAGIC_def ascii_bytes_def)

lemma from_utf8_iff: "from_utf8 bs = Some s \<longleftrightarrow> valid_string s \<and> bs = as_bytes s"
  using from_utf8_sound from_utf8_as_bytes by blast

text \<open>The end of a transcript: the text and nothing after it.\<close>

lemma read_outcome_iff [reads]:
  assumes "cur_ok c"
  shows "read_outcome n c = Inr (json, c') \<longleftrightarrow>
    valid_string json \<and> length (as_bytes json) = n \<and> eats c (as_bytes json) c' \<and> cur_ok c' \<and> at_end c'"
proof -
  have last: "(if cur_remaining c \<noteq> 0 then Inl (Trailing (cur_remaining c))
       else case from_utf8 outcome of None \<Rightarrow> Inl OutcomeNotUtf8 | Some json \<Rightarrow> Inr (json, c)) = Inr (json, c') \<longleftrightarrow>
     c' = c \<and> at_end c \<and> from_utf8 outcome = Some json" for outcome c
    by (auto simp: at_end_def split: option.splits)
  show ?thesis unfolding read_outcome_def rd_bind_iff last cur_take_iff [OF assms] from_utf8_iff by blast
qed

definition header_bytes :: "u32 \<Rightarrow> u32 \<Rightarrow> u64 \<Rightarrow> u32 \<Rightarrow> u64 \<Rightarrow> u8 list" where
  "header_bytes n m h k to =
     LOCKSTEP_EVIDENCE_MAGIC @ le16 LOCKSTEP_EVIDENCE_VERSION @ le16 0 @ le32 n @ le32 m @ le64 h @ le32 k @ le64 to"

lemma read_header_iff:
  assumes c: "cur_ok c"
  shows "read_header c = Inr ((n, m, h, k, to), c') \<longleftrightarrow>
    unat n \<le> MAX_LOCKSTEP_ACTIONS \<and> unat m \<le> MAX_LOCKSTEP_OUTCOME_BYTES \<and>
    eats c (header_bytes n m h k to) c' \<and> cur_ok c'"
proof
  assume "read_header c = Inr ((n, m, h, k, to), c')"
  then obtain c1 c2 c3 c4 c5 c6 c7 where "eats c LOCKSTEP_EVIDENCE_MAGIC c1" "eats c1 (le16 LOCKSTEP_EVIDENCE_VERSION) c2"
      "eats c2 (le16 0) c3" "eats c3 (le32 n) c4" "eats c4 (le32 m) c5" "eats c5 (le64 h) c6" "eats c6 (le32 k) c7"
      "eats c7 (le64 to) c'" "unat n \<le> MAX_LOCKSTEP_ACTIONS" "unat m \<le> MAX_LOCKSTEP_OUTCOME_BYTES" "cur_ok c'"
    using c by (auto simp: read_header_def reads not_less cong: conj_cong)
  then show "unat n \<le> MAX_LOCKSTEP_ACTIONS \<and> unat m \<le> MAX_LOCKSTEP_OUTCOME_BYTES \<and>
      eats c (header_bytes n m h k to) c' \<and> cur_ok c'"
    unfolding header_bytes_def eats_append by blast
next
  assume a: "unat n \<le> MAX_LOCKSTEP_ACTIONS \<and> unat m \<le> MAX_LOCKSTEP_OUTCOME_BYTES \<and>
      eats c (header_bytes n m h k to) c' \<and> cur_ok c'"
  then obtain c1 c2 c3 c4 c5 c6 c7 where e: "eats c LOCKSTEP_EVIDENCE_MAGIC c1" "eats c1 (le16 LOCKSTEP_EVIDENCE_VERSION) c2"
      "eats c2 (le16 0) c3" "eats c3 (le32 n) c4" "eats c4 (le32 m) c5" "eats c5 (le64 h) c6" "eats c6 (le32 k) c7"
      "eats c7 (le64 to) c'"
    unfolding header_bytes_def eats_append by blast
  have "cur_take 8 c = Inr (LOCKSTEP_EVIDENCE_MAGIC, c1)" "cur_u16 c1 = Inr (LOCKSTEP_EVIDENCE_VERSION, c2)"
    "cur_u16 c2 = Inr (0, c3)" "cur_u32 c3 = Inr (n, c4)" "cur_u32 c4 = Inr (m, c5)" "cur_u64 c5 = Inr (h, c6)"
    "cur_u32 c6 = Inr (k, c7)" "cur_u64 c7 = Inr (to, c')"
    using e e [THEN eats_ok] by (simp_all add: reads)
  then show "read_header c = Inr ((n, m, h, k, to), c')"
    using a by (simp add: read_header_def rd_bind_def rd_return_def not_less)
qed

lemma of_nat_unat_len:
  "length xs \<le> MAX_LOCKSTEP_ACTIONS \<Longrightarrow> unat (of_nat (length xs) :: u32) = length xs"
  "length ys \<le> MAX_LOCKSTEP_OUTCOME_BYTES \<Longrightarrow> unat (of_nat (length ys) :: u32) = length ys"
  by (simp_all add: MAX_LOCKSTEP_ACTIONS_def MAX_LOCKSTEP_OUTCOME_BYTES_def unsigned_of_nat take_bit_nat_eq_self)

lemma transcript_header_bytes:
  "transcript_header t =
     header_bytes (of_nat (length (pt_actions t))) (of_nat (length (as_bytes (pt_outcome_json t))))
       (pt_outcome_fnv1a64 t) (pt_game_key t) (pt_timeout_ms t)"
  by (simp add: transcript_header_def header_bytes_def)

lemma read_transcript_iff:
  assumes c: "cur_ok c"
  shows "read_transcript c = Inr (t, c') \<longleftrightarrow> transcript_ok t \<and> at_end c' \<and> eats c (transcript_bytes t) c'"
proof
  assume "read_transcript c = Inr (t, c')"
  then obtain n m h k to c1 as c2 json where e: "read_header c = Inr ((n, m, h, k, to), c1)"
      "read_actions (unat n) c1 = Inr (as, c2)" "read_outcome (unat m) c2 = Inr (json, c')"
      "t = \<lparr>pt_game_key = k, pt_timeout_ms = to, pt_actions = as, pt_outcome_json = json, pt_outcome_fnv1a64 = h\<rparr>"
    by (auto simp: read_transcript_def rd_bind_iff rd_return_iff)
  have 1: "unat n \<le> MAX_LOCKSTEP_ACTIONS" "unat m \<le> MAX_LOCKSTEP_OUTCOME_BYTES"
      "eats c (header_bytes n m h k to) c1" "cur_ok c1"
    using e(1) c by (simp_all add: read_header_iff)
  have 2: "length as = unat n" "list_all action_ok as" "eats c1 (concat (map record_bytes as)) c2" "cur_ok c2"
    using e(2) 1 by (simp_all add: reads)
  have 3: "valid_string json" "length (as_bytes json) = unat m" "eats c2 (as_bytes json) c'" "at_end c'"
    using e(3) 2 by (simp_all add: reads)
  have "n = of_nat (length as)" "m = of_nat (length (as_bytes json))" using 2(1) 3(2) by simp_all
  then have "transcript_bytes t = header_bytes n m h k to @ concat (map record_bytes as) @ as_bytes json"
    by (simp add: transcript_bytes_def transcript_header_bytes e(4))
  then have "eats c (transcript_bytes t) c'" using 1 2 3 by (simp only: eats_append) blast
  then show "transcript_ok t \<and> at_end c' \<and> eats c (transcript_bytes t) c'"
    using 1 2 3 by (simp add: transcript_ok_def e(4))
next
  assume t: "transcript_ok t \<and> at_end c' \<and> eats c (transcript_bytes t) c'"
  then obtain c1 c2 where e: "eats c (transcript_header t) c1" "eats c1 (concat (map record_bytes (pt_actions t))) c2"
      "eats c2 (as_bytes (pt_outcome_json t)) c'"
    unfolding transcript_bytes_def eats_append by blast
  note ok = e [THEN eats_ok] and len = of_nat_unat_len(1) [of "pt_actions t"] of_nat_unat_len(2) [of "as_bytes (pt_outcome_json t)"]
  have "read_header c = Inr ((of_nat (length (pt_actions t)), of_nat (length (as_bytes (pt_outcome_json t))),
      pt_outcome_fnv1a64 t, pt_game_key t, pt_timeout_ms t), c1)"
    using e(1) ok t len c by (simp add: read_header_iff transcript_header_bytes transcript_ok_def)
  moreover have "read_actions (length (pt_actions t)) c1 = Inr (pt_actions t, c2)"
    using e(2) ok t by (simp add: reads transcript_ok_def)
  moreover have "read_outcome (length (as_bytes (pt_outcome_json t))) c2 = Inr (pt_outcome_json t, c')"
    using e(3) ok t by (simp add: reads transcript_ok_def)
  ultimately show "read_transcript c = Inr (t, c')"
    using t len by (simp add: read_transcript_def rd_bind_def rd_return_def transcript_ok_def)
qed

end
