(* ===== verification/Evidence_Properties.thy ===== *)
theory Evidence_Properties
  imports Evidence_Codec Lockstep_Properties
begin

text \<open>
  What a persisted transcript promises: execution never panics and follows a run of the lockstep
  runner, the transcripts that replay are exactly those that can be recorded, and the binary form is
  accepted exactly when it is what the encoder writes.
\<close>

lemma map_sum_eq_Inr: "map_sum f g s = Inr y \<longleftrightarrow> (\<exists>x. s = Inr x \<and> y = g x)"
  by (cases s) auto

section \<open>Execution\<close>

lemma commit_ready_total: "lockstep_inv r \<Longrightarrow> commit_ready now r \<noteq> None"
  using commit_ready_ok [of r _ now]
  by (cases "missing r = []"; cases "checked_add (lr_expected_stamp r) 1")
    (fastforce simp: commit_ready_def Let_def split: option.splits)+

lemma execute_action_total: "lockstep_inv r \<Longrightarrow> execute_action i a r \<noteq> None"
  using commit_ready_total by (cases a) (auto split: option.splits sum.splits)

lemma execute_action_step:
  assumes "execute_action i a r = Some (Inr r')"
  shows "lockstep_step r r'" "action_ok a" "\<forall>t first ms. a \<noteq> InitialAction t first ms"
    "\<forall>t ms. a \<noteq> EpochAction t Initial ms" "\<not> package_too_large a"
proof -
  have m: "validate_members ms = Inr u \<Longrightarrow> length ms \<le> 255" for ms u
    by (simp add: validate_members_def split: if_splits)
  have "lockstep_step r r' \<and> action_ok a \<and> (\<forall>t first ms. a \<noteq> InitialAction t first ms) \<and>
    (\<forall>t ms. a \<noteq> EpochAction t Initial ms) \<and> \<not> package_too_large a"
  proof (cases a)
    case (EpochAction t cause ms)
    then show ?thesis
      using assms m step_epoch [of r "map em_play ms" cause t] by (auto split: if_splits sum.splits prod.splits)
  next
    case (PackageAction t p)
    then show ?thesis
      using assms step_submit [of r p t] by (auto split: if_splits sum.splits prod.splits)
  next
    case (ObserveDeadline t)
    then show ?thesis using assms step_status [of r t] by auto
  next
    case (CommitAction t)
    then show ?thesis
      using assms step_commit [of t r _ r'] by (auto split: option.splits sum.splits prod.splits)
  qed (use assms in auto)
  then show "lockstep_step r r'" "action_ok a" "\<forall>t first ms. a \<noteq> InitialAction t first ms"
    "\<forall>t ms. a \<noteq> EpochAction t Initial ms" "\<not> package_too_large a" by blast+
qed

text \<open>An action the encoder accepts.\<close>

definition encodable :: "replay_action \<Rightarrow> bool" where
  "encodable a \<longleftrightarrow> action_ok a \<and> (\<forall>t ms. a \<noteq> EpochAction t Initial ms)"

lemma execute_from_total: "lockstep_inv r \<Longrightarrow> execute_from i p as r \<noteq> None"
proof (induction as arbitrary: i p r)
  case (Cons a as)
  then show ?case
    using execute_action_total [of r i a] lockstep.inv_step [of r] execute_action_step(1) [of i a r]
    by (auto split: option.splits sum.splits)
qed simp

lemma execute_from_ok:
  assumes "execute_from i p as r = Some (Inr r')"
  shows "lockstep_step\<^sup>*\<^sup>* r r' \<and> list_all encodable as \<and> list_all (\<lambda>a. \<not> package_too_large a) as \<and> sorted (p # map at_ms as)"
  using assms
proof (induction as arbitrary: i p r)
  case (Cons a as)
  then obtain r1 where s: "p \<le> at_ms a" "execute_action i a r = Some (Inr r1)" "execute_from (i + 1) (at_ms a) as r1 = Some (Inr r')"
    by (auto split: if_splits option.splits sum.splits)
  then show ?case
    using Cons.IH [OF s(3)] execute_action_step [OF s(2)]
    by (auto simp: encodable_def intro: converse_rtranclp_into_rtranclp)
qed simp

lemma reach_rtranclp: "step\<^sup>*\<^sup>* s s' \<Longrightarrow> reach init step s \<Longrightarrow> reach init step s'"
  by (induction rule: rtranclp_induct) (auto intro: reach_step)

lemma execute_total: "execute key timeout as \<noteq> None"
  using execute_from_total lockstep_inv_new
  by (fastforce simp: execute_def split: list.splits replay_action.splits sum.splits)

lemma execute_ok:
  assumes "execute key timeout as = Some (Inr x)"
  obtains runner where "reach lockstep_init lockstep_step runner" "x = replay_result runner"
    "length as \<le> MAX_LOCKSTEP_ACTIONS" "list_all encodable as" "list_all (\<lambda>a. \<not> package_too_large a) as"
    "sorted (map at_ms as)"
proof -
  from assms obtain t first ms rest u r runner where e: "as = InitialAction t first ms # rest"
      "validate_members ms = Inr u" "lockstep_new key (map em_play ms) first t timeout = Inr r"
      "execute_from 1 t rest r = Some (Inr runner)" "x = replay_result runner" "length as \<le> MAX_LOCKSTEP_ACTIONS"
    by (auto simp: execute_def not_less map_sum_eq_Inr split: list.splits replay_action.splits sum.splits if_splits)
  have "reach lockstep_init lockstep_step r" by (rule reach_init, unfold lockstep_init_def) (use e(3) in blast)
  moreover have "length ms \<le> 255" using e(2) by (simp add: validate_members_def split: if_splits)
  ultimately show ?thesis
    using execute_from_ok [OF e(4)] e reach_rtranclp [of lockstep_step r runner lockstep_init] that [of runner] by (auto simp: encodable_def)
qed

section \<open>Replay\<close>

lemma validate_bounds_iff:
  "validate_bounds t = Inr u \<longleftrightarrow>
     length (pt_actions t) \<le> MAX_LOCKSTEP_ACTIONS \<and>
     length (as_bytes (pt_outcome_json t)) \<le> MAX_LOCKSTEP_OUTCOME_BYTES \<and>
     list_all (\<lambda>a. \<not> package_too_large a) (pt_actions t)"
  by (auto simp: validate_bounds_def not_less find_None_iff find_Some_iff list_all_iff split: option.splits if_splits)

lemma replay_iff:
  "replay t = Some (Inr x) \<longleftrightarrow>
     execute (pt_game_key t) (pt_timeout_ms t) (pt_actions t) = Some (Inr x) \<and>
     length (as_bytes (pt_outcome_json t)) \<le> MAX_LOCKSTEP_OUTCOME_BYTES \<and>
     rl_outcome_json x = pt_outcome_json t \<and> rl_outcome_fnv1a64 x = pt_outcome_fnv1a64 t"
  (is "?l \<longleftrightarrow> ?r")
proof
  assume ?r
  then obtain runner where "x = replay_result runner" "length (pt_actions t) \<le> MAX_LOCKSTEP_ACTIONS"
      "list_all (\<lambda>a. \<not> package_too_large a) (pt_actions t)"
    by (auto elim!: execute_ok)
  moreover from this(1) \<open>?r\<close> have "pt_outcome_fnv1a64 t = fnv1a64 (as_bytes (pt_outcome_json t))"
    by (auto simp: replay_result_def Let_def)
  ultimately show ?l using \<open>?r\<close> validate_bounds_iff [of t "()"] by (simp add: replay_def)
qed (auto simp: replay_def Let_def validate_bounds_iff split: option.splits sum.splits if_splits)

lemma record_iff:
  "record_transcript key timeout as = Some (Inr t) \<longleftrightarrow>
     pt_game_key t = key \<and> pt_timeout_ms t = timeout \<and> pt_actions t = as \<and> (\<exists>x. replay t = Some (Inr x))"
  (is "?l \<longleftrightarrow> ?r")
proof
  assume ?l
  then obtain x where x: "execute key timeout as = Some (Inr x)"
      "t = \<lparr>pt_game_key = key, pt_timeout_ms = timeout, pt_actions = as,
            pt_outcome_json = rl_outcome_json x, pt_outcome_fnv1a64 = rl_outcome_fnv1a64 x\<rparr>"
      "validate_bounds t = Inr ()"
    by (auto simp: record_transcript_def Let_def map_sum_eq_Inr split: option.splits sum.splits)
  then show ?r by (auto simp: replay_iff validate_bounds_iff)
next
  assume ?r
  then obtain x where x: "execute key timeout as = Some (Inr x)" "replay t = Some (Inr x)"
      "t = \<lparr>pt_game_key = key, pt_timeout_ms = timeout, pt_actions = as,
            pt_outcome_json = rl_outcome_json x, pt_outcome_fnv1a64 = rl_outcome_fnv1a64 x\<rparr>"
    by (cases t) (auto simp: replay_iff)
  then have "validate_bounds t = Inr ()"
    by (auto simp: replay_def split: sum.splits)
  with x show ?l by (simp add: record_transcript_def Let_def)
qed

lemma replay_encodable:
  assumes "replay t = Some (Inr x)"
  shows "transcript_ok t" "list_all encodable (pt_actions t)"
proof -
  from assms obtain runner where r: "x = replay_result runner" "length (pt_actions t) \<le> MAX_LOCKSTEP_ACTIONS"
      "list_all encodable (pt_actions t)" "rl_outcome_json x = pt_outcome_json t"
      "length (as_bytes (pt_outcome_json t)) \<le> MAX_LOCKSTEP_OUTCOME_BYTES"
    by (auto simp: replay_iff elim!: execute_ok)
  have "pt_outcome_json t = to_rust_string (export_json runner)"
    using r by (simp add: replay_result_def Let_def)
  then show "transcript_ok t" "list_all encodable (pt_actions t)"
    using r valid_to_rust_string by (auto simp: transcript_ok_def encodable_def list_all_iff)
qed

section \<open>The binary form\<close>

lemma encode_action_ok: "encodable a \<Longrightarrow> encode_action a = Inr (record_bytes a)"
  by (cases a) (auto simp: encodable_def encode_action_def encode_members_def record_bytes_def members_bytes_def not_less)

lemma encode_actions_ok: "list_all encodable as \<Longrightarrow> encode_actions as = Inr (concat (map record_bytes as))"
  by (induction as) (auto simp: encode_action_ok)

lemma length_transcript_bytes:
  "length (transcript_bytes t) =
     HEADER_LEN + length (concat (map record_bytes (pt_actions t))) + length (as_bytes (pt_outcome_json t))"
  by (simp add: transcript_bytes_def transcript_header_def HEADER_LEN_def)

lemma encode_iff:
  "transcript_encode t = Some (Inr bs) \<longleftrightarrow>
     (\<exists>x. replay t = Some (Inr x)) \<and> bs = transcript_bytes t \<and> length bs \<le> MAX_LOCKSTEP_EVIDENCE_BYTES"
proof (cases "\<exists>x. replay t = Some (Inr x)")
  case True
  then obtain x where x: "replay t = Some (Inr x)" by blast
  then show ?thesis
    using replay_encodable [OF x] length_transcript_bytes [of t]
    by (auto simp: transcript_encode_def encode_actions_ok Let_def USIZE_MAX_def MAX_LOCKSTEP_EVIDENCE_BYTES_def
        transcript_bytes_def)
qed (auto simp: transcript_encode_def split: option.splits sum.splits)

lemma decode_iff:
  "transcript_decode bs = Some (Inr t) \<longleftrightarrow>
     (\<exists>x. replay t = Some (Inr x)) \<and> bs = transcript_bytes t \<and> length bs \<le> MAX_LOCKSTEP_EVIDENCE_BYTES"
proof (cases "length bs \<le> MAX_LOCKSTEP_EVIDENCE_BYTES")
  case True
  then have u: "length bs \<le> USIZE_MAX" by (simp add: MAX_LOCKSTEP_EVIDENCE_BYTES_def USIZE_MAX_def)
  have "transcript_decode bs = Some (Inr t) \<longleftrightarrow>
      (\<exists>c' x. read_transcript (cursor_new bs) = Inr (t, c') \<and> replay t = Some (Inr x))"
    using True by (auto simp: transcript_decode_def map_sum_eq_Inr split: sum.splits)
  also have "\<dots> \<longleftrightarrow> transcript_ok t \<and> bs = transcript_bytes t \<and> (\<exists>x. replay t = Some (Inr x))"
    using eats_all [OF u, of "transcript_bytes t"] by (auto simp: read_transcript_iff [OF cur_ok_new [OF u]])
  finally show ?thesis using True replay_encodable(1) by blast
qed (auto simp: transcript_decode_def)

lemma evidence_total: "replay t \<noteq> None" "transcript_decode bs \<noteq> None"
proof -
  show r: "replay t \<noteq> None" for t
    using execute_total [of "pt_game_key t" "pt_timeout_ms t" "pt_actions t"]
    by (auto simp: replay_def Let_def split: sum.splits option.splits)
  show "transcript_decode bs \<noteq> None"
    using r by (auto simp: transcript_decode_def split: sum.splits)
qed

section \<open>Properties\<close>

text \<open>
  C13: Reading a persisted transcript never panics, and a byte string is accepted as a given transcript
  exactly when encoding that transcript succeeds with those bytes. So every encoded transcript is read
  back as it was, and there is one binary form for each: no padding, no unused flag, no other record
  order or length is accepted.
\<close>

theorem evidence_codec_exact:
  "transcript_decode bs \<noteq> None \<and>
   (transcript_decode bs = Some (Inr t) \<longleftrightarrow> transcript_encode t = Some (Inr bs))"
  using evidence_total(2) by (simp add: decode_iff encode_iff)

text \<open>
  C14: A transcript replays without error exactly when recording its actions under its key and timeout
  gives that very transcript; nothing else about it, text and hash included, can be varied.
\<close>

theorem evidence_replays_iff_recorded:
  "(\<exists>x. replay t = Some (Inr x)) \<longleftrightarrow>
     record_transcript (pt_game_key t) (pt_timeout_ms t) (pt_actions t) = Some (Inr t)"
  by (simp add: record_iff)

text \<open>
  C15: When a transcript replays, its actions stand in the order of their times and drive the lockstep
  runner to a state it can reach, so that the invariants of the runner hold of the history reported;
  the stored text is the export of that history, the stored hash is its hash, and the report names the
  stamp and epoch the run ended in.
\<close>

theorem evidence_replay_follows_run:
  assumes "replay t = Some (Inr x)"
  shows "sorted (map at_ms (pt_actions t)) \<and>
    (\<exists>runner. reach lockstep_init lockstep_step runner \<and> history_ok runner \<and>
       pt_outcome_json t = to_rust_string (export_json runner) \<and>
       pt_outcome_fnv1a64 t = fnv1a64 (as_bytes (pt_outcome_json t)) \<and>
       rl_evidence x = lr_evidence runner \<and> rl_next_stamp x = lr_expected_stamp runner \<and>
       rl_final_epoch x = lr_epoch runner)"
proof -
  from assms have e: "execute (pt_game_key t) (pt_timeout_ms t) (pt_actions t) = Some (Inr x)"
      "pt_outcome_json t = rl_outcome_json x" "pt_outcome_fnv1a64 t = rl_outcome_fnv1a64 x"
    by (simp_all add: replay_iff)
  from e(1) obtain runner where r: "reach lockstep_init lockstep_step runner" "x = replay_result runner"
      "sorted (map at_ms (pt_actions t))"
    by (rule execute_ok)
  moreover have "history_ok runner" using lockstep.reach_inv [OF r(1)] by (simp add: lockstep_inv_def)
  ultimately show ?thesis using e by (auto simp: replay_result_def Let_def)
qed

text \<open>A transcript of two participants that ends right after the start.\<close>

definition sample_actions :: "replay_action list" where
  "sample_actions =
     [InitialAction 0 6 [\<lparr>em_play = I8 0, em_unique_id = 11\<rparr>, \<lparr>em_play = I8 1, em_unique_id = 22\<rparr>], ObserveDeadline 5]"

definition sample_transcript :: persisted_transcript where
  "sample_transcript =
     \<lparr>pt_game_key = 12345, pt_timeout_ms = 1000, pt_actions = sample_actions,
      pt_outcome_json = to_rust_string (export_json sample_runner),
      pt_outcome_fnv1a64 = fnv1a64 (as_bytes (to_rust_string (export_json sample_runner)))\<rparr>"

lemma sample_execute: "execute 12345 1000 sample_actions = Some (Inr (replay_result sample_runner))"
  by (simp add: execute_def sample_actions_def MAX_LOCKSTEP_ACTIONS_def validate_members_def i8_eval
      lockstep_new_def normalize_participants_def MAX_PLAYERS_def saturating_add_def sample_runner_def
      status_def observe_timeout_def Let_def)

lemma length_as_bytes: "length (as_bytes s) \<le> 4 * length s"
proof (induction s)
  case (Cons c s)
  have "length (utf8_char c) \<le> 4" by (simp add: utf8_char_def)
  with Cons show ?case by (simp add: as_bytes_def)
qed (simp add: as_bytes_def)

lemma sample_text_len: "length (as_bytes (to_rust_string (export_json sample_runner))) \<le> MAX_LOCKSTEP_OUTCOME_BYTES"
proof -
  have "length (export_json sample_runner) < 1000"
    by (simp add: export_json_def sample_runner_def show_u64_def show_u32_def write_i8_array_def show_nat.simps
        show_int_def i8_val_def)
  then show ?thesis
    using length_as_bytes [of "to_rust_string (export_json sample_runner)"]
    by (simp add: to_rust_string_def MAX_LOCKSTEP_OUTCOME_BYTES_def)
qed

lemma sample_replay: "replay sample_transcript = Some (Inr (replay_result sample_runner))"
  using sample_execute sample_text_len
  by (simp add: replay_iff sample_transcript_def replay_result_def Let_def)

theorem evidence_replay_follows_run_witness:
  "replay sample_transcript = Some (Inr (replay_result sample_runner)) \<and>
   sorted (map at_ms (pt_actions sample_transcript)) \<and>
   rl_final_epoch (replay_result sample_runner) = 0"
  using evidence_replay_follows_run [OF sample_replay] sample_replay
  by (auto simp: replay_result_def Let_def sample_runner_def)

end
