(* ===== verification/Transport.thy ===== *)
theory Transport
  imports Commands
begin

text \<open>
  Datagram transports, \<^verbatim>\<open>src/crates/don-net/src/transport.rs\<close>: the contract of the session layer as a
  record of operations, the in-process loopback, and the framing of the TCP transport (the frames it
  writes and the loop that takes them off a received byte stream). Sockets are not modelled.
\<close>

unbundle bit_operations_syntax

section \<open>The contract\<close>

datatype io_error = InvalidInput | WriteZero | BrokenPipe | ConnectionReset | WouldBlock | Interrupted | OtherIo nat

datatype dest = All | One i32

record datagram =
  dg_from :: i32
  dg_bytes :: "u8 list"

text \<open>The trait \<^verbatim>\<open>Transport\<close>: its methods on a state \<open>'t\<close>. A \<^verbatim>\<open>Duration\<close> is its nanoseconds.\<close>

record 't transport =
  tr_send :: "dest \<Rightarrow> u8 list \<Rightarrow> 't \<Rightarrow> (unit, io_error) result \<times> 't"
  tr_recv :: "'t \<Rightarrow> (datagram option, io_error) result \<times> 't"
  tr_poll :: "nat \<Rightarrow> 't \<Rightarrow> (unit, io_error) result \<times> 't"
  tr_peers :: "'t \<Rightarrow> i32 list"
  tr_local_id :: "'t \<Rightarrow> i32"

section \<open>Loopback\<close>

record loop_transport =
  lt_id :: i32
  lt_inbox :: "datagram list"
  lt_outbox :: "(i32 \<times> u8 list list) list"

definition loop_new :: "i32 \<Rightarrow> loop_transport" where
  "loop_new i = \<lparr>lt_id = i, lt_inbox = [], lt_outbox = []\<rparr>"

definition loop_connect :: "i32 \<Rightarrow> loop_transport \<Rightarrow> loop_transport" where
  "loop_connect peer t =
     (if list_ex (\<lambda>(p, _). p = peer) (lt_outbox t) then t
      else t\<lparr>lt_outbox := lt_outbox t @ [(peer, [])]\<rparr>)"

definition loop_drain :: "loop_transport \<Rightarrow> loop_transport \<Rightarrow> loop_transport \<times> loop_transport" where
  "loop_drain src dst =
     (src\<lparr>lt_outbox := map (\<lambda>(peer, q). (peer, if peer = lt_id dst then [] else q)) (lt_outbox src)\<rparr>,
      dst\<lparr>lt_inbox := lt_inbox dst @
            map (\<lambda>bytes. \<lparr>dg_from = lt_id src, dg_bytes = bytes\<rparr>)
              (concat (map snd (filter (\<lambda>(peer, _). peer = lt_id dst) (lt_outbox src))))\<rparr>)"

definition loop_pump :: "loop_transport \<Rightarrow> loop_transport \<Rightarrow> loop_transport \<times> loop_transport" where
  "loop_pump a b = (let (a, b) = loop_drain a b; (b, a) = loop_drain b a in (a, b))"

definition loop_send :: "dest \<Rightarrow> u8 list \<Rightarrow> loop_transport \<Rightarrow> (unit, io_error) result \<times> loop_transport" where
  "loop_send dest bytes t =
     (Inr (), t\<lparr>lt_outbox := map (\<lambda>(peer, q). (peer, if dest = All \<or> dest = One peer then q @ [bytes] else q)) (lt_outbox t)\<rparr>)"

definition loop_recv :: "loop_transport \<Rightarrow> (datagram option, io_error) result \<times> loop_transport" where
  "loop_recv t =
     (case lt_inbox t of
        [] \<Rightarrow> (Inr None, t)
      | d # ds \<Rightarrow> (Inr (Some d), t\<lparr>lt_inbox := ds\<rparr>))"

definition loop_ops :: "loop_transport transport" where
  "loop_ops =
     \<lparr>tr_send = loop_send, tr_recv = loop_recv, tr_poll = (\<lambda>_ t. (Inr (), t)),
      tr_peers = (\<lambda>t. map fst (lt_outbox t)), tr_local_id = lt_id\<rparr>"

text \<open>
  What the session relies on: receiving uses up what is there, and neither sending nor receiving
  changes the local identity or brings in new datagrams.
\<close>

locale datagram_transport =
  fixes ops :: "'t transport"
    and backlog :: "'t \<Rightarrow> nat"
  assumes recv_backlog: "tr_recv ops t = (Inr (Some d), t') \<Longrightarrow> backlog t' < backlog t"
    and send_backlog: "backlog (snd (tr_send ops dst bytes t)) \<le> backlog t"
    and recv_local: "tr_local_id ops (snd (tr_recv ops t)) = tr_local_id ops t"
    and send_local: "tr_local_id ops (snd (tr_send ops dst bytes t)) = tr_local_id ops t"
    and poll_local: "tr_local_id ops (snd (tr_poll ops budget t)) = tr_local_id ops t"

interpretation loop: datagram_transport loop_ops "\<lambda>t. length (lt_inbox t)"
  by standard (auto simp: loop_ops_def loop_recv_def loop_send_def split: list.splits)

section \<open>TCP framing\<close>

definition MAX_FRAME :: nat where "MAX_FRAME = 512 * 1024"
definition RELAYED_FRAME :: u32 where "RELAYED_FRAME = 0x80000000"

text \<open>The bytes that \<^verbatim>\<open>write_frame\<close> and \<^verbatim>\<open>write_relayed_frame\<close> hand to the socket.\<close>

definition frame_bytes :: "u8 list \<Rightarrow> u8 list" where
  "frame_bytes payload = le32 (of_nat (length payload)) @ payload"

definition relayed_frame_bytes :: "i32 \<Rightarrow> u8 list \<Rightarrow> u8 list" where
  "relayed_frame_bytes origin payload =
     le32 (of_nat (4 + length payload) OR RELAYED_FRAME) @ le32 origin @ payload"

text \<open>A connection without its socket.\<close>

record tcp_peer =
  tcp_id :: i32
  tcp_rx :: "u8 list"
  tcp_identified :: bool
  tcp_dead :: bool

text \<open>
  The loop that takes complete frames off \<^verbatim>\<open>rx\<close>: the peer after it, the datagrams for the inbox and
  the frames to relay.
\<close>

function deframe :: "bool \<Rightarrow> tcp_peer \<Rightarrow> tcp_peer \<times> datagram list \<times> (i32 \<times> u8 list) list" where
  "deframe is_host p =
     (if length (tcp_rx p) < 4 then (p, [], [])
      else let header = u32le (tcp_rx p) 0;
               relayed = (header AND RELAYED_FRAME \<noteq> 0);
               len = unat (header AND NOT RELAYED_FRAME)
      in if MAX_FRAME + of_bool relayed * 4 < len \<or> relayed \<and> (is_host \<or> len < 4) then
           (p\<lparr>tcp_dead := True\<rparr>, [], [])
         else if length (tcp_rx p) < 4 + len then (p, [], [])
         else let body = bytes_at (tcp_rx p) 4 len;
                  p = p\<lparr>tcp_rx := drop (4 + len) (tcp_rx p)\<rparr>
           in if \<not> tcp_identified p then
                deframe is_host
                  (if length body = 4 then p\<lparr>tcp_id := u32le body 0, tcp_identified := True\<rparr>
                   else p\<lparr>tcp_dead := True\<rparr>)
              else let (from, body) = (if relayed then (u32le body 0, drop 4 body) else (tcp_id p, body));
                       (p', ds, rs) = deframe is_host p
                in (p', \<lparr>dg_from = from, dg_bytes = body\<rparr> # ds,
                    (if is_host then [(tcp_id p, body)] else []) @ rs))"
  by pat_completeness auto
termination
  by (relation "measure (\<lambda>(_, p). length (tcp_rx p))") (auto split: if_splits)

declare deframe.simps [simp del]

text \<open>The header of the first frame, once its four bytes are there, and whether it is refused.\<close>

definition frame_relayed :: "u8 list \<Rightarrow> bool" where
  "frame_relayed rx \<longleftrightarrow> u32le rx 0 AND RELAYED_FRAME \<noteq> 0"

definition frame_len :: "u8 list \<Rightarrow> nat" where
  "frame_len rx = unat (u32le rx 0 AND NOT RELAYED_FRAME)"

definition frame_refused :: "bool \<Rightarrow> u8 list \<Rightarrow> bool" where
  "frame_refused is_host rx \<longleftrightarrow>
     MAX_FRAME + of_bool (frame_relayed rx) * 4 < frame_len rx \<or>
     frame_relayed rx \<and> (is_host \<or> frame_len rx < 4)"

text \<open>The peer once its first frame is taken off, and the datagram and relay of that frame.\<close>

definition take_frame :: "bool \<Rightarrow> tcp_peer \<Rightarrow> tcp_peer \<times> datagram list \<times> (i32 \<times> u8 list) list" where
  "take_frame is_host p =
     (let body = bytes_at (tcp_rx p) 4 (frame_len (tcp_rx p));
          q = p\<lparr>tcp_rx := drop (4 + frame_len (tcp_rx p)) (tcp_rx p)\<rparr>
      in if \<not> tcp_identified p then
           (if length body = 4 then q\<lparr>tcp_id := u32le body 0, tcp_identified := True\<rparr>
            else q\<lparr>tcp_dead := True\<rparr>, [], [])
         else let (from, body) = (if frame_relayed (tcp_rx p) then (u32le body 0, drop 4 body) else (tcp_id p, body))
           in (q, [\<lparr>dg_from = from, dg_bytes = body\<rparr>], if is_host then [(tcp_id p, body)] else []))"

lemma deframe_step:
  "deframe is_host p =
     (if length (tcp_rx p) < 4 then (p, [], [])
      else if frame_refused is_host (tcp_rx p) then (p\<lparr>tcp_dead := True\<rparr>, [], [])
      else if length (tcp_rx p) < 4 + frame_len (tcp_rx p) then (p, [], [])
      else let (q, d, r) = take_frame is_host p; (q', ds, rs) = deframe is_host q in (q', d @ ds, r @ rs))"
  unfolding take_frame_def frame_refused_def frame_len_def frame_relayed_def
  by (subst deframe.simps) (simp add: Let_def split: prod.splits)

definition feed :: "u8 list \<Rightarrow> tcp_peer \<Rightarrow> tcp_peer" where
  "feed c p = p\<lparr>tcp_rx := tcp_rx p @ c\<rparr>"

lemma frame_header_append:
  assumes "4 \<le> length rx"
  shows "frame_relayed (rx @ c) = frame_relayed rx" "frame_len (rx @ c) = frame_len rx"
    "frame_refused h (rx @ c) = frame_refused h rx"
  using assms by (simp_all add: frame_relayed_def frame_len_def frame_refused_def u32le_def bytes_at_append_le)

lemma take_frame_feed:
  assumes "4 + frame_len (tcp_rx p) \<le> length (tcp_rx p)"
  shows "take_frame h (feed c p) = (let (q, d, r) = take_frame h p in (feed c q, d, r))"
  using assms
  by (simp add: take_frame_def feed_def frame_header_append bytes_at_append_le Let_def)

lemma deframe_feed:
  "deframe h (feed c p) =
     (let (q, ds, rs) = deframe h p; (q', ds', rs') = deframe h (feed c q) in (q', ds @ ds', rs @ rs'))"
proof (induction "length (tcp_rx p)" arbitrary: p rule: less_induct)
  case less
  show ?case
  proof (cases "4 \<le> length (tcp_rx p) \<and> \<not> frame_refused h (tcp_rx p) \<and> 4 + frame_len (tcp_rx p) \<le> length (tcp_rx p)")
    case True
    obtain q d r where t: "take_frame h p = (q, d, r)" by (cases "take_frame h p") auto
    have "length (tcp_rx q) < length (tcp_rx p)"
      using t True by (auto simp: take_frame_def Let_def split: if_splits)
    from less [OF this] show ?thesis
      using True t take_frame_feed [of p h c] frame_header_append [where rx = "tcp_rx p" and c = c]
      by (subst deframe_step, subst (2) deframe_step) (simp add: feed_def Let_def split: prod.splits)
  next
    case False
    show ?thesis
    proof (cases "4 \<le> length (tcp_rx p) \<and> frame_refused h (tcp_rx p)")
      case True
      then have "deframe h p = (p\<lparr>tcp_dead := True\<rparr>, [], [])"
          "deframe h (feed c p) = ((feed c p)\<lparr>tcp_dead := True\<rparr>, [], [])"
          "deframe h (feed c (p\<lparr>tcp_dead := True\<rparr>)) = ((feed c p)\<lparr>tcp_dead := True\<rparr>, [], [])"
        by (subst deframe_step; simp add: feed_def frame_header_append)+
      then show ?thesis by simp
    next
      case incomplete: False
      then have "deframe h p = (p, [], [])" using False by (subst deframe_step) auto
      then show ?thesis by (simp split: prod.splits)
    qed
  qed
qed

section \<open>Frames\<close>

lemma bit_RELAYED_FRAME: "bit RELAYED_FRAME n \<longleftrightarrow> n = 31"
proof -
  have eq: "RELAYED_FRAME = 2 ^ 31" by (simp add: RELAYED_FRAME_def)
  show ?thesis by (simp only: eq bit_exp_iff possible_bit_word) auto
qed

lemma relayed_bit: "w AND RELAYED_FRAME \<noteq> 0 \<longleftrightarrow> bit w 31"
proof -
  have "w AND RELAYED_FRAME = 0 \<longleftrightarrow> \<not> bit w 31"
  proof
    assume "w AND RELAYED_FRAME = 0"
    then have "\<not> bit (w AND RELAYED_FRAME) 31" by simp
    then show "\<not> bit w 31" by (simp add: bit_and_iff bit_RELAYED_FRAME)
  qed (auto intro!: bit_word_eqI simp: bit_simps bit_RELAYED_FRAME)
  then show ?thesis by simp
qed

lemma relayed_clear:
  assumes "unat w < 2 ^ 31"
  shows "\<not> bit w 31" "w AND NOT RELAYED_FRAME = w" "(w OR RELAYED_FRAME) AND NOT RELAYED_FRAME = w"
proof -
  have "\<not> bit (unat w) 31" using assms by (simp add: bit_iff_odd)
  then show n: "\<not> bit w 31" by (simp add: bit_unsigned_iff)
  show "w AND NOT RELAYED_FRAME = w" "(w OR RELAYED_FRAME) AND NOT RELAYED_FRAME = w"
    using n by (auto intro!: bit_word_eqI simp: bit_simps bit_RELAYED_FRAME)
qed

lemma unat_of_nat_small: "n < 2 ^ 31 \<Longrightarrow> unat (of_nat n :: u32) = n"
  by (simp add: unsigned_of_nat take_bit_nat_eq_self)

lemma frame_bytes_header:
  assumes "length body \<le> MAX_FRAME"
  shows "\<not> frame_relayed (frame_bytes body @ r)" "frame_len (frame_bytes body @ r) = length body"
proof -
  have u: "unat (of_nat (length body) :: u32) = length body"
    using assms by (intro unat_of_nat_small) (simp add: MAX_FRAME_def)
  have h: "u32le (frame_bytes body @ r) 0 = of_nat (length body)"
    by (simp add: u32le_def frame_bytes_def)
  show "\<not> frame_relayed (frame_bytes body @ r)" "frame_len (frame_bytes body @ r) = length body"
    using relayed_clear [of "of_nat (length body)"] u assms
    by (simp_all add: frame_relayed_def frame_len_def h relayed_bit MAX_FRAME_def)
qed

lemma relayed_frame_bytes_header:
  assumes "length body \<le> MAX_FRAME"
  shows "frame_relayed (relayed_frame_bytes origin body @ r)"
    "frame_len (relayed_frame_bytes origin body @ r) = 4 + length body"
proof -
  have u: "unat (of_nat (4 + length body) :: u32) = 4 + length body"
    using assms by (intro unat_of_nat_small) (simp add: MAX_FRAME_def)
  have h: "u32le (relayed_frame_bytes origin body @ r) 0 = of_nat (4 + length body) OR RELAYED_FRAME"
    by (simp add: u32le_def relayed_frame_bytes_def)
  have "(of_nat (4 + length body) OR RELAYED_FRAME) AND NOT RELAYED_FRAME = (of_nat (4 + length body) :: u32)"
    using relayed_clear(3) [of "of_nat (4 + length body)"] u assms by (simp add: MAX_FRAME_def)
  then show "frame_relayed (relayed_frame_bytes origin body @ r)"
    "frame_len (relayed_frame_bytes origin body @ r) = 4 + length body"
    using u by (simp_all only: frame_relayed_def frame_len_def h relayed_bit) (simp add: bit_simps bit_RELAYED_FRAME)
qed

lemma length_frame_bytes [simp]:
  "length (frame_bytes body) = 4 + length body" "length (relayed_frame_bytes origin body) = 8 + length body"
  by (simp_all add: frame_bytes_def relayed_frame_bytes_def)

text \<open>One frame off the front of an identified connection.\<close>

lemma deframe_frame:
  assumes "length body \<le> MAX_FRAME" "tcp_identified p" "tcp_rx p = frame_bytes body @ r"
  shows "deframe h p = (let (q, ds, rs) = deframe h (p\<lparr>tcp_rx := r\<rparr>)
    in (q, \<lparr>dg_from = tcp_id p, dg_bytes = body\<rparr> # ds, (if h then [(tcp_id p, body)] else []) @ rs))"
proof -
  have "take_frame h p = (p\<lparr>tcp_rx := r\<rparr>, [\<lparr>dg_from = tcp_id p, dg_bytes = body\<rparr>], if h then [(tcp_id p, body)] else [])"
    using assms frame_bytes_header [OF assms(1), of r] by (simp add: take_frame_def Let_def) (simp add: frame_bytes_def)
  then show ?thesis
    using assms frame_bytes_header [OF assms(1), of r]
    by (subst deframe_step) (simp add: frame_refused_def split: prod.splits)
qed

lemma deframe_relayed_frame:
  assumes "length body \<le> MAX_FRAME" "tcp_identified p" "tcp_rx p = relayed_frame_bytes origin body @ r"
  shows "deframe False p = (let (q, ds, rs) = deframe False (p\<lparr>tcp_rx := r\<rparr>)
    in (q, \<lparr>dg_from = origin, dg_bytes = body\<rparr> # ds, rs))"
proof -
  have "take_frame False p = (p\<lparr>tcp_rx := r\<rparr>, [\<lparr>dg_from = origin, dg_bytes = body\<rparr>], [])"
    using assms relayed_frame_bytes_header [OF assms(1), of origin r]
    by (simp add: take_frame_def Let_def) (simp add: relayed_frame_bytes_def u32le_def bytes_at_def)
  then show ?thesis
    using assms relayed_frame_bytes_header [OF assms(1), of origin r]
    by (subst deframe_step) (simp add: frame_refused_def split: prod.splits)
qed

text \<open>What the host's relay and its own sends put on the wire to one client.\<close>

fun wire_frame :: "i32 option \<times> u8 list \<Rightarrow> u8 list" where
  "wire_frame (None, body) = frame_bytes body"
| "wire_frame (Some origin, body) = relayed_frame_bytes origin body"

lemma deframe_wire:
  assumes "tcp_identified p" "\<forall>(origin, body)\<in>set fs. length body \<le> MAX_FRAME"
    and "tcp_rx p = concat (map wire_frame fs)" "tcp_id p = i"
  shows "deframe False p = (p\<lparr>tcp_rx := []\<rparr>,
    map (\<lambda>(origin, body). \<lparr>dg_from = (case origin of None \<Rightarrow> i | Some j \<Rightarrow> j), dg_bytes = body\<rparr>) fs, [])"
  using assms
proof (induction fs arbitrary: p)
  case Nil
  then show ?case by (subst deframe_step) simp
next
  case (Cons f fs)
  obtain origin body where f: "f = (origin, body)" by fastforce
  let ?q = "p\<lparr>tcp_rx := concat (map wire_frame fs)\<rparr>"
  have "deframe False ?q = (?q\<lparr>tcp_rx := []\<rparr>,
      map (\<lambda>(origin, body). \<lparr>dg_from = (case origin of None \<Rightarrow> i | Some j \<Rightarrow> j), dg_bytes = body\<rparr>) fs, [])"
    using Cons.prems by (intro Cons.IH) auto
  moreover have "length body \<le> MAX_FRAME" using Cons.prems(2) f by simp
  ultimately show ?case
    using Cons.prems f deframe_frame [of body p "concat (map wire_frame fs)" False]
      deframe_relayed_frame [of body p _ "concat (map wire_frame fs)"]
    by (cases origin) simp_all
qed

section \<open>Properties\<close>


text \<open>
  C35: Frames the host sends or relays to an identified client, each within the frame limit, arrive as
  exactly the datagrams sent, in order, each with the id of the host or of the client it was relayed
  for, and nothing is left over.
\<close>

theorem frames_delivered:
  assumes "tcp_identified p" "\<forall>(origin, body)\<in>set fs. length body \<le> MAX_FRAME"
    and "tcp_rx p = concat (map wire_frame fs)"
  shows "deframe False p = (p\<lparr>tcp_rx := []\<rparr>,
    map (\<lambda>(origin, body). \<lparr>dg_from = (case origin of None \<Rightarrow> tcp_id p | Some i \<Rightarrow> i), dg_bytes = body\<rparr>) fs, [])"
  using assms by (intro deframe_wire refl)

theorem frames_delivered_witness:
  "deframe False \<lparr>tcp_id = 1, tcp_rx = frame_bytes [7] @ relayed_frame_bytes 2 [8, 9], tcp_identified = True, tcp_dead = False\<rparr> =
   (\<lparr>tcp_id = 1, tcp_rx = [], tcp_identified = True, tcp_dead = False\<rparr>,
    [\<lparr>dg_from = 1, dg_bytes = [7]\<rparr>, \<lparr>dg_from = 2, dg_bytes = [8, 9]\<rparr>], [])"
  using frames_delivered [of "\<lparr>tcp_id = 1, tcp_rx = frame_bytes [7] @ relayed_frame_bytes 2 [8, 9],
      tcp_identified = True, tcp_dead = False\<rparr>" "[(None, [7]), (Some 2, [8, 9])]"]
  by (simp add: MAX_FRAME_def)

end
