(* ===== verification/Session.thy ===== *)
theory Session
  imports Extension Transport
begin

text \<open>
  The session layer, \<^verbatim>\<open>src/crates/don-net/src/session.rs\<close>: roster, readiness, match start and the
  packages of each turn, on top of a datagram transport. The transport is a state \<open>'t\<close> inside the
  session and a record of operations that every function takes; a function that returns
  \<^verbatim>\<open>io::Result\<close> returns it with the session after it.
\<close>

section \<open>Data\<close>

record player =
  pl_unique_id :: i32
  pl_name :: rust_string
  pl_is_host :: bool
  pl_is_local :: bool
  pl_ready :: bool
  pl_last_pulse_ms :: u64
  pl_slot :: nat

datatype setup_refusal =
    Malformed internal_error
  | MalformedExtension extension_error
  | GameKeyFromNonHost "i32 option"
  | MatchStartFromNonHost "i32 option"
  | MatchStartBeforeAllReady
  | MatchStartInvalidEpoch u32
  | MatchStartConflict u32 u32 u32 u32
  | SenderIdMismatch i32
  | UnexpectedHostClaim
  | DuplicateAddConflict i32
  | PlayerListFromNonHost
  | PlayerListHostMismatch i32
  | HostMissingFromSlotZero
  | LocalMissingFromRoster
  | ReadyBeforeAdd
  | DestroySenderMismatch i32

record owned_msg =
  om_id :: u8
  om_response :: bool
  om_bytes :: "u8 list"

definition owned_msg_decode :: "owned_msg \<Rightarrow> (framed, msg_error) result" where
  "owned_msg_decode m = net_msg_decode (om_bytes m)"

datatype role = Host | Client

record announced_match_start =
  ms_from :: i32
  ms_epoch :: u32
  ms_seed :: u32

record announced_game_key =
  gk_from :: i32
  gk_seed :: u32
  gk_source :: game_key_source

datatype session_event =
    PlayerJoined i32
  | PlayerLeft i32
  | AllReady
  | ReadyChanged i32 bool
  | SetupRefused i32 setup_refusal
  | Desync i32 i32
  | GameKeyAnnounced i32 u32 game_key_source
  | MatchStarted announced_match_start
  | GameEvent i32 owned_msg

datatype match_start_error =
    NotHost
  | NotAllReady
  | ZeroEpoch
  | AlreadyStarted announced_match_start u32 u32
  | TransportError io_error

record 't session =
  se_transport :: 't
  se_role :: role
  se_local_name :: rust_string
  se_players :: "player list"
  se_events :: "session_event list"
  se_turns :: "(u32, (i8, turn_package) btree) btree"
  se_announced_to :: "i32 list"
  se_all_ready_fired :: bool
  se_now_ms :: u64
  se_last_pulse_sent_ms :: u64
  se_pulse_interval_ms :: u64
  se_timeout_ms :: u64
  se_announced_game_key :: "announced_game_key option"
  se_announced_match_start :: "announced_match_start option"

type_synonym 's io = "'s \<Rightarrow> (unit, io_error) result \<times> 's"

text \<open>\<^verbatim>\<open>m?; k\<close>: an error of \<open>m\<close> ends the function with the state \<open>m\<close> left.\<close>

definition io_then :: "'s io \<Rightarrow> 's io \<Rightarrow> 's io" where
  "io_then m k s = (case m s of (Inl e, s') \<Rightarrow> (Inl e, s') | (Inr _, s') \<Rightarrow> k s')"

definition io_ok :: "'s io" where "io_ok s = (Inr (), s)"

text \<open>\<^verbatim>\<open>iter_mut().find(p)\<close> with an update of what it finds.\<close>

fun update_first :: "('a \<Rightarrow> bool) \<Rightarrow> ('a \<Rightarrow> 'a) \<Rightarrow> 'a list \<Rightarrow> 'a list" where
  "update_first p f [] = []"
| "update_first p f (x # xs) = (if p x then f x # xs else x # update_first p f xs)"

definition find_player :: "i32 \<Rightarrow> 't session \<Rightarrow> player option" where
  "find_player u s = find (\<lambda>p. pl_unique_id p = u) (se_players s)"

definition find_host :: "'t session \<Rightarrow> i32 option" where
  "find_host s = map_option pl_unique_id (find pl_is_host (se_players s))"

definition update_player :: "i32 \<Rightarrow> (player \<Rightarrow> player) \<Rightarrow> 't session \<Rightarrow> 't session" where
  "update_player u f s = s\<lparr>se_players := update_first (\<lambda>p. pl_unique_id p = u) f (se_players s)\<rparr>"

definition push_event :: "session_event \<Rightarrow> 't session \<Rightarrow> 't session" where
  "push_event e s = s\<lparr>se_events := se_events s @ [e]\<rparr>"

definition refuse :: "i32 \<Rightarrow> setup_refusal \<Rightarrow> 't session io" where
  "refuse from reason s = (Inr (), push_event (SetupRefused from reason) s)"

section \<open>Creation and local operations\<close>

definition local_player :: "i32 \<Rightarrow> rust_string \<Rightarrow> role \<Rightarrow> player" where
  "local_player i name r =
     \<lparr>pl_unique_id = i, pl_name = name, pl_is_host = (r = Host), pl_is_local = True,
      pl_ready = False, pl_last_pulse_ms = 0, pl_slot = 0\<rparr>"

definition session_new :: "'t transport \<Rightarrow> 't \<Rightarrow> role \<Rightarrow> rust_string \<Rightarrow> 't session" where
  "session_new ops t r name =
     \<lparr>se_transport = t, se_role = r, se_local_name = name,
      se_players = [local_player (tr_local_id ops t) name r],
      se_events = [], se_turns = [], se_announced_to = [], se_all_ready_fired = False, se_now_ms = 0,
      se_last_pulse_sent_ms = 0, se_pulse_interval_ms = 1000, se_timeout_ms = 30000,
      se_announced_game_key = None, se_announced_match_start = None\<rparr>"

definition set_timeout_ms :: "u64 \<Rightarrow> 't session \<Rightarrow> 't session" where
  "set_timeout_ms ms s = s\<lparr>se_timeout_ms := ms\<rparr>"

definition reset_for_reuse :: "'t transport \<Rightarrow> role \<Rightarrow> 't session \<Rightarrow> 't session" where
  "reset_for_reuse ops r s =
     s\<lparr>se_role := r,
       se_players := [local_player (tr_local_id ops (se_transport s)) (se_local_name s) r],
       se_events := [], se_turns := [], se_announced_to := [], se_all_ready_fired := False,
       se_now_ms := 0, se_last_pulse_sent_ms := 0,
       se_announced_game_key := None, se_announced_match_start := None\<rparr>"

definition session_local_id :: "'t transport \<Rightarrow> 't session \<Rightarrow> i32" where
  "session_local_id ops s = tr_local_id ops (se_transport s)"

definition all_ready :: "'t session \<Rightarrow> bool" where
  "all_ready s \<longleftrightarrow> se_players s \<noteq> [] \<and> list_all pl_ready (se_players s)"

definition session_send :: "'t transport \<Rightarrow> dest \<Rightarrow> u8 list \<Rightarrow> 't session io" where
  "session_send ops dst bytes s =
     (case tr_send ops dst bytes (se_transport s) of (res, t) \<Rightarrow> (res, s\<lparr>se_transport := t\<rparr>))"

definition emit_all :: "'t transport \<Rightarrow> internal_packet \<Rightarrow> 't session io" where
  "emit_all ops p = session_send ops All (internal_packet_encode p)"

definition emit_to :: "'t transport \<Rightarrow> i32 \<Rightarrow> internal_packet \<Rightarrow> 't session io" where
  "emit_to ops peer p = session_send ops (One peer) (internal_packet_encode p)"

text \<open>The local player's ready flag, false if there is none.\<close>

definition local_ready :: "'t session \<Rightarrow> bool" where
  "local_ready s = (case find pl_is_local (se_players s) of Some p \<Rightarrow> pl_ready p | None \<Rightarrow> False)"

definition republish_ready :: "'t transport \<Rightarrow> 't session io" where
  "republish_ready ops s = emit_all ops (ReadyFlag (local_ready s)) s"

definition send_ready_flag :: "'t transport \<Rightarrow> bool \<Rightarrow> 't session io" where
  "send_ready_flag ops ready s =
     emit_all ops (ReadyFlag ready)
       (s\<lparr>se_players := update_first pl_is_local (\<lambda>p. p\<lparr>pl_ready := ready\<rparr>) (se_players s)\<rparr>)"

definition reset_ready_flags :: "'t transport \<Rightarrow> 't session io" where
  "reset_ready_flags ops s =
     emit_all ops (ReadyFlag False)
       (s\<lparr>se_players := map (\<lambda>p. p\<lparr>pl_ready := False\<rparr>) (se_players s), se_all_ready_fired := False\<rparr>)"

definition send_dsync :: "'t transport \<Rightarrow> i32 \<Rightarrow> 't session io" where
  "send_dsync ops frame = emit_all ops (Dsync frame)"

definition start_match ::
    "'t transport \<Rightarrow> u32 \<Rightarrow> u32 \<Rightarrow> 't session \<Rightarrow> (announced_match_start, match_start_error) result \<times> 't session" where
  "start_match ops epoch sd s =
     (if se_role s \<noteq> Host then (Inl NotHost, s)
      else if epoch = 0 then (Inl ZeroEpoch, s)
      else if \<not> all_ready s then (Inl NotAllReady, s)
      else case se_announced_match_start s of
        Some current \<Rightarrow>
          if ms_epoch current = epoch \<and> ms_seed current = sd then (Inr current, s)
          else (Inl (AlreadyStarted current epoch sd), s)
      | None \<Rightarrow>
          (case session_send ops All (extension_encode (MatchStart epoch sd)) s of
             (Inl e, s') \<Rightarrow> (Inl (TransportError e), s')
           | (Inr _, s') \<Rightarrow>
               let started = \<lparr>ms_from = session_local_id ops s', ms_epoch = epoch, ms_seed = sd\<rparr>
               in (Inr started,
                   push_event (MatchStarted started) (s'\<lparr>se_announced_match_start := Some started\<rparr>))))"

definition announce_game_key_to :: "'t transport \<Rightarrow> i32 \<Rightarrow> u32 \<Rightarrow> game_key_source \<Rightarrow> 't session io" where
  "announce_game_key_to ops peer sd src = session_send ops (One peer) (extension_encode (GameKey sd src))"

definition announce_game_key :: "'t transport \<Rightarrow> u32 \<Rightarrow> game_key_source \<Rightarrow> 't session io" where
  "announce_game_key ops sd src = session_send ops All (extension_encode (GameKey sd src))"

definition announce_disconnect :: "'t transport \<Rightarrow> 't session io" where
  "announce_disconnect ops s = emit_all ops (DestroyPlayer (session_local_id ops s)) s"

definition send_all :: "'t transport \<Rightarrow> net_msg \<Rightarrow> 't session io" where
  "send_all ops msg = session_send ops All (net_msg_encode msg)"

definition send_to :: "'t transport \<Rightarrow> i32 \<Rightarrow> net_msg \<Rightarrow> 't session io" where
  "send_to ops u msg = session_send ops (One u) (net_msg_encode msg)"

text \<open>\<^verbatim>\<open>turns.entry(stamp).or_default().insert(play, package)\<close>.\<close>

definition insert_turn :: "u32 \<Rightarrow> i8 \<Rightarrow> u8 list \<Rightarrow> 't session \<Rightarrow> 't session" where
  "insert_turn stamp play payload s =
     (let m = (case bt_get (se_turns s) stamp of None \<Rightarrow> [] | Some m \<Rightarrow> m)
      in s\<lparr>se_turns := bt_insert stamp
             (bt_insert play \<lparr>tp_stamp = stamp, tp_play = play, tp_payload = payload\<rparr> m) (se_turns s)\<rparr>)"

definition send_command_package :: "'t transport \<Rightarrow> u32 \<Rightarrow> i8 \<Rightarrow> u8 list \<Rightarrow> 't session io" where
  "send_command_package ops stamp play payload s =
     (if MAX_COMMAND_PACKAGE_PAYLOAD < length payload then (Inl InvalidInput, s)
      else io_then (send_all ops (CommandPackage stamp play payload))
             (\<lambda>s. (Inr (), insert_turn stamp play payload s)) s)"

definition turn_ready :: "u32 \<Rightarrow> 't session \<Rightarrow> bool" where
  "turn_ready stamp s =
     (case bt_get (se_turns s) stamp of
        None \<Rightarrow> False
      | Some m \<Rightarrow> length (se_players s) \<le> length m)"

definition package_for_turn :: "u32 \<Rightarrow> i8 \<Rightarrow> 't session \<Rightarrow> turn_package option" where
  "package_for_turn stamp play s =
     (case bt_get (se_turns s) stamp of None \<Rightarrow> None | Some m \<Rightarrow> bt_get m play)"

definition take_turn :: "u32 \<Rightarrow> 't session \<Rightarrow> turn_package list \<times> 't session" where
  "take_turn stamp s =
     (case bt_get (se_turns s) stamp of
        None \<Rightarrow> ([], s)
      | Some m \<Rightarrow> (bt_values m, s\<lparr>se_turns := bt_remove stamp (se_turns s)\<rparr>))"

definition drain_events :: "'t session \<Rightarrow> session_event list \<times> 't session" where
  "drain_events s = (se_events s, s\<lparr>se_events := []\<rparr>)"

section \<open>Datagrams\<close>

text \<open>The extension range: the match key and the match start, both the host's.\<close>

definition handle_game_key :: "i32 \<Rightarrow> u32 \<Rightarrow> game_key_source \<Rightarrow> 't session io" where
  "handle_game_key from sd src s =
     (if find_host s \<noteq> Some from then refuse from (GameKeyFromNonHost (find_host s)) s
      else let announcement = \<lparr>gk_from = from, gk_seed = sd, gk_source = src\<rparr>
      in (Inr (), if se_announced_game_key s \<noteq> Some announcement
                  then push_event (GameKeyAnnounced from sd src)
                         (s\<lparr>se_announced_game_key := Some announcement\<rparr>)
                  else s))"

definition handle_match_start :: "i32 \<Rightarrow> u32 \<Rightarrow> u32 \<Rightarrow> 't session io" where
  "handle_match_start from epoch sd s =
     (if find_host s \<noteq> Some from then refuse from (MatchStartFromNonHost (find_host s)) s
      else if \<not> all_ready s then refuse from MatchStartBeforeAllReady s
      else if epoch = 0 then refuse from (MatchStartInvalidEpoch epoch) s
      else let announced = \<lparr>ms_from = from, ms_epoch = epoch, ms_seed = sd\<rparr>
      in case se_announced_match_start s of
           None \<Rightarrow> (Inr (), push_event (MatchStarted announced)
                              (s\<lparr>se_announced_match_start := Some announced\<rparr>))
         | Some current \<Rightarrow>
             if current = announced then (Inr (), s)
             else refuse from (MatchStartConflict (ms_epoch current) (ms_seed current) epoch sd) s)"

fun handle_extension :: "i32 \<Rightarrow> don_extension \<Rightarrow> 't session io" where
  "handle_extension from (GameKey sd src) = handle_game_key from sd src"
| "handle_extension from (MatchStart epoch sd) = handle_match_start from epoch sd"

text \<open>\<^verbatim>\<open>IPT_ADDPLAYER\<close>: the checks, the roster change, and the host's answer.\<close>

definition send_playerlist :: "'t transport \<Rightarrow> 't session io" where
  "send_playerlist ops s =
     (let ids = map pl_unique_id (take MAX_PLAYERS (se_players s))
      in emit_all ops (PlayerList (of_nat (length ids)) (ids @ replicate (MAX_PLAYERS - length ids) 0)) s)"

definition answer_add_player :: "'t transport \<Rightarrow> 't session io" where
  "answer_add_player ops s =
     (if se_role s = Host then
        io_then (send_playerlist ops)
          (\<lambda>s. emit_all ops (AddPlayer (se_local_name s) (session_local_id ops s) True) s) s
      else (Inr (), s))"

definition join_player :: "i32 \<Rightarrow> rust_string \<Rightarrow> bool \<Rightarrow> bool \<Rightarrow> nat \<Rightarrow> 't session \<Rightarrow> 't session" where
  "join_player u name hosting is_local slot s =
     push_event (PlayerJoined u)
       (s\<lparr>se_players := se_players s @
            [\<lparr>pl_unique_id = u, pl_name = name, pl_is_host = hosting, pl_is_local = is_local,
              pl_ready = False, pl_last_pulse_ms = se_now_ms s, pl_slot = slot\<rparr>]\<rparr>)"

definition handle_add_player :: "'t transport \<Rightarrow> i32 \<Rightarrow> rust_string \<Rightarrow> i32 \<Rightarrow> bool \<Rightarrow> 't session io" where
  "handle_add_player ops from name u hosting s =
     (if u \<noteq> from then refuse from (SenderIdMismatch u) s
      else if hosting \<and> (se_role s = Host \<or> find_host s \<noteq> None \<and> find_host s \<noteq> Some u)
      then refuse from UnexpectedHostClaim s
      else case find_player u s of
        Some p \<Rightarrow>
          if pl_name p \<noteq> [] \<and> pl_name p \<noteq> name \<or> pl_is_host p \<noteq> hosting
          then refuse from (DuplicateAddConflict u) s
          else answer_add_player ops
                 (update_player u
                    (\<lambda>p. p\<lparr>pl_name := (if pl_name p = [] then name else pl_name p), pl_is_host := hosting\<rparr>) s)
      | None \<Rightarrow>
          io_then (republish_ready ops) (answer_add_player ops)
            (join_player u name hosting False (length (se_players s)) s))"

text \<open>\<^verbatim>\<open>IPT_PLAYERLIST\<close>. A decoded list has at most eight players, so the slice is within the array.\<close>

fun merge_roster :: "'t transport \<Rightarrow> i32 \<Rightarrow> nat \<Rightarrow> i32 list \<Rightarrow> 't session \<Rightarrow> 't session \<times> bool" where
  "merge_roster ops from slot [] s = (s, False)"
| "merge_roster ops from slot (u # us) s =
     (if u = 0 then merge_roster ops from (Suc slot) us s
      else case find_player u s of
        Some _ \<Rightarrow>
          merge_roster ops from (Suc slot) us
            (update_player u (\<lambda>p. p\<lparr>pl_slot := slot, pl_is_host := (u = from)\<rparr>) s)
      | None \<Rightarrow>
          (let (s', _) = merge_roster ops from (Suc slot) us
                 (join_player u [] (u = from) (u = session_local_id ops s) slot s)
           in (s', True)))"

fun drop_players :: "i32 list \<Rightarrow> 't session \<Rightarrow> 't session" where
  "drop_players [] s = s"
| "drop_players (u # us) s =
     drop_players us
       (push_event (PlayerLeft u)
          (s\<lparr>se_players := filter (\<lambda>p. pl_unique_id p \<noteq> u) (se_players s),
             se_announced_to := filter (\<lambda>peer. peer \<noteq> u) (se_announced_to s)\<rparr>))"

definition prune_roster :: "i32 list \<Rightarrow> 't session \<Rightarrow> 't session" where
  "prune_roster keep s =
     (let dropped = map pl_unique_id
            (filter (\<lambda>p. \<not> pl_is_local p \<and> pl_unique_id p \<notin> set keep) (se_players s));
          s = drop_players dropped s
      in s\<lparr>se_players := sort_key pl_slot (se_players s)\<rparr>)"

definition accept_player_list :: "'t transport \<Rightarrow> i32 \<Rightarrow> i32 list \<Rightarrow> 't session io" where
  "accept_player_list ops from keep s =
     (case merge_roster ops from 0 keep s of
        (s, grew) \<Rightarrow>
          io_then (if grew then republish_ready ops else io_ok) (\<lambda>s. (Inr (), prune_roster keep s)) s)"

definition handle_player_list :: "'t transport \<Rightarrow> i32 \<Rightarrow> u8 \<Rightarrow> i32 list \<Rightarrow> 't session io" where
  "handle_player_list ops from num unique_ids s =
     (if se_role s = Host then refuse from PlayerListFromNonHost s
      else if find_host s \<noteq> None \<and> find_host s \<noteq> Some from
      then refuse from (PlayerListHostMismatch (the (find_host s))) s
      else if unique_ids ! 0 \<noteq> from then refuse from HostMissingFromSlotZero s
      else let listed = take (unat num) unique_ids
      in if session_local_id ops s \<notin> set listed then refuse from LocalMissingFromRoster s
         else accept_player_list ops from listed s)"

definition handle_ready_flag :: "i32 \<Rightarrow> bool \<Rightarrow> 't session io" where
  "handle_ready_flag from ready s =
     (case find_player from s of
        Some p \<Rightarrow>
          (Inr (), if pl_ready p \<noteq> ready
                   then push_event (ReadyChanged from ready)
                          (update_player from (\<lambda>p. p\<lparr>pl_ready := ready\<rparr>) s)
                   else s)
      | None \<Rightarrow> refuse from ReadyBeforeAdd s)"

definition handle_pulse :: "i32 \<Rightarrow> 't session io" where
  "handle_pulse from s = (Inr (), update_player from (\<lambda>p. p\<lparr>pl_last_pulse_ms := se_now_ms s\<rparr>) s)"

definition handle_destroy_player :: "i32 \<Rightarrow> i32 \<Rightarrow> 't session io" where
  "handle_destroy_player from u s =
     (if u \<noteq> from then refuse from (DestroySenderMismatch u) s
      else let s = s\<lparr>se_announced_to := filter (\<lambda>peer. peer \<noteq> u) (se_announced_to s)\<rparr>
      in (Inr (), if list_ex (\<lambda>p. pl_unique_id p = u) (se_players s)
                  then push_event (PlayerLeft u)
                         (s\<lparr>se_players := filter (\<lambda>p. pl_unique_id p \<noteq> u) (se_players s)\<rparr>)
                  else s))"

definition handle_migrate_host :: "'t transport \<Rightarrow> i32 \<Rightarrow> 't session io" where
  "handle_migrate_host ops new_host s =
     (Inr (), s\<lparr>se_players := map (\<lambda>p. p\<lparr>pl_is_host := (pl_unique_id p = new_host)\<rparr>) (se_players s),
                se_role := (if new_host = session_local_id ops s then Host else se_role s)\<rparr>)"

fun handle_internal :: "'t transport \<Rightarrow> i32 \<Rightarrow> internal_packet \<Rightarrow> 't session io" where
  "handle_internal ops from (AddPlayer name u hosting) s = handle_add_player ops from name u hosting s"
| "handle_internal ops from (PlayerList num unique_ids) s = handle_player_list ops from num unique_ids s"
| "handle_internal ops from (ReadyFlag ready) s = handle_ready_flag from ready s"
| "handle_internal ops from Pulse s = handle_pulse from s"
| "handle_internal ops from (Dsync frame) s = (Inr (), push_event (Desync from frame) s)"
| "handle_internal ops from (DestroyPlayer u) s = handle_destroy_player from u s"
| "handle_internal ops from (MigrateHost new_host) s = handle_migrate_host ops new_host s"
| "handle_internal ops from (DropRequest _) s = (Inr (), s)"
| "handle_internal ops from (CancelDropRequest _) s = (Inr (), s)"

definition handle_game :: "datagram \<Rightarrow> 't session io" where
  "handle_game d s =
     (case net_msg_decode (dg_bytes d) of
        Inl _ \<Rightarrow> (Inr (), s)
      | Inr f \<Rightarrow>
          let s = (case fr_msg f of
                     CommandPackage stamp play payload \<Rightarrow> insert_turn stamp play payload s
                   | _ \<Rightarrow> s)
          in (Inr (), push_event (GameEvent (dg_from d)
                        \<lparr>om_id = mt_id (fr_ty f), om_response = mt_response (fr_ty f), om_bytes = dg_bytes d\<rparr>) s))"

definition handle_datagram :: "'t transport \<Rightarrow> datagram \<Rightarrow> 't session io" where
  "handle_datagram ops d s =
     (case dg_bytes d of
        [] \<Rightarrow> (Inr (), s)
      | first # _ \<Rightarrow>
          if is_extension first then
            (case extension_decode (dg_bytes d) of
               Inl e \<Rightarrow> refuse (dg_from d) (MalformedExtension e) s
             | Inr p \<Rightarrow> handle_extension (dg_from d) p s)
          else if IPT_BASE \<le> first then
            (case internal_packet_decode (dg_bytes d) of
               Inl e \<Rightarrow> refuse (dg_from d) (Malformed e) s
             | Inr p \<Rightarrow> handle_internal ops (dg_from d) p s)
          else handle_game d s)"

section \<open>Polling\<close>

fun greet :: "'t transport \<Rightarrow> internal_packet \<Rightarrow> bool \<Rightarrow> i32 list \<Rightarrow> 't session io" where
  "greet ops add ready [] s = (Inr (), s)"
| "greet ops add ready (peer # peers) s =
     io_then (emit_to ops peer add)
       (io_then (emit_to ops peer (ReadyFlag ready))
          (\<lambda>s. greet ops add ready peers (s\<lparr>se_announced_to := se_announced_to s @ [peer]\<rparr>))) s"

definition greet_fresh :: "'t transport \<Rightarrow> 't session io" where
  "greet_fresh ops s =
     greet ops (AddPlayer (se_local_name s) (session_local_id ops s) (se_role s = Host)) (local_ready s)
       (filter (\<lambda>p. p \<notin> set (se_announced_to s)) (tr_peers ops (se_transport s))) s"

definition send_pulse :: "'t transport \<Rightarrow> 't session io" where
  "send_pulse ops s =
     (if se_pulse_interval_ms s \<le> saturating_sub (se_now_ms s) (se_last_pulse_sent_ms s)
      then io_then (emit_all ops Pulse) (\<lambda>s. (Inr (), s\<lparr>se_last_pulse_sent_ms := se_now_ms s\<rparr>)) s
      else (Inr (), s))"

definition poll_transport :: "'t transport \<Rightarrow> nat \<Rightarrow> 't session io" where
  "poll_transport ops budget s =
     (case tr_poll ops budget (se_transport s) of (res, t) \<Rightarrow> (res, s\<lparr>se_transport := t\<rparr>))"

text \<open>
  \<^verbatim>\<open>while let Some(d) = self.transport.recv()? { self.handle(d)?; }\<close>: a transport that never runs dry
  keeps the loop going for ever, which is \<^const>\<open>None\<close>.
\<close>

partial_function (option) receive_all ::
    "'t transport \<Rightarrow> 't session \<Rightarrow> ((unit, io_error) result \<times> 't session) option" where
  "receive_all ops s =
     (case tr_recv ops (se_transport s) of
        (Inl e, t) \<Rightarrow> Some (Inl e, s\<lparr>se_transport := t\<rparr>)
      | (Inr None, t) \<Rightarrow> Some (Inr (), s\<lparr>se_transport := t\<rparr>)
      | (Inr (Some d), t) \<Rightarrow>
          (case handle_datagram ops d (s\<lparr>se_transport := t\<rparr>) of
             (Inl e, s') \<Rightarrow> Some (Inl e, s')
           | (Inr _, s') \<Rightarrow> receive_all ops s'))"

definition reap_timeouts :: "'t session \<Rightarrow> 't session" where
  "reap_timeouts s =
     drop_players
       (map pl_unique_id
          (filter (\<lambda>p. \<not> pl_is_local p \<and>
                       se_timeout_ms s < saturating_sub (se_now_ms s) (pl_last_pulse_ms p)) (se_players s))) s"

definition fire_all_ready :: "'t session \<Rightarrow> 't session" where
  "fire_all_ready s =
     (if all_ready s \<and> \<not> se_all_ready_fired s
      then push_event AllReady (s\<lparr>se_all_ready_fired := True\<rparr>)
      else if \<not> all_ready s then s\<lparr>se_all_ready_fired := False\<rparr> else s)"

definition poll ::
    "'t transport \<Rightarrow> u64 \<Rightarrow> nat \<Rightarrow> 't session \<Rightarrow> ((unit, io_error) result \<times> 't session) option" where
  "poll ops now_ms budget s =
     (case io_then (greet_fresh ops) (io_then (send_pulse ops) (poll_transport ops budget))
             (s\<lparr>se_now_ms := now_ms\<rparr>) of
        (Inl e, s) \<Rightarrow> Some (Inl e, s)
      | (Inr _, s) \<Rightarrow>
          (case receive_all ops s of
             None \<Rightarrow> None
           | Some (Inl e, s) \<Rightarrow> Some (Inl e, s)
           | Some (Inr _, s) \<Rightarrow> Some (Inr (), fire_all_ready (reap_timeouts s))))"

end
