(* ===== verification/Session_Properties.thy ===== *)
theory Session_Properties
  imports Session "HOL-Library.Multiset"
begin

text \<open>
  What the session layer keeps: the shape of the roster and of the stored turns under every datagram
  from another participant, the authority rules of the setup, and that a poll ends.
\<close>

section \<open>The roster\<close>

definition roster_ok :: "i32 \<Rightarrow> player list \<Rightarrow> bool" where
  "roster_ok me ps \<longleftrightarrow>
     distinct (map pl_unique_id ps) \<and> me \<in> set (map pl_unique_id ps) \<and>
     list_all (\<lambda>p. pl_is_local p \<longleftrightarrow> pl_unique_id p = me) ps \<and> length (filter pl_is_host ps) \<le> 1"

definition turns_ok :: "(u32, (i8, turn_package) btree) btree \<Rightarrow> bool" where
  "turns_ok turns \<longleftrightarrow>
     bt_wf turns \<and>
     list_all (\<lambda>(stamp, m). m \<noteq> [] \<and> bt_wf m \<and>
       list_all (\<lambda>(play, p). tp_stamp p = stamp \<and> tp_play p = play) m) turns"

definition session_inv :: "'t transport \<Rightarrow> 't session \<Rightarrow> bool" where
  "session_inv ops s \<longleftrightarrow>
     roster_ok (session_local_id ops s) (se_players s) \<and> turns_ok (se_turns s) \<and>
     (case se_announced_match_start s of None \<Rightarrow> True | Some m \<Rightarrow> ms_epoch m \<noteq> 0)"

lemma map_update_first:
  "(\<And>x. g (f x) = g x) \<Longrightarrow> map g (update_first P f xs) = map g xs"
  by (induction xs) auto

lemma set_update_first:
  "x \<in> set (update_first P f xs) \<Longrightarrow> x \<in> set xs \<or> (\<exists>y\<in>set xs. P y \<and> x = f y)"
  by (induction xs) (auto split: if_splits)

lemma one_host_iff:
  assumes "distinct (map pl_unique_id ps)"
  shows "length (filter pl_is_host ps) \<le> 1 \<longleftrightarrow> (\<exists>h. \<forall>p\<in>set ps. pl_is_host p \<longrightarrow> pl_unique_id p = h)"
    (is "?l \<longleftrightarrow> ?r")
proof
  assume ?l
  then have "filter pl_is_host ps = [] \<or> (\<exists>q. filter pl_is_host ps = [q])"
    by (cases "filter pl_is_host ps") auto
  then show ?r
  proof (elim disjE exE)
    fix q assume "filter pl_is_host ps = [q]"
    then have "\<forall>p\<in>set ps. pl_is_host p \<longrightarrow> p \<in> set [q]" using set_filter [of pl_is_host ps] by force
    then show ?r by (intro exI [of _ "pl_unique_id q"]) simp
  qed (auto simp: filter_empty_conv)
next
  assume ?r
  then obtain h where h: "\<forall>p\<in>set ps. pl_is_host p \<longrightarrow> pl_unique_id p = h" by blast
  have "distinct (map pl_unique_id (filter pl_is_host ps))"
    using assms by (simp add: distinct_map_filter)
  moreover have "set (map pl_unique_id (filter pl_is_host ps)) \<subseteq> {h}" using h by auto
  ultimately have "length (map pl_unique_id (filter pl_is_host ps)) \<le> card {h}"
    by (metis card_mono distinct_card finite.emptyI finite.insertI)
  then show ?l by simp
qed

lemma roster_ok_iff:
  "roster_ok me ps \<longleftrightarrow>
     distinct (map pl_unique_id ps) \<and> me \<in> pl_unique_id ` set ps \<and>
     (\<forall>p\<in>set ps. pl_is_local p \<longleftrightarrow> pl_unique_id p = me) \<and>
     (\<exists>h. \<forall>p\<in>set ps. pl_is_host p \<longrightarrow> pl_unique_id p = h)"
  unfolding roster_ok_def using one_host_iff [of ps] by (auto simp: list_all_iff)

lemma roster_ok_update_hosts:
  assumes ok: "roster_ok me ps"
    and f: "\<And>p. pl_unique_id (f p) = pl_unique_id p" "\<And>p. pl_is_local (f p) = pl_is_local p"
    and host: "\<forall>p\<in>set (update_first P f ps). pl_is_host p \<longrightarrow> pl_unique_id p = h"
  shows "roster_ok me (update_first P f ps)"
proof -
  have loc: "\<forall>p\<in>set ps. pl_is_local p \<longleftrightarrow> pl_unique_id p = me"
    and me: "me \<in> set (map pl_unique_id ps)" and dist: "distinct (map pl_unique_id ps)"
    using ok by (auto simp: roster_ok_iff)
  have "\<forall>p\<in>set (update_first P f ps). pl_is_local p \<longleftrightarrow> pl_unique_id p = me"
  proof
    fix p assume "p \<in> set (update_first P f ps)"
    then consider "p \<in> set ps" | y where "y \<in> set ps" "p = f y" using set_update_first by fastforce
    then show "pl_is_local p \<longleftrightarrow> pl_unique_id p = me" using loc f by cases simp_all
  qed
  moreover have "map pl_unique_id (update_first P f ps) = map pl_unique_id ps"
    using f(1) by (rule map_update_first)
  ultimately show ?thesis using me dist host
    unfolding roster_ok_iff by (metis list.set_map)
qed

lemma roster_ok_update:
  assumes ok: "roster_ok me ps"
    and f: "\<And>p. pl_unique_id (f p) = pl_unique_id p" "\<And>p. pl_is_local (f p) = pl_is_local p"
      "\<And>p. p \<in> set ps \<Longrightarrow> P p \<Longrightarrow> pl_is_host (f p) \<Longrightarrow> pl_is_host p"
  shows "roster_ok me (update_first P f ps)"
proof -
  obtain h where h: "\<forall>p\<in>set ps. pl_is_host p \<longrightarrow> pl_unique_id p = h"
    using ok by (auto simp: roster_ok_iff)
  then have "\<forall>p\<in>set (update_first P f ps). pl_is_host p \<longrightarrow> pl_unique_id p = h"
    using f by (auto dest!: set_update_first)
  then show ?thesis using roster_ok_update_hosts [OF ok f(1,2)] by blast
qed

lemma roster_ok_append:
  assumes "roster_ok me ps" "pl_unique_id p \<notin> set (map pl_unique_id ps)" "\<not> pl_is_local p"
    and "pl_is_host p \<Longrightarrow> \<forall>q\<in>set ps. \<not> pl_is_host q"
  shows "roster_ok me (ps @ [p])"
proof -
  have "filter pl_is_host ps = []" if "pl_is_host p" using assms(4) that by (simp add: filter_empty_conv)
  then show ?thesis using assms(1-3) by (auto simp: roster_ok_def)
qed

lemma roster_ok_filter:
  assumes "roster_ok me ps" "\<And>p. p \<in> set ps \<Longrightarrow> pl_unique_id p = me \<Longrightarrow> Q p"
  shows "roster_ok me (filter Q ps)"
  unfolding roster_ok_iff
proof (intro conjI)
  show "distinct (map pl_unique_id (filter Q ps))" using assms(1) by (simp add: roster_ok_iff distinct_map_filter)
  show "me \<in> pl_unique_id ` set (filter Q ps)" using assms by (auto simp: roster_ok_iff)
  show "\<forall>p\<in>set (filter Q ps). pl_is_local p \<longleftrightarrow> pl_unique_id p = me" using assms by (simp add: roster_ok_iff)
  show "\<exists>h. \<forall>p\<in>set (filter Q ps). pl_is_host p \<longrightarrow> pl_unique_id p = h"
    using assms by (auto simp: roster_ok_iff)
qed

lemma roster_ok_perm:
  assumes "roster_ok me ps" "mset qs = mset ps"
  shows "roster_ok me qs"
proof -
  have "mset (map pl_unique_id qs) = mset (map pl_unique_id ps)" using assms(2) by simp
  then have "distinct (map pl_unique_id qs) = distinct (map pl_unique_id ps)" by (rule mset_eq_imp_distinct_iff)
  moreover have "set qs = set ps" using assms(2) by (rule mset_eq_setD)
  ultimately show ?thesis using assms(1) by (simp add: roster_ok_iff)
qed

lemma roster_ok_migrate:
  assumes "roster_ok me ps"
  shows "roster_ok me (map (\<lambda>p. p\<lparr>pl_is_host := (pl_unique_id p = h)\<rparr>) ps)"
  using assms unfolding roster_ok_iff by (simp add: comp_def image_image)

lemma roster_ok_local: "roster_ok i [local_player i name r]"
  by (simp add: roster_ok_def local_player_def)

text \<open>Who the first host is, when there is at most one.\<close>

lemma find_host_None: "find_host s = None \<longleftrightarrow> (\<forall>p\<in>set (se_players s). \<not> pl_is_host p)"
  by (auto simp: find_host_def find_None_iff)

lemma find_host_Some:
  assumes "roster_ok me (se_players s)" "find_host s = Some h"
  shows "\<forall>p\<in>set (se_players s). pl_is_host p \<longrightarrow> pl_unique_id p = h"
proof -
  obtain q where "q \<in> set (se_players s)" "pl_is_host q" "pl_unique_id q = h"
    using assms(2) by (auto simp: find_host_def find_Some_iff intro: nth_mem)
  then show ?thesis using assms(1) by (auto simp: roster_ok_iff)
qed

lemma find_player_None: "find_player u s = None \<longleftrightarrow> u \<notin> set (map pl_unique_id (se_players s))"
  by (auto simp: find_player_def find_None_iff)

lemma find_player_Some:
  "find_player u s = Some p \<Longrightarrow> p \<in> set (se_players s) \<and> pl_unique_id p = u"
  by (auto simp: find_player_def find_Some_iff)

section \<open>What sends and bookkeeping leave alone\<close>

definition keeps :: "('s \<Rightarrow> bool) \<Rightarrow> 's io \<Rightarrow> bool" where
  "keeps P m \<longleftrightarrow> (\<forall>s. P s \<longrightarrow> P (snd (m s)))"

named_theorems keeps_intros

lemma keepsI: "(\<And>s. P s \<Longrightarrow> P (snd (m s))) \<Longrightarrow> keeps P m"
  by (simp add: keeps_def)

lemma keepsD: "keeps P m \<Longrightarrow> P s \<Longrightarrow> P (snd (m s))"
  by (simp add: keeps_def)

lemma keeps_then [keeps_intros]: "keeps P m \<Longrightarrow> keeps P k \<Longrightarrow> keeps P (io_then m k)"
  unfolding keeps_def io_then_def by (metis (no_types, lifting) old.prod.case prod.exhaust_sel snd_conv sum.case_eq_if)

lemma keeps_ok [keeps_intros]: "keeps P io_ok"
  by (simp add: keeps_def io_ok_def)

lemma keeps_if [keeps_intros]: "keeps P m \<Longrightarrow> keeps P k \<Longrightarrow> keeps P (if b then m else k)"
  by simp

text \<open>
  Handling a datagram changes the transport only by sending packets of four kinds, and it leaves the
  clock, the settings, a match start that is already there and the edge of \<open>AllReady\<close> alone. An
  internal packet moreover leaves the match start, the key and everything of the game alone.
\<close>

fun is_game_event :: "session_event \<Rightarrow> bool" where
  "is_game_event (GameEvent _ _) = True"
| "is_game_event _ = False"

fun polite_packet :: "internal_packet \<Rightarrow> bool" where
  "polite_packet (AddPlayer _ _ _) = True"
| "polite_packet (PlayerList _ _) = True"
| "polite_packet (ReadyFlag _) = True"
| "polite_packet Pulse = True"
| "polite_packet _ = False"

inductive sends :: "'t transport \<Rightarrow> 't \<Rightarrow> 't \<Rightarrow> bool" for ops :: "'t transport" where
  sends_refl: "sends ops t t"
| sends_step: "sends ops t t' \<Longrightarrow> polite_packet p \<Longrightarrow>
    sends ops t (snd (tr_send ops dst (internal_packet_encode p) t'))"

definition session_same :: "'t session \<Rightarrow> 't session \<Rightarrow> bool" where
  "session_same s0 s \<longleftrightarrow>
     se_now_ms s = se_now_ms s0 \<and> se_timeout_ms s = se_timeout_ms s0 \<and> se_local_name s = se_local_name s0 \<and>
     se_all_ready_fired s = se_all_ready_fired s0 \<and>
     filter (\<lambda>e. e = AllReady) (se_events s) = filter (\<lambda>e. e = AllReady) (se_events s0) \<and>
     (se_announced_match_start s0 \<noteq> None \<longrightarrow> se_announced_match_start s = se_announced_match_start s0)"

definition session_frame :: "'t transport \<Rightarrow> 't session \<Rightarrow> 't session \<Rightarrow> bool" where
  "session_frame ops s0 s \<longleftrightarrow>
     sends ops (se_transport s0) (se_transport s) \<and> session_same s0 s \<and>
     se_announced_match_start s = se_announced_match_start s0 \<and>
     se_announced_game_key s = se_announced_game_key s0 \<and> se_turns s = se_turns s0 \<and>
     filter is_game_event (se_events s) = filter is_game_event (se_events s0)"

lemma session_same_refl: "session_same s s"
  by (simp add: session_same_def)

lemma session_same_trans: "session_same s s' \<Longrightarrow> session_same s' s'' \<Longrightarrow> session_same s s''"
  by (auto simp: session_same_def)

lemma session_frame_refl: "session_frame ops s s"
  by (simp add: session_frame_def session_same_def sends_refl)

lemma session_frame_simps [simp]:
  "session_frame ops s0 (s\<lparr>se_players := x\<rparr>) = session_frame ops s0 s"
  "session_frame ops s0 (s\<lparr>se_announced_to := a\<rparr>) = session_frame ops s0 s"
  "session_frame ops s0 (s\<lparr>se_role := r\<rparr>) = session_frame ops s0 s"
  by (simp_all add: session_frame_def session_same_def)

lemma push_event_simps [simp]:
  "se_players (push_event e s) = se_players s" "se_turns (push_event e s) = se_turns s"
  "se_transport (push_event e s) = se_transport s" "se_role (push_event e s) = se_role s"
  "se_announced_match_start (push_event e s) = se_announced_match_start s"
  "session_local_id ops (push_event e s) = session_local_id ops s"
  "session_inv ops (push_event e s) = session_inv ops s"
  by (simp_all add: push_event_def session_local_id_def session_inv_def)

lemma push_event_frame [simp]:
  "e \<noteq> AllReady \<Longrightarrow> \<not> is_game_event e \<Longrightarrow> session_frame ops s0 (push_event e s) = session_frame ops s0 s"
  by (simp add: push_event_def session_frame_def session_same_def)

lemma update_player_frame [simp]:
  "session_frame ops s0 (update_player u f s) = session_frame ops s0 s"
  by (simp add: update_player_def)

lemma join_player_frame [simp]:
  "session_frame ops s0 (join_player u n h l sl s) = session_frame ops s0 s"
  by (simp add: join_player_def)

lemma drop_players_frame [simp]:
  "session_frame ops s0 (drop_players us s) = session_frame ops s0 s"
  by (induction us arbitrary: s) simp_all

lemma merge_roster_frame:
  "session_frame ops s0 s \<Longrightarrow> session_frame ops s0 (fst (merge_roster ops from slot us s))"
  by (induction us arbitrary: s slot) (auto simp: case_prod_beta split: option.splits)

lemma refuse_simps [simp]: "snd (refuse from r s) = push_event (SetupRefused from r) s" "fst (refuse from r s) = Inr ()"
  by (simp_all add: refuse_def)

lemma frame_send:
  assumes "polite_packet p"
  shows "keeps (session_frame ops s0) (session_send ops d (internal_packet_encode p))"
proof (rule keepsI)
  fix s assume "session_frame ops s0 s"
  then show "session_frame ops s0 (snd (session_send ops d (internal_packet_encode p) s))"
    using sends_step [of ops "se_transport s0" "se_transport s" p d] assms
    by (auto simp: session_frame_def session_send_def session_same_def split: prod.splits)
qed

lemma frame_emit_all [keeps_intros]: "polite_packet p \<Longrightarrow> keeps (session_frame ops s0) (emit_all ops p)"
  unfolding emit_all_def by (rule frame_send)

lemma frame_republish [keeps_intros]: "keeps (session_frame ops s0) (republish_ready ops)"
  by (rule keepsI) (simp add: republish_ready_def keepsD [OF frame_emit_all])

lemma frame_answer [keeps_intros]: "keeps (session_frame ops s0) (answer_add_player ops)"
proof (rule keepsI)
  fix s assume s: "session_frame ops s0 s"
  have "keeps (session_frame ops s0) (send_playerlist ops)"
    by (rule keepsI) (simp add: send_playerlist_def Let_def keepsD [OF frame_emit_all])
  moreover have "keeps (session_frame ops s0)
      (\<lambda>s. emit_all ops (AddPlayer (se_local_name s) (session_local_id ops s) True) s)"
    by (rule keepsI) (simp add: keepsD [OF frame_emit_all])
  ultimately have "keeps (session_frame ops s0) (io_then (send_playerlist ops)
      (\<lambda>s. emit_all ops (AddPlayer (se_local_name s) (session_local_id ops s) True) s))"
    by (rule keeps_then)
  from keepsD [OF this s] s show "session_frame ops s0 (snd (answer_add_player ops s))"
    by (simp add: answer_add_player_def)
qed

lemma frame_add_player: "keeps (session_frame ops s0) (handle_add_player ops from name u hosting)"
proof (rule keepsI)
  fix s assume s: "session_frame ops s0 s"
  have "keeps (session_frame ops s0) (io_then (republish_ready ops) (answer_add_player ops))"
    by (intro keeps_intros)
  then show "session_frame ops s0 (snd (handle_add_player ops from name u hosting s))"
    using s by (simp add: handle_add_player_def keepsD keepsD [OF frame_answer] split: option.splits)
qed

lemma frame_player_list: "keeps (session_frame ops s0) (handle_player_list ops from num us)"
proof (rule keepsI)
  fix s assume s: "session_frame ops s0 s"
  have k: "keeps (session_frame ops s0) (\<lambda>s. (Inr (), prune_roster keep s))" for keep
    by (simp add: keeps_def prune_roster_def Let_def)
  have "session_frame ops s0 (snd (accept_player_list ops from keep s))" for keep
  proof -
    obtain s' grew where m: "merge_roster ops from 0 keep s = (s', grew)" by fastforce
    have "session_frame ops s0 s'" using merge_roster_frame [OF s, of "from" 0 keep] m by simp
    moreover have "keeps (session_frame ops s0)
        (io_then (if grew then republish_ready ops else io_ok) (\<lambda>s. (Inr (), prune_roster keep s)))"
      by (intro keeps_intros k)
    ultimately have "session_frame ops s0 (snd (io_then (if grew then republish_ready ops else io_ok)
        (\<lambda>s. (Inr (), prune_roster keep s)) s'))" by (rule keepsD [rotated])
    then show ?thesis by (simp add: accept_player_list_def m)
  qed
  then show "session_frame ops s0 (snd (handle_player_list ops from num us s))"
    using s by (simp add: handle_player_list_def Let_def)
qed

lemma frame_internal: "keeps (session_frame ops s0) (handle_internal ops from p)"
  unfolding keeps_def
proof (intro allI impI)
  fix s assume s: "session_frame ops s0 s"
  then show "session_frame ops s0 (snd (handle_internal ops from p s))"
    by (cases p) (auto simp: handle_ready_flag_def handle_pulse_def handle_destroy_player_def
        handle_migrate_host_def Let_def intro: keepsD [OF frame_add_player] keepsD [OF frame_player_list]
        split: option.splits)
qed

lemmas frame_internal' = keepsD [OF frame_internal session_frame_refl]

lemma session_same_push [simp]: "e \<noteq> AllReady \<Longrightarrow> session_same s0 (push_event e s) = session_same s0 s"
  by (simp add: push_event_def session_same_def)

lemma session_same_simps [simp]:
  "session_same s s"
  "session_same s0 (s\<lparr>se_announced_game_key := g\<rparr>) = session_same s0 s"
  "session_same s0 (insert_turn stamp play payload s) = session_same s0 s"
  "se_transport (insert_turn stamp play payload s) = se_transport s"
  "se_announced_match_start s = None \<Longrightarrow> session_same s (s\<lparr>se_announced_match_start := m\<rparr>)"
  by (simp_all add: session_same_def insert_turn_def Let_def)

lemma datagram_same:
  "sends ops (se_transport s) (se_transport (snd (handle_datagram ops d s))) \<and>
   session_same s (snd (handle_datagram ops d s))"
proof -
  have "se_transport (snd (handle_extension from p s)) = se_transport s \<and>
      session_same s (snd (handle_extension from p s))" for "from" p
    by (cases p) (simp_all add: handle_game_key_def handle_match_start_def Let_def split: option.splits)
  moreover have "se_transport (snd (handle_game d s)) = se_transport s \<and> session_same s (snd (handle_game d s))"
    by (simp add: handle_game_def Let_def split: sum.splits net_msg.splits)
  moreover have "sends ops (se_transport s) (se_transport (snd (handle_internal ops from p s))) \<and>
      session_same s (snd (handle_internal ops from p s))" for "from" p
    using frame_internal' [of ops s "from" p] by (simp add: session_frame_def)
  ultimately show ?thesis
    by (simp add: handle_datagram_def sends_refl split: list.splits sum.splits)
qed

context datagram_transport
begin

lemma sends_law: "sends ops t t' \<Longrightarrow> backlog t' \<le> backlog t \<and> tr_local_id ops t' = tr_local_id ops t"
  by (induction rule: sends.induct) (auto simp: send_local intro: order_trans [OF send_backlog])

text \<open>
  The receive loop ends, and what every datagram keeps holds after it. The rule is used for each
  property of a whole poll.
\<close>

lemma receive_all_rule:
  assumes "I s"
    and last: "\<And>s r t. I s \<Longrightarrow> tr_recv ops (se_transport s) = (r, t) \<Longrightarrow> \<forall>d. r \<noteq> Inr (Some d) \<Longrightarrow>
      I (s\<lparr>se_transport := t\<rparr>)"
    and step: "\<And>s d t. I s \<Longrightarrow> tr_recv ops (se_transport s) = (Inr (Some d), t) \<Longrightarrow>
      I (snd (handle_datagram ops d (s\<lparr>se_transport := t\<rparr>)))"
  shows "\<exists>r s'. receive_all ops s = Some (r, s') \<and> I s'"
  using assms(1)
proof (induction "backlog (se_transport s)" arbitrary: s rule: less_induct)
  case less
  obtain r t where r: "tr_recv ops (se_transport s) = (r, t)" by fastforce
  show ?case
  proof (cases "\<exists>d. r = Inr (Some d)")
    case True
    then obtain d where d: "r = Inr (Some d)" by blast
    obtain q s' where h: "handle_datagram ops d (s\<lparr>se_transport := t\<rparr>) = (q, s')" by fastforce
    have I: "I s'" using step [OF less.prems r [unfolded d]] by (simp add: h)
    have "sends ops t (se_transport s')"
      using datagram_same [of ops "s\<lparr>se_transport := t\<rparr>" d] by (simp add: h)
    then have "backlog (se_transport s') < backlog (se_transport s)"
      using recv_backlog [OF r [unfolded d]] sends_law by fastforce
    then have "\<exists>r s''. receive_all ops s' = Some (r, s'') \<and> I s''" using less.hyps I by blast
    then show ?thesis
      unfolding receive_all.simps [of ops s] using I by (cases q) (simp_all add: r d h)
  next
    case False
    then have "I (s\<lparr>se_transport := t\<rparr>)" using last less.prems r by blast
    then show ?thesis
      unfolding receive_all.simps [of ops s] using False
      by (cases r) (auto simp: r split: option.splits)
  qed
qed

end

section \<open>The invariant under every datagram\<close>

lemma session_inv_cong:
  assumes "session_inv ops s" "session_local_id ops s' = session_local_id ops s" "se_players s' = se_players s"
    "se_turns s' = se_turns s" "se_announced_match_start s' = se_announced_match_start s"
  shows "session_inv ops s'"
  using assms by (simp add: session_inv_def)

lemma session_inv_roster:
  assumes "session_inv ops s" "roster_ok (session_local_id ops s) ps"
  shows "session_inv ops (s\<lparr>se_players := ps\<rparr>)"
  using assms by (simp add: session_inv_def session_local_id_def)

lemma session_inv_update_player:
  assumes "session_inv ops s"
    and "\<And>p. pl_unique_id (f p) = pl_unique_id p" "\<And>p. pl_is_local (f p) = pl_is_local p"
      "\<And>p. p \<in> set (se_players s) \<Longrightarrow> pl_unique_id p = u \<Longrightarrow> pl_is_host (f p) \<Longrightarrow> pl_is_host p"
  shows "session_inv ops (update_player u f s)"
  unfolding update_player_def using assms
  by (intro session_inv_roster roster_ok_update) (auto simp: session_inv_def)

lemma set_bt_insert_subset: "set (bt_insert k v m) \<subseteq> insert (k, v) (set m)"
  by (induction k v m rule: bt_insert.induct) auto

lemma turns_ok_get:
  assumes "turns_ok turns" "bt_get turns stamp = Some m"
  shows "m \<noteq> [] \<and> bt_wf m \<and> (\<forall>(play, p)\<in>set m. tp_stamp p = stamp \<and> tp_play p = play)"
proof -
  have "(stamp, m) \<in> set turns" using assms bt_get_mem [of turns stamp m] by (simp add: turns_ok_def)
  then show ?thesis using assms(1) unfolding turns_ok_def list_all_iff by fast
qed

lemma turns_ok_insert:
  assumes "turns_ok turns" "m = (case bt_get turns stamp of None \<Rightarrow> [] | Some m \<Rightarrow> m)"
    "tp_stamp p = stamp" "tp_play p = play"
  shows "turns_ok (bt_insert stamp (bt_insert play p m) turns)"
proof -
  have wf: "bt_wf turns" using assms(1) by (simp add: turns_ok_def)
  have m: "bt_wf m" "list_all (\<lambda>(play, p). tp_stamp p = stamp \<and> tp_play p = play) m"
    using assms(2) turns_ok_get [OF assms(1), of stamp] by (cases "bt_get turns stamp"; simp add: list_all_iff)+
  have "list_all (\<lambda>(play, p). tp_stamp p = stamp \<and> tp_play p = play) (bt_insert play p m)"
    using set_bt_insert_subset [of play p m] m(2) assms(3,4) by (auto simp: list_all_iff)
  moreover have "bt_insert play p m \<noteq> []" by (cases m) (auto split: if_splits)
  ultimately have new: "(case (stamp, bt_insert play p m) of (stamp, m) \<Rightarrow> m \<noteq> [] \<and> bt_wf m \<and>
       list_all (\<lambda>(play, p). tp_stamp p = stamp \<and> tp_play p = play) m)"
    using bt_wf_insert [OF m(1)] by simp
  show ?thesis
    unfolding turns_ok_def list_all_iff [of _ "bt_insert stamp _ _"]
  proof (intro conjI ballI)
    fix x assume "x \<in> set (bt_insert stamp (bt_insert play p m) turns)"
    then have "x = (stamp, bt_insert play p m) \<or> x \<in> set turns"
      using set_bt_insert_subset [of stamp "bt_insert play p m" turns] by blast
    then show "case x of (stamp, m) \<Rightarrow> m \<noteq> [] \<and> bt_wf m \<and>
       list_all (\<lambda>(play, p). tp_stamp p = stamp \<and> tp_play p = play) m"
      using new assms(1) unfolding turns_ok_def list_all_iff [of _ turns] by (elim disjE) simp_all
  qed (rule bt_wf_insert [OF wf])
qed

lemma session_inv_insert_turn: "session_inv ops s \<Longrightarrow> session_inv ops (insert_turn stamp play payload s)"
  using turns_ok_insert [of "se_turns s" _ stamp "\<lparr>tp_stamp = stamp, tp_play = play, tp_payload = payload\<rparr>" play]
  by (simp add: session_inv_def insert_turn_def Let_def session_local_id_def)

lemma drop_players_simps [simp]:
  "se_players (drop_players us s) = filter (\<lambda>p. pl_unique_id p \<notin> set us) (se_players s)"
  "se_turns (drop_players us s) = se_turns s" "se_transport (drop_players us s) = se_transport s"
  "se_announced_match_start (drop_players us s) = se_announced_match_start s"
  "session_local_id ops (drop_players us s) = session_local_id ops s"
  by (induction us arbitrary: s) (auto simp: session_local_id_def conj_commute)

lemma session_inv_drop:
  assumes "session_inv ops s" "session_local_id ops s \<notin> set us"
  shows "session_inv ops (drop_players us s)"
  using assms by (auto simp: session_inv_def intro!: roster_ok_filter)

lemma session_inv_extension: "session_inv ops s \<Longrightarrow> session_inv ops (snd (handle_extension from p s))"
  by (cases p) (auto simp: handle_game_key_def handle_match_start_def Let_def session_inv_def session_local_id_def
      push_event_def refuse_def split: option.splits)

lemma session_inv_game: "session_inv ops s \<Longrightarrow> session_inv ops (snd (handle_game d s))"
  by (auto simp: handle_game_def Let_def session_inv_insert_turn split: sum.splits net_msg.splits)

text \<open>A roster update keeps the invariant and leaves the sender of the list as the only host.\<close>

lemma merge_roster_inv:
  assumes "session_inv ops s" "\<forall>p\<in>set (se_players s). pl_is_host p \<longrightarrow> pl_unique_id p = from"
  shows "session_inv ops (fst (merge_roster ops from slot us s)) \<and>
     session_local_id ops (fst (merge_roster ops from slot us s)) = session_local_id ops s"
  using assms
proof (induction us arbitrary: s slot)
  case (Cons u us)
  let ?up = "update_player u (\<lambda>p. p\<lparr>pl_slot := slot, pl_is_host := (u = from)\<rparr>) s"
  let ?jn = "join_player u [] (u = from) (u = session_local_id ops s) slot s"
  have ids: "session_local_id ops ?up = session_local_id ops s" "session_local_id ops ?jn = session_local_id ops s"
    by (simp_all add: update_player_def join_player_def session_local_id_def)
  have up: "\<forall>p\<in>set (se_players ?up). pl_is_host p \<longrightarrow> pl_unique_id p = from"
    using Cons.prems(2) by (auto simp: update_player_def dest!: set_update_first)
  have jn: "\<forall>p\<in>set (se_players ?jn). pl_is_host p \<longrightarrow> pl_unique_id p = from"
    using Cons.prems(2) by (auto simp: join_player_def)
  have "session_inv ops ?up"
    unfolding update_player_def
    by (intro session_inv_roster Cons.prems(1) roster_ok_update_hosts)
      (use Cons.prems(1) up in \<open>auto simp: session_inv_def update_player_def\<close>)
  moreover have "session_inv ops ?jn" if "find_player u s = None"
  proof -
    have "u \<noteq> session_local_id ops s" "u \<notin> set (map pl_unique_id (se_players s))"
      using that Cons.prems(1) by (auto simp: find_player_None session_inv_def roster_ok_iff)
    then show ?thesis
      unfolding join_player_def push_event_simps
      by (intro session_inv_roster Cons.prems(1) roster_ok_append)
        (use that Cons.prems in \<open>auto simp: session_inv_def\<close>)
  qed
  ultimately show ?case using Cons up jn ids by (auto simp: case_prod_beta split: option.splits)
qed simp

lemma session_inv_prune:
  assumes inv: "session_inv ops s"
  shows "session_inv ops (prune_roster keep s)"
proof -
  let ?dropped = "map pl_unique_id
    (filter (\<lambda>p. \<not> pl_is_local p \<and> pl_unique_id p \<notin> set keep) (se_players s))"
  have "session_local_id ops s \<notin> set ?dropped"
    using inv by (auto simp: session_inv_def roster_ok_iff)
  with inv have d: "session_inv ops (drop_players ?dropped s)" by (rule session_inv_drop)
  then have "roster_ok (session_local_id ops (drop_players ?dropped s)) (se_players (drop_players ?dropped s))"
    unfolding session_inv_def by (elim conjE)
  then have "roster_ok (session_local_id ops (drop_players ?dropped s))
      (sort_key pl_slot (se_players (drop_players ?dropped s)))"
    by (rule roster_ok_perm) (rule mset_sort)
  with d show ?thesis unfolding prune_roster_def Let_def by (rule session_inv_roster)
qed

context datagram_transport
begin

lemma inv_send [keeps_intros]: "keeps (session_inv ops) (session_send ops d b)"
proof (rule keepsI)
  fix s assume "session_inv ops s"
  then show "session_inv ops (snd (session_send ops d b s))"
    using send_local [of d b "se_transport s"]
    by (auto simp: session_send_def session_local_id_def split: prod.splits elim!: session_inv_cong)
qed

lemma inv_emit [keeps_intros]:
  "keeps (session_inv ops) (emit_all ops p)" "keeps (session_inv ops) (emit_to ops u p)"
  unfolding emit_all_def emit_to_def by (rule inv_send)+

lemma inv_republish [keeps_intros]: "keeps (session_inv ops) (republish_ready ops)"
  unfolding keeps_def republish_ready_def using inv_emit by (simp add: keeps_def)

lemma inv_answer [keeps_intros]: "keeps (session_inv ops) (answer_add_player ops)"
proof (rule keepsI)
  fix s assume s: "session_inv ops s"
  have "keeps (session_inv ops) (send_playerlist ops)"
    using inv_emit by (simp add: keeps_def send_playerlist_def Let_def)
  moreover have "keeps (session_inv ops)
      (\<lambda>s. emit_all ops (AddPlayer (se_local_name s) (session_local_id ops s) True) s)"
    using inv_emit by (simp add: keeps_def)
  ultimately have "keeps (session_inv ops) (io_then (send_playerlist ops)
      (\<lambda>s. emit_all ops (AddPlayer (se_local_name s) (session_local_id ops s) True) s))"
    by (rule keeps_then)
  from keepsD [OF this s] s show "session_inv ops (snd (answer_add_player ops s))"
    by (simp add: answer_add_player_def)
qed

lemma inv_add_player: "keeps (session_inv ops) (handle_add_player ops from name u hosting)"
proof (rule keepsI)
  fix s assume s: "session_inv ops s"
  then have ok: "roster_ok (session_local_id ops s) (se_players s)" by (simp add: session_inv_def)
  let ?f = "\<lambda>p. p\<lparr>pl_name := (if pl_name p = [] then name else pl_name p), pl_is_host := hosting\<rparr>"
  have up: "session_inv ops (update_player u ?f s)" if "find_player u s = Some p" "pl_is_host p = hosting" for p
  proof (rule session_inv_update_player [OF s])
    fix q assume q: "q \<in> set (se_players s)" "pl_unique_id q = u" "pl_is_host (?f q)"
    have "p = q" using find_player_Some [OF that(1)] q ok
      by (auto simp: roster_ok_iff distinct_map dest: inj_onD)
    then show "pl_is_host q" using q that by simp
  qed simp_all
  have join: "session_inv ops (join_player u name hosting False (length (se_players s)) s)"
    if n: "find_player u s = None"
      and h: "\<not> (hosting \<and> (se_role s = Host \<or> find_host s \<noteq> None \<and> find_host s \<noteq> Some u))"
  proof -
    have "\<forall>q\<in>set (se_players s). \<not> pl_is_host q" if hosting
    proof (cases "find_host s")
      case (Some w)
      then have "w = u" using h that by simp
      then show ?thesis using find_host_Some [OF ok Some] n by (auto simp: find_player_None)
    qed (simp add: find_host_None)
    then show ?thesis
      unfolding join_player_def push_event_simps
      by (intro session_inv_roster s roster_ok_append ok) (use n in \<open>auto simp: find_player_None\<close>)
  qed
  have "keeps (session_inv ops) (io_then (republish_ready ops) (answer_add_player ops))"
    by (intro keeps_intros)
  then show "session_inv ops (snd (handle_add_player ops from name u hosting s))"
    using s up join keepsD [OF inv_answer] unfolding handle_add_player_def
    by (auto simp: keepsD split: option.splits)
qed

lemma inv_player_list: "keeps (session_inv ops) (handle_player_list ops from num us)"
proof (rule keepsI)
  fix s assume s: "session_inv ops s"
  have k: "keeps (session_inv ops) (\<lambda>s. (Inr (), prune_roster keep s))" for keep
    by (simp add: keeps_def session_inv_prune)
  have "session_inv ops (snd (accept_player_list ops from keep s))"
    if "find_host s = None \<or> find_host s = Some from" for keep
  proof -
    have "\<forall>p\<in>set (se_players s). pl_is_host p \<longrightarrow> pl_unique_id p = from"
      using that s find_host_None [of s] find_host_Some [of _ s "from"] by (auto simp: session_inv_def)
    note m' = merge_roster_inv [OF s this, of 0 keep]
    obtain s' grew where m: "merge_roster ops from 0 keep s = (s', grew)" by fastforce
    have "keeps (session_inv ops)
        (io_then (if grew then republish_ready ops else io_ok) (\<lambda>s. (Inr (), prune_roster keep s)))"
      by (intro keeps_intros k)
    moreover have "session_inv ops s'" using m' m by simp
    ultimately have "session_inv ops (snd (io_then (if grew then republish_ready ops else io_ok)
        (\<lambda>s. (Inr (), prune_roster keep s)) s'))" by (rule keepsD)
    then show ?thesis by (simp add: accept_player_list_def m)
  qed
  then show "session_inv ops (snd (handle_player_list ops from num us s))"
    using s by (auto simp: handle_player_list_def Let_def)
qed

lemma inv_internal:
  assumes s: "session_inv ops s" and "from \<noteq> session_local_id ops s"
  shows "session_inv ops (snd (handle_internal ops from p s))"
proof (cases p)
  case (DestroyPlayer u)
  have "session_inv ops (s\<lparr>se_announced_to := a, se_players := filter (\<lambda>p. pl_unique_id p \<noteq> u) (se_players s)\<rparr>)"
    if "u = from" for a
    using s assms(2) that roster_ok_filter [of "session_local_id ops s" "se_players s" "\<lambda>p. pl_unique_id p \<noteq> u"]
    by (auto simp: session_inv_def session_local_id_def)
  moreover have "session_inv ops (s\<lparr>se_announced_to := a\<rparr>)" for a
    using s by (simp add: session_inv_def session_local_id_def)
  ultimately show ?thesis using DestroyPlayer s by (simp add: handle_destroy_player_def Let_def)
next
  case (MigrateHost h)
  then show ?thesis using s roster_ok_migrate [of "session_local_id ops s" "se_players s" h]
    by (simp add: handle_migrate_host_def session_inv_def session_local_id_def)
qed (use s in \<open>auto simp: handle_ready_flag_def handle_pulse_def
    intro: keepsD [OF inv_add_player] keepsD [OF inv_player_list] intro!: session_inv_update_player
    split: option.splits\<close>)

lemma inv_datagram:
  assumes "session_inv ops s" "dg_from d \<noteq> session_local_id ops s"
  shows "session_inv ops (snd (handle_datagram ops d s))"
  using assms inv_internal
  by (auto simp: handle_datagram_def session_inv_extension session_inv_game split: list.splits sum.splits)

end

section \<open>Polling\<close>

lemma greet_keeps:
  assumes "polite_packet add" "\<And>u p. polite_packet p \<Longrightarrow> keeps P (emit_to ops u p)" "\<And>s a. P s \<Longrightarrow> P (s\<lparr>se_announced_to := a\<rparr>)"
  shows "keeps P (greet ops add ready peers)"
proof (induction peers)
  case (Cons peer peers)
  have "keeps P (\<lambda>s. greet ops add ready peers (s\<lparr>se_announced_to := se_announced_to s @ [peer]\<rparr>))"
    using Cons assms(3) by (simp add: keeps_def)
  then have "keeps P (io_then (emit_to ops peer add) (io_then (emit_to ops peer (ReadyFlag ready))
      (\<lambda>s. greet ops add ready peers (s\<lparr>se_announced_to := se_announced_to s @ [peer]\<rparr>))))"
    using assms(1,2) by (intro keeps_then) simp_all
  then show ?case by (simp add: keeps_def)
qed (simp add: keeps_def)

lemma send_pulse_keeps:
  assumes "\<And>p. polite_packet p \<Longrightarrow> keeps P (emit_all ops p)" "\<And>s a. P s \<Longrightarrow> P (s\<lparr>se_last_pulse_sent_ms := a\<rparr>)"
  shows "keeps P (send_pulse ops)"
proof -
  have "keeps P (io_then (emit_all ops Pulse) (\<lambda>s. (Inr (), s\<lparr>se_last_pulse_sent_ms := se_now_ms s\<rparr>)))"
    using assms by (intro keeps_then) (simp_all add: keeps_def)
  then show ?thesis by (simp add: keeps_def send_pulse_def)
qed

text \<open>What holds after the greetings and the pulse holds after a poll that returns.\<close>

definition pre_poll :: "'t transport \<Rightarrow> nat \<Rightarrow> 't session io" where
  "pre_poll ops budget = io_then (greet_fresh ops) (io_then (send_pulse ops) (poll_transport ops budget))"

lemma pre_poll_keeps:
  assumes "\<And>d p. polite_packet p \<Longrightarrow> keeps P (session_send ops d (internal_packet_encode p))"
    and "\<And>s a. P s \<Longrightarrow> P (s\<lparr>se_announced_to := a\<rparr>)" "\<And>s a. P s \<Longrightarrow> P (s\<lparr>se_last_pulse_sent_ms := a\<rparr>)"
    and "keeps P (poll_transport ops budget)"
  shows "keeps P (pre_poll ops budget)"
proof -
  have e: "keeps P (emit_all ops p)" "keeps P (emit_to ops u p)" if "polite_packet p" for u p
    using assms(1) [OF that] by (simp_all add: emit_all_def emit_to_def)
  have "keeps P (greet_fresh ops)"
    using greet_keeps [of _ P ops, OF _ e(2) assms(2)] by (simp add: keeps_def greet_fresh_def)
  moreover have "keeps P (send_pulse ops)" using send_pulse_keeps [of P ops, OF e(1) assms(3)] by simp
  ultimately show ?thesis unfolding pre_poll_def using assms(4) by (intro keeps_then)
qed

lemma poll_pre_poll:
  "poll ops now_ms budget s =
     (case pre_poll ops budget (s\<lparr>se_now_ms := now_ms\<rparr>) of
        (Inl e, s) \<Rightarrow> Some (Inl e, s)
      | (Inr _, s) \<Rightarrow>
          (case receive_all ops s of
             None \<Rightarrow> None
           | Some (Inl e, s) \<Rightarrow> Some (Inl e, s)
           | Some (Inr _, s) \<Rightarrow> Some (Inr (), fire_all_ready (reap_timeouts s))))"
  by (simp add: poll_def pre_poll_def)

lemma poll_transport_simps [simp]:
  "se_transport (snd (poll_transport ops budget s)) = snd (tr_poll ops budget (se_transport s))"
  "snd (poll_transport ops budget s) = s\<lparr>se_transport := snd (tr_poll ops budget (se_transport s))\<rparr>"
  by (simp_all add: poll_transport_def split: prod.splits)

lemma session_send_simps [simp]:
  "snd (session_send ops d b s) = s\<lparr>se_transport := snd (tr_send ops d b (se_transport s))\<rparr>"
  by (simp add: session_send_def split: prod.splits)

context datagram_transport
begin

text \<open>
  A poll ends; what sends, receipts and datagrams keep holds after it and, if it succeeds, so does
  what reaping and the \<open>AllReady\<close> edge give.
\<close>

lemma poll_rule:
  assumes start: "I (s\<lparr>se_now_ms := now_ms\<rparr>)"
    and send: "\<And>s d p. polite_packet p \<Longrightarrow> I s \<Longrightarrow>
      I (s\<lparr>se_transport := snd (tr_send ops d (internal_packet_encode p) (se_transport s))\<rparr>)"
    and greeted: "\<And>s a. I s \<Longrightarrow> I (s\<lparr>se_announced_to := a\<rparr>)"
    and pulsed: "\<And>s a. I s \<Longrightarrow> I (s\<lparr>se_last_pulse_sent_ms := a\<rparr>)"
    and polled: "\<And>s. I s \<Longrightarrow> I (s\<lparr>se_transport := snd (tr_poll ops budget (se_transport s))\<rparr>)"
    and recv: "\<And>s. I s \<Longrightarrow> I (s\<lparr>se_transport := snd (tr_recv ops (se_transport s))\<rparr>)"
    and step: "\<And>s d t. I s \<Longrightarrow> tr_recv ops (se_transport s) = (Inr (Some d), t) \<Longrightarrow>
      I (snd (handle_datagram ops d (s\<lparr>se_transport := t\<rparr>)))"
  obtains e s' where "poll ops now_ms budget s = Some (Inl e, s')" "I s'"
    | s' where "poll ops now_ms budget s = Some (Inr (), fire_all_ready (reap_timeouts s'))" "I s'"
proof -
  obtain r s1 where p: "pre_poll ops budget (s\<lparr>se_now_ms := now_ms\<rparr>) = (r, s1)" by fastforce
  have "keeps I (pre_poll ops budget)"
    by (rule pre_poll_keeps) (simp_all add: keeps_def send greeted pulsed polled)
  from keepsD [OF this start] have I1: "I s1" by (simp add: p)
  have "\<exists>q s2. receive_all ops s1 = Some (q, s2) \<and> I s2"
    using I1 recv step by (intro receive_all_rule) (auto, metis snd_conv)
  then obtain q s2 where q: "receive_all ops s1 = Some (q, s2)" "I s2" by blast
  show ?thesis
  proof (cases r)
    case (Inl e)
    then show ?thesis using that(1) p I1 by (simp add: poll_pre_poll)
  next
    case Inr
    then show ?thesis using that p q by (cases q) (simp_all add: poll_pre_poll)
  qed
qed

lemma poll_same:
  obtains e s' where "poll ops now_ms budget s = Some (Inl e, s')"
      "session_same (s\<lparr>se_now_ms := now_ms\<rparr>) s'"
    | s' where "poll ops now_ms budget s = Some (Inr (), fire_all_ready (reap_timeouts s'))"
      "session_same (s\<lparr>se_now_ms := now_ms\<rparr>) s'"
proof (rule poll_rule [where I = "session_same (s\<lparr>se_now_ms := now_ms\<rparr>)" and s = s and now_ms = now_ms and budget = budget])
  fix s' d t assume f: "session_same (s\<lparr>se_now_ms := now_ms\<rparr>) s'"
  have "session_same (s'\<lparr>se_transport := t\<rparr>) (snd (handle_datagram ops d (s'\<lparr>se_transport := t\<rparr>)))"
    using datagram_same [of ops "s'\<lparr>se_transport := t\<rparr>" d] by simp
  then show "session_same (s\<lparr>se_now_ms := now_ms\<rparr>) (snd (handle_datagram ops d (s'\<lparr>se_transport := t\<rparr>)))"
    using f by (auto simp: session_same_def)
qed (simp_all add: session_same_def that)

end

lemma reap_timeouts_fresh:
  "p \<in> set (se_players (reap_timeouts s)) \<Longrightarrow>
     pl_is_local p \<or> saturating_sub (se_now_ms s) (pl_last_pulse_ms p) \<le> se_timeout_ms s"
  unfolding reap_timeouts_def by (auto simp: not_less)

lemma reap_timeouts_frame [simp]:
  "session_frame ops s0 (reap_timeouts s) = session_frame ops s0 s"
  by (simp add: reap_timeouts_def)

lemma fire_all_ready_simps [simp]:
  "se_players (fire_all_ready s) = se_players s" "all_ready (fire_all_ready s) = all_ready s"
  "se_all_ready_fired (fire_all_ready s) = all_ready s" "se_turns (fire_all_ready s) = se_turns s"
  "se_transport (fire_all_ready s) = se_transport s" "se_role (fire_all_ready s) = se_role s"
  "se_announced_match_start (fire_all_ready s) = se_announced_match_start s"
  "se_events (fire_all_ready s) = se_events s @ (if all_ready s \<and> \<not> se_all_ready_fired s then [AllReady] else [])"
  by (auto simp: fire_all_ready_def push_event_def all_ready_def)

lemma session_inv_finish:
  assumes "session_inv ops s"
  shows "session_inv ops (fire_all_ready (reap_timeouts s))"
proof -
  let ?us = "map pl_unique_id (filter (\<lambda>p. \<not> pl_is_local p \<and>
    se_timeout_ms s < saturating_sub (se_now_ms s) (pl_last_pulse_ms p)) (se_players s))"
  have "session_local_id ops s \<notin> set ?us" using assms by (auto simp: session_inv_def roster_ok_iff)
  with assms have "session_inv ops (reap_timeouts s)" unfolding reap_timeouts_def by (rule session_inv_drop)
  then show ?thesis by (rule session_inv_cong) (simp_all add: session_local_id_def)
qed

text \<open>
  Datagrams that always come from somebody else: what the invariant needs of a transport beyond the
  contract above. For the loopback it is a property of the inbox.
\<close>

locale foreign_transport = datagram_transport +
  fixes foreign :: "'a \<Rightarrow> bool"
  assumes recv_foreign: "foreign t \<Longrightarrow> tr_recv ops t = (Inr (Some d), t') \<Longrightarrow> dg_from d \<noteq> tr_local_id ops t"
    and foreign_recv: "foreign t \<Longrightarrow> foreign (snd (tr_recv ops t))"
    and foreign_send: "foreign t \<Longrightarrow> foreign (snd (tr_send ops dst bytes t))"
    and foreign_poll: "foreign t \<Longrightarrow> foreign (snd (tr_poll ops budget t))"
begin

lemma sends_foreign: "sends ops t t' \<Longrightarrow> foreign t \<Longrightarrow> foreign t'"
  by (induction rule: sends.induct) (auto intro: foreign_send)

lemma inv_poll:
  assumes "session_inv ops s" "foreign (se_transport s)" "poll ops now_ms budget s = Some (r, s')"
  shows "session_inv ops s' \<and> foreign (se_transport s')"
proof (rule poll_rule [where I = "\<lambda>s. session_inv ops s \<and> foreign (se_transport s)" and s = s
        and now_ms = now_ms and budget = budget])
  fix s' d t assume I: "session_inv ops s' \<and> foreign (se_transport s')"
    and r: "tr_recv ops (se_transport s') = (Inr (Some d), t)"
  have t: "tr_local_id ops t = tr_local_id ops (se_transport s')" "foreign t"
    using recv_local [of "se_transport s'"] foreign_recv [of "se_transport s'"] I r by simp_all
  have "session_inv ops (s'\<lparr>se_transport := t\<rparr>)"
    using I t by (auto simp: session_local_id_def elim: session_inv_cong)
  moreover have "dg_from d \<noteq> session_local_id ops (s'\<lparr>se_transport := t\<rparr>)"
    using recv_foreign [OF _ r] I t by (simp add: session_local_id_def)
  ultimately show "session_inv ops (snd (handle_datagram ops d (s'\<lparr>se_transport := t\<rparr>))) \<and>
      foreign (se_transport (snd (handle_datagram ops d (s'\<lparr>se_transport := t\<rparr>))))"
    using inv_datagram datagram_same [of ops "s'\<lparr>se_transport := t\<rparr>" d] t sends_foreign [of t] by simp
next
  fix q assume "poll ops now_ms budget s = Some (Inr (), fire_all_ready (reap_timeouts q))"
    "session_inv ops q \<and> foreign (se_transport q)"
  then show ?thesis using assms(3) session_inv_finish by (auto simp: reap_timeouts_def)
qed (use assms in \<open>simp_all add: session_inv_def session_local_id_def send_local poll_local recv_local
    foreign_send foreign_poll foreign_recv\<close>)

end

section \<open>Every operation\<close>

text \<open>
  One step of a session: a call of one of its operations, or the arrival of datagrams at its
  transport. \<open>match_step\<close> is a step within one match, whose game messages have ids of the game's
  range; \<open>session_step\<close> also has the reset and the sending of any message.
\<close>

inductive match_step :: "'t transport \<Rightarrow> 't session \<Rightarrow> 't session \<Rightarrow> bool" for ops :: "'t transport" where
  ms_poll: "poll ops now_ms budget s = Some (r, s') \<Longrightarrow> match_step ops s s'"
| ms_ready: "match_step ops s (snd (send_ready_flag ops ready s))"
| ms_reset_ready: "match_step ops s (snd (reset_ready_flags ops s))"
| ms_dsync: "match_step ops s (snd (send_dsync ops frame s))"
| ms_start: "match_step ops s (snd (start_match ops epoch sd s))"
| ms_key: "match_step ops s (snd (announce_game_key ops sd src s))"
| ms_key_to: "match_step ops s (snd (announce_game_key_to ops peer sd src s))"
| ms_disconnect: "match_step ops s (snd (announce_disconnect ops s))"
| ms_send_all: "net_msg_id msg < IPT_BASE \<Longrightarrow> match_step ops s (snd (send_all ops msg s))"
| ms_send_to: "net_msg_id msg < IPT_BASE \<Longrightarrow> match_step ops s (snd (send_to ops u msg s))"
| ms_package: "match_step ops s (snd (send_command_package ops stamp play payload s))"
| ms_take: "match_step ops s (snd (take_turn stamp s))"
| ms_drain: "match_step ops s (snd (drain_events s))"
| ms_timeout: "match_step ops s (set_timeout_ms ms s)"

inductive session_step :: "'t transport \<Rightarrow> ('t \<Rightarrow> bool) \<Rightarrow> 't session \<Rightarrow> 't session \<Rightarrow> bool"
  for ops :: "'t transport" and foreign :: "'t \<Rightarrow> bool" where
  st_match: "match_step ops s s' \<Longrightarrow> session_step ops foreign s s'"
| st_send_all: "session_step ops foreign s (snd (send_all ops msg s))"
| st_send_to: "session_step ops foreign s (snd (send_to ops u msg s))"
| st_reset: "session_step ops foreign s (reset_for_reuse ops r s)"
| st_deliver: "foreign t \<Longrightarrow> tr_local_id ops t = session_local_id ops s \<Longrightarrow>
    session_step ops foreign s (s\<lparr>se_transport := t\<rparr>)"

inductive_cases match_stepE: "match_step ops s s'"
inductive_cases session_stepE: "session_step ops foreign s s'"

definition session_init :: "'t transport \<Rightarrow> ('t \<Rightarrow> bool) \<Rightarrow> 't session \<Rightarrow> bool" where
  "session_init ops foreign s \<longleftrightarrow> (\<exists>t r name. foreign t \<and> s = session_new ops t r name)"

lemma roster_ok_ready:
  assumes "roster_ok me ps"
  shows "roster_ok me (map (\<lambda>p. p\<lparr>pl_ready := b\<rparr>) ps)"
  using assms unfolding roster_ok_iff by (simp add: comp_def image_image)

lemma turns_ok_remove: "turns_ok turns \<Longrightarrow> turns_ok (bt_remove stamp turns)"
  unfolding turns_ok_def using bt_wf_remove [of turns stamp]
  by (auto simp: list_all_iff bt_remove_def bt_retain_def)

lemma session_inv_other:
  assumes "session_inv ops s"
  shows "session_inv ops (s\<lparr>se_players := update_first pl_is_local (\<lambda>p. p\<lparr>pl_ready := b\<rparr>) (se_players s)\<rparr>)"
    and "session_inv ops (s\<lparr>se_players := map (\<lambda>p. p\<lparr>pl_ready := False\<rparr>) (se_players s), se_all_ready_fired := False\<rparr>)"
    and "session_inv ops (snd (take_turn stamp s))"
    and "session_inv ops (snd (drain_events s))"
    and "session_inv ops (set_timeout_ms ms s)"
    and "session_inv ops (reset_for_reuse ops r s)"
proof -
  show "session_inv ops (s\<lparr>se_players := update_first pl_is_local (\<lambda>p. p\<lparr>pl_ready := b\<rparr>) (se_players s)\<rparr>)"
    by (intro session_inv_roster roster_ok_update) (use assms in \<open>auto simp: session_inv_def\<close>)
  show "session_inv ops (s\<lparr>se_players := map (\<lambda>p. p\<lparr>pl_ready := False\<rparr>) (se_players s), se_all_ready_fired := False\<rparr>)"
    using assms roster_ok_ready by (simp add: session_inv_def session_local_id_def)
  show "session_inv ops (snd (take_turn stamp s))"
    using assms by (auto simp: take_turn_def session_inv_def session_local_id_def turns_ok_remove split: option.splits)
  show "session_inv ops (snd (drain_events s))" "session_inv ops (set_timeout_ms ms s)"
    using assms by (simp_all add: drain_events_def set_timeout_ms_def session_inv_def session_local_id_def)
  show "session_inv ops (reset_for_reuse ops r s)"
    using roster_ok_local by (simp add: reset_for_reuse_def session_inv_def session_local_id_def turns_ok_def)
qed

context foreign_transport
begin

lemma inv_start_match: "session_inv ops s \<Longrightarrow> session_inv ops (snd (start_match ops epoch sd s))"
  using keepsD [OF inv_send, of s All "extension_encode (MatchStart epoch sd)"]
  by (auto simp: start_match_def Let_def session_inv_def session_local_id_def push_event_def session_send_def
      split: option.splits sum.splits prod.splits)

lemma inv_package: "session_inv ops s \<Longrightarrow> session_inv ops (snd (send_command_package ops stamp play payload s))"
  using keepsD [OF keeps_then [OF inv_send [of All "net_msg_encode (CommandPackage stamp play payload)"]],
      of "\<lambda>s. (Inr (), insert_turn stamp play payload s)" s]
  by (simp add: send_command_package_def send_all_def keeps_def session_inv_insert_turn)

lemma inv_match_step:
  assumes "match_step ops s s'" "session_inv ops s" "foreign (se_transport s)"
  shows "session_inv ops s' \<and> foreign (se_transport s')"
proof
  show "session_inv ops s'"
    using assms(1)
  proof (cases rule: match_step.cases)
    case ms_poll
    then show ?thesis using assms inv_poll by blast
  qed (use assms(2) in \<open>simp_all add: inv_start_match inv_package session_inv_other keepsD [OF inv_send]
      send_ready_flag_def reset_ready_flags_def send_dsync_def announce_game_key_def announce_game_key_to_def
      announce_disconnect_def send_all_def send_to_def emit_all_def del: session_send_simps\<close>)
next
  note f = foreign_send [OF assms(3)]
  show "foreign (se_transport s')"
    using assms(1)
  proof (cases rule: match_step.cases)
    case ms_poll
    then show ?thesis using assms inv_poll by blast
  next
    case (ms_start epoch sd)
    then show ?thesis
      using assms(3) f [of All "extension_encode (MatchStart epoch sd)"]
      by (auto simp: start_match_def session_send_def Let_def split: option.splits sum.splits prod.splits)
  next
    case (ms_package stamp play payload)
    then show ?thesis
      using assms(3) f [of All "net_msg_encode (CommandPackage stamp play payload)"]
      by (auto simp: send_command_package_def io_then_def send_all_def session_send_def insert_turn_def Let_def
          split: sum.splits prod.splits)
  qed (use assms(3) f in \<open>auto simp: send_ready_flag_def reset_ready_flags_def send_dsync_def
      announce_game_key_def announce_game_key_to_def announce_disconnect_def send_all_def send_to_def emit_all_def
      take_turn_def drain_events_def set_timeout_ms_def split: option.splits\<close>)
qed

end

sublocale foreign_transport \<subseteq> ssn: invariant_rule "session_init ops foreign" "session_step ops foreign"
  "\<lambda>s. session_inv ops s \<and> foreign (se_transport s)"
proof
  fix s assume "session_init ops foreign s"
  then show "session_inv ops s \<and> foreign (se_transport s)"
    by (auto simp: session_init_def session_new_def session_inv_def session_local_id_def roster_ok_local turns_ok_def)
next
  fix s s' assume "session_inv ops s \<and> foreign (se_transport s)" "session_step ops foreign s s'"
  then show "session_inv ops s' \<and> foreign (se_transport s')"
    using inv_match_step keepsD [OF inv_send, of s] foreign_send [of "se_transport s"] by (elim session_stepE)
      (auto simp: session_inv_other send_all_def send_to_def,
       auto simp: reset_for_reuse_def session_inv_def session_local_id_def)
qed

context foreign_transport
begin

lemma reach_session:
  "reach (session_init ops foreign) (session_step ops foreign) s \<Longrightarrow> session_inv ops s \<and> foreign (se_transport s)"
  by (rule ssn.reach_inv)

end

text \<open>In the loopback every datagram comes from another id, as long as it is pumped between two ids.\<close>

definition loop_foreign :: "loop_transport \<Rightarrow> bool" where
  "loop_foreign t \<longleftrightarrow> list_all (\<lambda>d. dg_from d \<noteq> lt_id t) (lt_inbox t)"

interpretation loopf: foreign_transport loop_ops "\<lambda>t. length (lt_inbox t)" loop_foreign
  by standard (auto simp: loop_ops_def loop_recv_def loop_send_def loop_foreign_def split: list.splits)

end
