(* ===== verification/Session_Match.thy ===== *)
theory Session_Match
  imports Session_Properties
begin

text \<open>
  The properties of the session layer: what one datagram may do, that a poll ends and what holds
  after it, the invariant of every reachable session, and two sessions on a loopback that agree on
  the match they play.
\<close>

section \<open>One datagram\<close>

fun is_refusal :: "session_event \<Rightarrow> bool" where
  "is_refusal (SetupRefused _ _) = True"
| "is_refusal _ = False"

definition refusals :: "'t session \<Rightarrow> session_event list" where
  "refusals s = filter is_refusal (se_events s)"

text \<open>
  What the roster packets do not touch: a view of the session that ignores players, greetings,
  transport and the joining and leaving events.
\<close>

definition setup_blind :: "('t session \<Rightarrow> 'v) \<Rightarrow> bool" where
  "setup_blind g \<longleftrightarrow>
     (\<forall>s ps. g (s\<lparr>se_players := ps\<rparr>) = g s) \<and> (\<forall>s a. g (s\<lparr>se_announced_to := a\<rparr>) = g s) \<and>
     (\<forall>s t. g (s\<lparr>se_transport := t\<rparr>) = g s) \<and>
     (\<forall>s u. g (push_event (PlayerJoined u) s) = g s) \<and> (\<forall>s u. g (push_event (PlayerLeft u) s) = g s)"

lemma blind_views: "setup_blind refusals" "setup_blind se_role"
  by (simp_all add: setup_blind_def refusals_def push_event_def)

lemma setup_blindD:
  assumes "setup_blind g"
  shows "g (s\<lparr>se_players := ps\<rparr>) = g s" "g (s\<lparr>se_announced_to := a\<rparr>) = g s" "g (s\<lparr>se_transport := t\<rparr>) = g s"
    "g (push_event (PlayerJoined u) s) = g s" "g (push_event (PlayerLeft u) s) = g s"
  using assms by (simp_all add: setup_blind_def)

lemma blind_helpers:
  assumes "setup_blind g"
  shows "g (update_player u f s) = g s" "g (join_player u n h l sl s) = g s" "g (drop_players us s) = g s"
    "g (prune_roster keep s) = g s" "g (fst (merge_roster ops from slot us s)) = g s"
proof -
  show u: "g (update_player u f s) = g s" "g (join_player u n h l sl s) = g s" for u f n h l sl s
    by (simp_all add: update_player_def join_player_def setup_blindD [OF assms])
  show "g (drop_players us s) = g s" for us s
    by (induction us arbitrary: s) (simp_all add: setup_blindD [OF assms])
  then show "g (prune_roster keep s) = g s" by (simp add: prune_roster_def Let_def setup_blindD [OF assms])
  show "g (fst (merge_roster ops from slot us s)) = g s"
    by (induction us arbitrary: s slot) (auto simp: case_prod_beta u split: option.splits)
qed

lemma blind_republish: "setup_blind g \<Longrightarrow> keeps (\<lambda>s. g s = x) (republish_ready ops)"
  by (simp add: keeps_def republish_ready_def emit_all_def setup_blindD)

lemma blind_answer:
  assumes "setup_blind g"
  shows "keeps (\<lambda>s. g s = x) (answer_add_player ops)"
proof -
  have "keeps (\<lambda>s. g s = x) (io_then (send_playerlist ops)
      (\<lambda>s. emit_all ops (AddPlayer (se_local_name s) (session_local_id ops s) True) s))"
    by (rule keeps_then) (simp_all add: keeps_def send_playerlist_def emit_all_def Let_def setup_blindD [OF assms])
  then show ?thesis by (simp add: keeps_def answer_add_player_def)
qed

text \<open>A roster packet is refused, with no other effect, or leaves such a view alone.\<close>

definition refused_or_blind :: "('t session \<Rightarrow> 'v) \<Rightarrow> i32 \<Rightarrow> 't session \<Rightarrow> (unit, io_error) result \<times> 't session \<Rightarrow> bool" where
  "refused_or_blind g from s r \<longleftrightarrow> g (snd r) = g s \<or> (\<exists>reason. r = refuse from reason s)"

lemma refused_or_blind_simps:
  "refused_or_blind g from s (refuse from reason s)"
  "g (snd r) = g s \<Longrightarrow> refused_or_blind g from s r"
  by (auto simp: refused_or_blind_def)

lemma refused_or_blind_add:
  assumes "setup_blind g"
  shows "refused_or_blind g from s (handle_add_player ops from name u hosting s)"
proof -
  have a: "g (snd (answer_add_player ops s')) = g s'" for s'
    using keepsD [OF blind_answer [OF assms]] by blast
  have b: "g (snd (io_then (republish_ready ops) (answer_add_player ops) s')) = g s'" for s'
    using keepsD [OF keeps_then [OF blind_republish [OF assms] blind_answer [OF assms]]] by blast
  show ?thesis
    unfolding handle_add_player_def
    by (simp add: refused_or_blind_simps a b blind_helpers [OF assms] split: option.splits)
qed

lemma refused_or_blind_list:
  assumes "setup_blind g"
  shows "refused_or_blind g from s (handle_player_list ops from num us s)"
proof -
  have "g (snd (accept_player_list ops from keep s)) = g s" for keep
  proof -
    obtain s' grew where m: "merge_roster ops from 0 keep s = (s', grew)" by fastforce
    have s': "g s' = g s" using blind_helpers(5) [OF assms, of ops "from" 0 keep s] m by simp
    have "keeps (\<lambda>s. g s = x)
        (io_then (if grew then republish_ready ops else io_ok) (\<lambda>s. (Inr (), prune_roster keep s)))" for x
      by (intro keeps_intros blind_republish [OF assms]) (simp add: keeps_def blind_helpers [OF assms])
    from keepsD [OF this s'] show ?thesis by (simp add: accept_player_list_def m)
  qed
  then show ?thesis unfolding handle_player_list_def by (simp add: refused_or_blind_simps Let_def)
qed

lemma refusals_simps [simp]:
  "refusals (s\<lparr>se_role := r\<rparr>) = refusals s" "refusals (s\<lparr>se_announced_game_key := g\<rparr>) = refusals s"
  "refusals (s\<lparr>se_announced_match_start := m\<rparr>) = refusals s" "refusals (insert_turn st pl b s) = refusals s"
  "\<not> is_refusal e \<Longrightarrow> refusals (push_event e s) = refusals s"
  by (simp_all add: refusals_def push_event_def insert_turn_def Let_def)

lemmas refusals_blind [simp] = setup_blindD [OF blind_views(1)] blind_helpers [OF blind_views(1)]

lemma refused_or_clean_internal: "refused_or_blind refusals from s (handle_internal ops from p s)"
  by (cases p) (simp_all add: refused_or_blind_add refused_or_blind_list blind_views handle_ready_flag_def
      handle_pulse_def handle_destroy_player_def handle_migrate_host_def Let_def refused_or_blind_simps
      split: option.splits)

lemma refused_or_clean_extension: "refused_or_blind refusals from s (handle_extension from p s)"
  by (cases p) (simp_all add: handle_game_key_def handle_match_start_def Let_def refused_or_blind_simps
      split: option.splits)

lemma refused_or_clean_game: "refusals (snd (handle_game d s)) = refusals s"
  by (simp add: handle_game_def Let_def split: sum.splits net_msg.splits)

text \<open>
  C11: A datagram that the session refuses changes nothing but the event list: the call succeeds and
  the session is the one before with one refusal of that sender at the end of the events. Any other
  datagram adds no refusal.
\<close>

theorem refusal_has_no_effect:
  "filter is_refusal (se_events (snd (handle_datagram ops d s))) = filter is_refusal (se_events s) \<or>
   (\<exists>reason. handle_datagram ops d s = (Inr (), push_event (SetupRefused (dg_from d) reason) s))"
proof -
  have "refused_or_blind refusals (dg_from d) s (handle_datagram ops d s)"
    by (simp add: handle_datagram_def refused_or_clean_internal refused_or_clean_extension refused_or_blind_simps
        refused_or_clean_game split: list.splits sum.splits)
  then show ?thesis by (simp add: refused_or_blind_def refusals_def refuse_def)
qed

lemma handle_game_frame:
  "\<exists>turns events. handle_game d s = (Inr (), s\<lparr>se_turns := turns, se_events := events\<rparr>)"
proof (cases "net_msg_decode (dg_bytes d)")
  case Inl
  then have "handle_game d s = (Inr (), s\<lparr>se_turns := se_turns s, se_events := se_events s\<rparr>)"
    by (simp add: handle_game_def)
  then show ?thesis by blast
next
  case (Inr f)
  have "\<exists>turns. (case fr_msg f of CommandPackage stamp play payload \<Rightarrow> insert_turn stamp play payload s | _ \<Rightarrow> s) =
      s\<lparr>se_turns := turns\<rparr>"
    by (cases "fr_msg f") (auto simp: insert_turn_def Let_def intro: exI [of _ "se_turns s"])
  then obtain turns where "(case fr_msg f of CommandPackage stamp play payload \<Rightarrow> insert_turn stamp play payload s | _ \<Rightarrow> s) =
      s\<lparr>se_turns := turns\<rparr>" by blast
  then have "\<exists>events. handle_game d s = (Inr (), s\<lparr>se_turns := turns, se_events := events\<rparr>)"
    by (simp add: handle_game_def Inr push_event_def Let_def) (rule exI, rule refl)
  then show ?thesis by blast
qed

text \<open>
  The two namespaces of the wire do not meet. A datagram whose first byte is 128 or more never
  reaches the game: the stored turn packages and the game events stay as they are. A datagram
  below 128 reaches nothing else: roster, role, key, match start and transport stay as they are.
\<close>

lemma reserved_range_stays_below:
  assumes "dg_bytes d = first # rest"
  shows "if IPT_BASE \<le> first
     then se_turns (snd (handle_datagram ops d s)) = se_turns s \<and>
       filter is_game_event (se_events (snd (handle_datagram ops d s))) = filter is_game_event (se_events s)
     else \<exists>turns events. handle_datagram ops d s = (Inr (), s\<lparr>se_turns := turns, se_events := events\<rparr>)"
proof -
  have i: "se_turns (snd (handle_internal ops from p s)) = se_turns s \<and>
      filter is_game_event (se_events (snd (handle_internal ops from p s))) = filter is_game_event (se_events s)" for "from" p
    using frame_internal' [of ops s "from" p] by (simp add: session_frame_def)
  have e: "se_turns (snd (handle_extension from p s)) = se_turns s \<and>
      filter is_game_event (se_events (snd (handle_extension from p s))) = filter is_game_event (se_events s)" for "from" p
    by (cases p) (simp_all add: handle_game_key_def handle_match_start_def Let_def push_event_def refuse_def
        split: option.splits)
  have "\<not> IPT_BASE \<le> first \<Longrightarrow> \<not> is_extension first"
    by (simp add: is_extension_def DON_EXT_BASE_def IPT_BASE_def not_le word_less_nat_alt)
  then show ?thesis
    using i e assms handle_game_frame [of d s] by (auto simp: handle_datagram_def push_event_def split: sum.splits)
qed

lemma reserved_range_stays_below_witness:
  "se_turns (snd (handle_datagram loop_ops \<lparr>dg_from = 2, dg_bytes = [131]\<rparr>
      (session_new loop_ops (loop_new 1) Host []))) = []"
  using reserved_range_stays_below [of "\<lparr>dg_from = 2, dg_bytes = [131]\<rparr>" 131 "[]" loop_ops
      "session_new loop_ops (loop_new 1) Host []"]
  by (simp add: IPT_BASE_def session_new_def)

section \<open>Starting a match\<close>

lemma extension_first: "extension_decode b = Inr p \<Longrightarrow> b \<noteq> [] \<and> is_extension (hd b) \<and> hd b = extension_id p"
  using extension_encode_decode [of b p]
  by (cases p) (auto simp: extension_encode_def is_extension_def DON_EXT_defs)

lemma match_start_datagram:
  "se_announced_match_start (snd (handle_datagram ops d s)) = Some m \<longleftrightarrow>
     se_announced_match_start s = Some m \<or>
     se_announced_match_start s = None \<and>
     extension_decode (dg_bytes d) = Inr (MatchStart (ms_epoch m) (ms_seed m)) \<and>
     find_host s = Some (dg_from d) \<and> ms_from m = dg_from d \<and> all_ready s \<and> ms_epoch m \<noteq> 0"
proof (cases "extension_decode (dg_bytes d)")
  case (Inl e)
  have "se_announced_match_start (snd (handle_internal ops (dg_from d) p s)) = se_announced_match_start s" for p
    using frame_internal' [of ops s "dg_from d" p] by (simp add: session_frame_def)
  moreover have "se_announced_match_start (snd (handle_game d s)) = se_announced_match_start s"
    using handle_game_frame [of d s] by auto
  ultimately have "se_announced_match_start (snd (handle_datagram ops d s)) = se_announced_match_start s"
    using Inl by (simp add: handle_datagram_def split: list.splits sum.splits)
  then show ?thesis using Inl by simp
next
  case (Inr p)
  then have "handle_datagram ops d s = handle_extension (dg_from d) p s"
    using extension_first [OF Inr] by (auto simp: handle_datagram_def split: list.splits)
  then show ?thesis
    using Inr by (cases p) (auto simp: handle_game_key_def handle_match_start_def Let_def split: option.splits)
qed

text \<open>
  C10: Who can start a match. After a datagram the session has the match start \<open>m\<close> exactly if it had
  it before, or it had none and the datagram is a match start with the epoch and the seed of \<open>m\<close>
  from the player the roster has as its host, every player is ready and the epoch is not zero.
\<close>

theorem match_start_authority:
  "se_announced_match_start (snd (handle_datagram ops d s)) = Some m \<longleftrightarrow>
     se_announced_match_start s = Some m \<or>
     se_announced_match_start s = None \<and>
     extension_decode (dg_bytes d) = Inr (MatchStart (ms_epoch m) (ms_seed m)) \<and>
     find_host s = Some (dg_from d) \<and> ms_from m = dg_from d \<and> all_ready s \<and> ms_epoch m \<noteq> 0"
  by (rule match_start_datagram)

section \<open>Polling and reachable sessions\<close>

text \<open>
  C9: On every transport that meets the contract a poll returns. It never changes a match start that
  is there, and when it succeeds, every other player has been heard from within the timeout, the
  \<open>AllReady\<close> latch says whether all are ready, and \<open>AllReady\<close> was raised once exactly if they have
  become so.
\<close>

theorem poll_returns:
  assumes "datagram_transport ops backlog"
  shows "\<exists>r s'. poll ops now_ms budget s = Some (r, s') \<and>
    (se_announced_match_start s \<noteq> None \<longrightarrow> se_announced_match_start s' = se_announced_match_start s) \<and>
    (r = Inr () \<longrightarrow>
       (\<forall>p\<in>set (se_players s').
          pl_is_local p \<or> saturating_sub now_ms (pl_last_pulse_ms p) \<le> se_timeout_ms s) \<and>
       se_all_ready_fired s' = all_ready s' \<and>
       filter (\<lambda>e. e = AllReady) (se_events s') =
         filter (\<lambda>e. e = AllReady) (se_events s) @
         (if all_ready s' \<and> \<not> se_all_ready_fired s then [AllReady] else []))"
proof (rule datagram_transport.poll_same [OF assms, of now_ms budget s])
  fix e s' assume "poll ops now_ms budget s = Some (Inl e, s')" "session_same (s\<lparr>se_now_ms := now_ms\<rparr>) s'"
  then show ?thesis by (auto simp: session_same_def)
next
  fix q assume p: "poll ops now_ms budget s = Some (Inr (), fire_all_ready (reap_timeouts q))"
    and q: "session_same (s\<lparr>se_now_ms := now_ms\<rparr>) q"
  have same: "session_same (s\<lparr>se_now_ms := now_ms\<rparr>) (reap_timeouts q)"
    using q reap_timeouts_frame [of undefined q q] session_frame_refl [of undefined q]
    by (auto simp: session_frame_def intro: session_same_trans)
  have "\<forall>p\<in>set (se_players (fire_all_ready (reap_timeouts q))).
      pl_is_local p \<or> saturating_sub now_ms (pl_last_pulse_ms p) \<le> se_timeout_ms s"
    using reap_timeouts_fresh [of _ q] q by (auto simp: session_same_def)
  then show ?thesis using p same by (auto simp: session_same_def)
qed

theorem poll_returns_witness:
  "\<exists>r s'. poll loop_ops 40000 0 (session_new loop_ops (loop_new 1) Host []) = Some (r, s')"
  using poll_returns [OF loop.datagram_transport_axioms, of 40000 0 "session_new loop_ops (loop_new 1) Host []"]
  by blast

text \<open>
  C6: In every session that operations and arriving datagrams can lead to, no id appears twice in
  the roster, the local player is there and is the only one marked local, at most one player is the
  host, every stored package lies under its own stamp and slot, and an accepted match start has a
  nonzero epoch. The transport must not hand a session datagrams that carry its own id.
\<close>

theorem session_invariant:
  assumes "foreign_transport ops backlog foreign"
    and "reach (session_init ops foreign) (session_step ops foreign) s"
  shows "session_inv ops s"
  using foreign_transport.reach_session [OF assms] by blast

theorem session_invariant_witness:
  "session_inv loop_ops (snd (send_ready_flag loop_ops True (session_new loop_ops (loop_new 1) Host [])))"
proof (rule session_invariant [OF loopf.foreign_transport_axioms])
  have "session_init loop_ops loop_foreign (session_new loop_ops (loop_new 1) Host [])"
    unfolding session_init_def by (rule exI [of _ "loop_new 1"]) (auto simp: loop_foreign_def loop_new_def)
  then show "reach (session_init loop_ops loop_foreign) (session_step loop_ops loop_foreign)
      (snd (send_ready_flag loop_ops True (session_new loop_ops (loop_new 1) Host [])))"
    by (blast intro: reach_init reach_step st_match ms_ready)
qed

section \<open>The turn gate\<close>

lemma handle_command_package:
  assumes "length payload < 2 ^ 15"
  shows "handle_datagram ops \<lparr>dg_from = u, dg_bytes = net_msg_encode (CommandPackage stamp play payload)\<rparr> s =
    (Inr (), push_event (GameEvent u \<lparr>om_id = 7, om_response = False,
        om_bytes = net_msg_encode (CommandPackage stamp play payload)\<rparr>) (insert_turn stamp play payload s))"
proof -
  have "net_msg_ok (CommandPackage stamp play payload)" using assms by simp
  note d = net_msg_decode_encode [OF this, of False, folded net_msg_encode_def]
  obtain rest where b: "net_msg_encode (CommandPackage stamp play payload) = 7 # rest"
    by (simp add: net_msg_encode_def encode_framed_def msg_type_to_wire_def)
  have "handle_datagram ops \<lparr>dg_from = u, dg_bytes = net_msg_encode (CommandPackage stamp play payload)\<rparr> s =
      handle_game \<lparr>dg_from = u, dg_bytes = net_msg_encode (CommandPackage stamp play payload)\<rparr> s"
    by (simp add: handle_datagram_def b is_extension_def DON_EXT_BASE_def IPT_BASE_def)
  then show ?thesis by (simp add: handle_game_def d)
qed

lemma insert_turn_turns:
  assumes "bt_wf (se_turns s)"
  shows "bt_wf (se_turns (insert_turn stamp play payload s))"
    and "bt_get (se_turns (insert_turn stamp play payload s)) = (bt_get (se_turns s))(stamp \<mapsto>
       bt_insert play \<lparr>tp_stamp = stamp, tp_play = play, tp_payload = payload\<rparr>
         (case bt_get (se_turns s) stamp of None \<Rightarrow> [] | Some m \<Rightarrow> m))"
  using assms by (simp_all add: insert_turn_def Let_def bt.get_insert bt_wf_insert)

lemma insert_turn_players [simp]: "se_players (insert_turn stamp play payload s) = se_players s"
  by (simp add: insert_turn_def Let_def)

text \<open>
  C12: The turn gate counts slots, not players. In a session of two players in which nobody has sent a
  package for a turn, two packages for that turn from one sender, with two different slot numbers,
  open the gate, although the other player, be it the local one, has sent nothing.
\<close>

theorem turn_gate_counts_slots:
  assumes "session_inv ops s" "length (se_players s) = 2" "bt_get (se_turns s) stamp = None"
    and "play \<noteq> play'" "length payload < 2 ^ 15" "length payload' < 2 ^ 15"
    and "d = \<lparr>dg_from = u, dg_bytes = net_msg_encode (CommandPackage stamp play payload)\<rparr>"
    and "d' = \<lparr>dg_from = u, dg_bytes = net_msg_encode (CommandPackage stamp play' payload')\<rparr>"
  shows "\<not> turn_ready stamp s \<and> turn_ready stamp (snd (handle_datagram ops d' (snd (handle_datagram ops d s))))"
proof -
  have wf: "bt_wf (se_turns s)" using assms(1) by (simp add: session_inv_def turns_ok_def)
  let ?m = "bt_insert play' \<lparr>tp_stamp = stamp, tp_play = play', tp_payload = payload'\<rparr>
      [(play, \<lparr>tp_stamp = stamp, tp_play = play, tp_payload = payload\<rparr>)]"
  have "bt_get (se_turns (insert_turn stamp play' payload' (push_event e (insert_turn stamp play payload s)))) stamp =
      Some ?m" for e
    using wf assms(3) by (simp add: insert_turn_turns del: bt_insert.simps) simp
  moreover have "length ?m = 2" using assms(4) by auto
  ultimately show ?thesis
    using assms(2,3) unfolding assms(7,8) handle_command_package [OF assms(5)] handle_command_package [OF assms(6)]
    by (simp add: turn_ready_def del: bt_insert.simps)
qed

text \<open>A host and one client, nothing sent yet.\<close>

definition two_players :: "loop_transport session" where
  "two_players = join_player 2 [99] False False 1 (session_new loop_ops (loop_new 1) Host [104])"

theorem turn_gate_counts_slots_witness:
  "turn_ready 5 (snd (handle_datagram loop_ops \<lparr>dg_from = 2, dg_bytes = net_msg_encode (CommandPackage 5 (I8 1) [])\<rparr>
     (snd (handle_datagram loop_ops \<lparr>dg_from = 2, dg_bytes = net_msg_encode (CommandPackage 5 (I8 0) [])\<rparr> two_players))))"
proof -
  have "session_inv loop_ops two_players" "length (se_players two_players) = 2" "bt_get (se_turns two_players) 5 = None"
    by (simp_all add: two_players_def join_player_def session_new_def push_event_def local_player_def session_inv_def
        roster_ok_def turns_ok_def session_local_id_def loop_ops_def loop_new_def bt_get_def)
  from turn_gate_counts_slots [OF this _ _ _ refl refl, of "I8 0" "I8 1" "[]" "[]" 2] show ?thesis by simp
qed

end
