(* ===== verification/Session_Pair.thy ===== *)
theory Session_Pair
  imports Session_Match
begin

text \<open>
  Two sessions joined by a loopback, each doing any of its operations at any time, with the loopback
  pumped in between. They agree on the match, and a fixed exchange brings them from nothing to a
  started match.
\<close>

section \<open>Two sessions\<close>

type_synonym loop_session = "loop_transport session"

definition pump_sessions :: "loop_session \<Rightarrow> loop_session \<Rightarrow> loop_session \<times> loop_session" where
  "pump_sessions a b =
     (case loop_pump (se_transport a) (se_transport b) of
        (ta, tb) \<Rightarrow> (a\<lparr>se_transport := ta\<rparr>, b\<lparr>se_transport := tb\<rparr>))"

inductive pair_step :: "loop_session \<times> loop_session \<Rightarrow> loop_session \<times> loop_session \<Rightarrow> bool" where
  pair_left: "match_step loop_ops a a' \<Longrightarrow> pair_step (a, b) (a', b)"
| pair_right: "match_step loop_ops b b' \<Longrightarrow> pair_step (a, b) (a, b')"
| pair_pump: "pair_step (a, b) (pump_sessions a b)"

inductive_cases pair_stepE: "pair_step p p'"

definition fresh_session :: "i32 \<Rightarrow> i32 \<Rightarrow> role \<Rightarrow> rust_string \<Rightarrow> loop_session" where
  "fresh_session me peer r name = session_new loop_ops (loop_connect peer (loop_new me)) r name"

definition pair_init :: "loop_session \<times> loop_session \<Rightarrow> bool" where
  "pair_init p \<longleftrightarrow> (\<exists>i j r r' name name'. i \<noteq> j \<and> p = (fresh_session i j r name, fresh_session j i r' name'))"

text \<open>What a session may have put on the wire: no host migration, and a match start only if it is its own.\<close>

definition sent_ok :: "loop_session \<Rightarrow> u8 list \<Rightarrow> bool" where
  "sent_ok s bytes \<longleftrightarrow>
     (\<forall>h. internal_packet_decode bytes \<noteq> Inr (MigrateHost h)) \<and>
     (\<forall>epoch sd. extension_decode bytes = Inr (MatchStart epoch sd) \<longrightarrow>
        se_announced_match_start s = Some \<lparr>ms_from = lt_id (se_transport s), ms_epoch = epoch, ms_seed = sd\<rparr>)"

definition outbound :: "loop_transport \<Rightarrow> u8 list list" where
  "outbound t = concat (map snd (lt_outbox t))"

definition side :: "loop_session \<Rightarrow> role \<Rightarrow> i32 \<Rightarrow> loop_session \<Rightarrow> bool" where
  "side other r me s \<longleftrightarrow>
     lt_id (se_transport s) = me \<and> se_role s = r \<and>
     (\<forall>d\<in>set (lt_inbox (se_transport s)).
        dg_from d = lt_id (se_transport other) \<and> sent_ok other (dg_bytes d)) \<and>
     (\<forall>bytes\<in>set (outbound (se_transport s)). sent_ok s bytes) \<and>
     (\<forall>m. se_announced_match_start s = Some m \<longrightarrow>
        r = Host \<and> ms_from m = me \<or> se_announced_match_start other = Some m)"

lemma migrate_first: "internal_packet_decode b = Inr (MigrateHost h) \<Longrightarrow> hd b = IPT_MIGRATEHOST"
  using internal_packet_canonical [of b "MigrateHost h"] by (auto simp: internal_packet_encode_def)

lemma sent_ok_first:
  assumes "hd bytes \<noteq> IPT_MIGRATEHOST" "hd bytes \<noteq> DON_EXT_MATCH_START"
  shows "sent_ok s bytes"
  using assms by (auto simp: sent_ok_def dest!: migrate_first extension_first)

lemma sent_ok_polite:
  assumes "polite_packet p"
  shows "sent_ok s (internal_packet_encode p)"
  using assms by (cases p) (auto intro!: sent_ok_first simp: internal_packet_encode_def IPT_defs DON_EXT_defs)

lemma sent_ok_mono:
  assumes "sent_ok s bytes" "lt_id (se_transport s') = lt_id (se_transport s)"
    "\<And>m. se_announced_match_start s = Some m \<Longrightarrow> se_announced_match_start s' = Some m"
  shows "sent_ok s' bytes"
  using assms by (simp add: sent_ok_def)

section \<open>One side\<close>

lemma loop_send_simps [simp]:
  "lt_id (snd (tr_send loop_ops d b t)) = lt_id t" "lt_inbox (snd (tr_send loop_ops d b t)) = lt_inbox t"
  by (simp_all add: loop_ops_def loop_send_def)

lemma loop_ops_simps [simp]:
  "tr_local_id loop_ops t = lt_id t" "snd (tr_poll loop_ops budget t) = t" "fst (tr_send loop_ops d b t) = Inr ()"
  by (simp_all add: loop_ops_def loop_send_def)

lemma outbound_send: "set (outbound (snd (tr_send loop_ops d b t))) \<subseteq> insert b (set (outbound t))"
  by (auto simp: outbound_def loop_ops_def loop_send_def split: if_splits)

lemma sends_loop:
  "sends loop_ops t t' \<Longrightarrow> lt_id t' = lt_id t \<and> lt_inbox t' = lt_inbox t \<and>
     set (outbound t') \<subseteq> set (outbound t) \<union> internal_packet_encode ` Collect polite_packet"
proof (induction rule: sends.induct)
  case (sends_step t t' p dst)
  then show ?case using outbound_send [of dst "internal_packet_encode p" t'] by auto
qed simp

lemma side_cong:
  assumes "side other r me s" "se_transport s' = se_transport s" "se_role s' = se_role s"
    "se_announced_match_start s' = se_announced_match_start s"
  shows "side other r me s'"
  using assms by (simp add: side_def sent_ok_def)

lemma side_send:
  assumes "side other r me s" "sent_ok s b"
  shows "side other r me (s\<lparr>se_transport := snd (tr_send loop_ops d b (se_transport s))\<rparr>)"
proof -
  have "sent_ok (s\<lparr>se_transport := snd (tr_send loop_ops d b (se_transport s))\<rparr>) = sent_ok s"
    by (simp add: sent_ok_def fun_eq_iff)
  then show ?thesis
    using assms outbound_send [of d b "se_transport s"] by (auto simp: side_def)
qed

lemma side_recv:
  assumes "side other r me s"
  shows "side other r me (s\<lparr>se_transport := snd (tr_recv loop_ops (se_transport s))\<rparr>)"
proof -
  let ?t = "snd (tr_recv loop_ops (se_transport s))"
  have "lt_id ?t = lt_id (se_transport s)" "outbound ?t = outbound (se_transport s)"
    "set (lt_inbox ?t) \<subseteq> set (lt_inbox (se_transport s))"
    by (auto simp: loop_ops_def loop_recv_def outbound_def split: list.splits)
  then show ?thesis using assms by (auto simp: side_def sent_ok_def)
qed

lemma role_datagram:
  assumes "\<forall>h. internal_packet_decode (dg_bytes d) \<noteq> Inr (MigrateHost h)"
  shows "se_role (snd (handle_datagram ops d s)) = se_role s"
proof -
  have "se_role (snd (handle_internal ops (dg_from d) p s)) = se_role s" if "\<forall>h. p \<noteq> MigrateHost h" for p
  proof (cases p)
    case (PlayerList n us)
    then show ?thesis
      using refused_or_blind_list [OF blind_views(2), of "dg_from d" s ops n us] by (auto simp: refused_or_blind_def)
  next
    case (AddPlayer name u h)
    then show ?thesis
      using refused_or_blind_add [OF blind_views(2), of "dg_from d" s ops name u h] by (auto simp: refused_or_blind_def)
  qed (use that in \<open>simp_all add: handle_ready_flag_def handle_pulse_def handle_destroy_player_def Let_def
      update_player_def split: option.splits\<close>)
  moreover have "se_role (snd (handle_extension from p s)) = se_role s" for "from" p
    by (cases p) (simp_all add: handle_game_key_def handle_match_start_def Let_def split: option.splits)
  moreover have "se_role (snd (handle_game d s)) = se_role s"
    using handle_game_frame [of d s] by auto
  ultimately show ?thesis
    using assms by (auto simp: handle_datagram_def split: list.splits sum.splits)
qed

lemma side_datagram:
  assumes side: "side other r me s" and d: "dg_from d = lt_id (se_transport other)" "sent_ok other (dg_bytes d)"
  shows "side other r me (snd (handle_datagram loop_ops d s))"
proof -
  let ?s = "snd (handle_datagram loop_ops d s)"
  note same = datagram_same [of loop_ops s d]
  have mono: "se_announced_match_start s = Some m \<Longrightarrow> se_announced_match_start ?s = Some m" for m
    using match_start_datagram by blast
  have "se_role ?s = se_role s" by (rule role_datagram) (use d(2) in \<open>simp add: sent_ok_def\<close>)
  then have "se_role ?s = r" using side by (simp add: side_def)
  moreover have "sent_ok ?s b" if "b \<in> set (outbound (se_transport ?s))" for b
    using that sends_loop [of "se_transport s" "se_transport ?s"] same side mono sent_ok_mono [of s b ?s] sent_ok_polite
    by (auto simp: side_def)
  moreover have "r = Host \<and> ms_from m = me \<or> se_announced_match_start other = Some m"
    if "se_announced_match_start ?s = Some m" for m
  proof -
    from that consider "se_announced_match_start s = Some m"
      | "extension_decode (dg_bytes d) = Inr (MatchStart (ms_epoch m) (ms_seed m))" "ms_from m = dg_from d"
      by (auto simp: match_start_datagram)
    then show ?thesis using side d by cases (auto simp: side_def sent_ok_def)
  qed
  ultimately show ?thesis
    using sends_loop [of "se_transport s" "se_transport ?s"] same side unfolding side_def by auto
qed

lemma side_poll:
  assumes side: "side other r me s" and poll: "poll loop_ops now_ms budget s = Some (res, s')"
  shows "side other r me s'"
proof (rule loop.poll_rule [where I = "side other r me" and s = s and now_ms = now_ms and budget = budget])
  fix q d t assume q: "side other r me q" and t: "tr_recv loop_ops (se_transport q) = (Inr (Some d), t)"
  have "side other r me (q\<lparr>se_transport := t\<rparr>)" using side_recv [OF q] t by simp
  moreover have "d \<in> set (lt_inbox (se_transport q))"
    using t by (auto simp: loop_ops_def loop_recv_def split: list.splits)
  ultimately show "side other r me (snd (handle_datagram loop_ops d (q\<lparr>se_transport := t\<rparr>)))"
    using q by (intro side_datagram) (auto simp: side_def)
next
  fix q assume p: "poll loop_ops now_ms budget s = Some (Inr (), fire_all_ready (reap_timeouts q))"
    and q: "side other r me q"
  have "se_role (reap_timeouts q) = se_role q"
    unfolding reap_timeouts_def by (rule blind_helpers [OF blind_views(2)])
  then have "side other r me (fire_all_ready (reap_timeouts q))"
    using q by - (erule side_cong, simp_all add: reap_timeouts_def)
  then show ?thesis using p poll by simp
qed (use side poll in \<open>simp_all add: side_send side_recv sent_ok_polite, auto elim!: side_cong\<close>)

lemma sent_ok_net: "net_msg_id msg < IPT_BASE \<Longrightarrow> sent_ok s (net_msg_encode msg)"
  by (rule sent_ok_first) (auto simp: net_msg_encode_def encode_framed_def msg_type_to_wire_def IPT_BASE_def
      IPT_defs DON_EXT_defs)

lemma sent_ok_other:
  "sent_ok s (extension_encode (GameKey sd src))" "sent_ok s (internal_packet_encode (Dsync f))"
  "sent_ok s (internal_packet_encode (DestroyPlayer u))" "sent_ok s (internal_packet_encode (ReadyFlag b))"
  by (auto intro!: sent_ok_first simp: extension_encode_def internal_packet_encode_def IPT_defs DON_EXT_defs)

text \<open>Starting a match: the packet and the record of it go together.\<close>

lemma side_start:
  assumes "side other r me s"
  shows "side other r me (snd (start_match loop_ops epoch sd s))"
proof (cases "se_role s = Host \<and> epoch \<noteq> 0 \<and> all_ready s \<and> se_announced_match_start s = None")
  case False
  then show ?thesis using assms by (auto simp: start_match_def split: option.splits)
next
  case True
  let ?m = "\<lparr>ms_from = me, ms_epoch = epoch, ms_seed = sd\<rparr>" and ?b = "extension_encode (MatchStart epoch sd)"
  let ?t = "snd (tr_send loop_ops All ?b (se_transport s))"
  let ?s = "push_event (MatchStarted ?m) (s\<lparr>se_transport := ?t, se_announced_match_start := Some ?m\<rparr>)"
  have id: "lt_id (se_transport s) = me" using assms by (simp add: side_def)
  have "session_send loop_ops All ?b s = (Inr (), s\<lparr>se_transport := ?t\<rparr>)"
    by (simp add: prod_eq_iff session_send_def case_prod_beta)
  then have "snd (start_match loop_ops epoch sd s) = ?s"
    using True by (simp add: start_match_def session_local_id_def id Let_def)
  moreover have "sent_ok ?s b" if "b \<in> set (outbound ?t)" for b
  proof -
    have "b = ?b \<or> sent_ok s b" using that outbound_send [of All ?b "se_transport s"] assms by (auto simp: side_def)
    moreover have "hd ?b \<noteq> IPT_MIGRATEHOST" by (simp add: extension_encode_def DON_EXT_defs IPT_defs)
    then have "sent_ok ?s ?b" by (auto simp: sent_ok_def extension_decode_encode id dest!: migrate_first)
    ultimately show ?thesis using True sent_ok_mono [of s b ?s] by (auto simp: id)
  qed
  ultimately show ?thesis using assms True by (simp add: side_def)
qed

lemma side_package:
  assumes "side other r me s"
  shows "side other r me (snd (send_command_package loop_ops stamp play payload s))"
proof -
  have "side other r me (insert_turn stamp play payload
      (s\<lparr>se_transport := snd (tr_send loop_ops All (net_msg_encode (CommandPackage stamp play payload)) (se_transport s))\<rparr>))"
    by (rule side_cong [OF side_send [OF assms sent_ok_net]])
      (simp_all add: insert_turn_def Let_def IPT_BASE_def)
  then show ?thesis
    using assms by (auto simp: send_command_package_def io_then_def send_all_def session_send_def loop_ops_def
        loop_send_def)
qed

lemma side_step:
  assumes "side other r me s" "match_step loop_ops s s'"
  shows "side other r me s'"
  using assms(2)
proof (cases rule: match_step.cases)
  case ms_poll
  then show ?thesis using side_poll assms(1) by blast
next
  case ms_take
  then show ?thesis using assms(1) by (auto simp: take_turn_def split: option.splits elim!: side_cong)
next
  case (ms_ready ready)
  have "side other r me (s\<lparr>se_players := ps\<rparr>)" for ps using assms(1) by (auto elim: side_cong)
  from side_send [OF this sent_ok_other(4)] show ?thesis
    by (simp add: ms_ready send_ready_flag_def emit_all_def)
next
  case ms_reset_ready
  have "side other r me (s\<lparr>se_players := ps, se_all_ready_fired := f\<rparr>)" for ps f
    using assms(1) by (auto elim: side_cong)
  from side_send [OF this sent_ok_other(4)] show ?thesis
    by (simp add: ms_reset_ready reset_ready_flags_def emit_all_def)
next
  case ms_drain
  then show ?thesis using assms(1) by (auto simp: drain_events_def elim: side_cong)
next
  case ms_timeout
  then show ?thesis using assms(1) by (auto simp: set_timeout_ms_def elim: side_cong)
qed (use assms(1) in \<open>simp_all add: side_start side_package send_dsync_def announce_game_key_def
    announce_game_key_to_def announce_disconnect_def send_all_def send_to_def emit_all_def
    sent_ok_other sent_ok_net side_send\<close>)

section \<open>Agreement\<close>

lemma match_step_mono:
  assumes "match_step loop_ops s s'" "se_announced_match_start s = Some m"
  shows "se_announced_match_start s' = Some m"
  using assms(1)
proof (cases rule: match_step.cases)
  case (ms_poll now_ms budget r)
  show ?thesis
  proof (rule loop.poll_same [of now_ms budget s])
    fix q assume "poll loop_ops now_ms budget s = Some (Inr (), fire_all_ready (reap_timeouts q))"
      "session_same (s\<lparr>se_now_ms := now_ms\<rparr>) q"
    then show ?thesis using ms_poll assms(2) by (auto simp: session_same_def reap_timeouts_def)
  qed (use ms_poll assms(2) in \<open>simp add: session_same_def\<close>)
qed (use assms(2) in \<open>auto simp: send_ready_flag_def reset_ready_flags_def send_dsync_def start_match_def
    announce_game_key_def announce_game_key_to_def announce_disconnect_def send_all_def send_to_def emit_all_def
    send_command_package_def io_then_def session_send_def insert_turn_def Let_def take_turn_def
    drain_events_def set_timeout_ms_def split: option.splits prod.splits sum.splits\<close>)

lemma side_other:
  assumes "side other r me s" "lt_id (se_transport other') = lt_id (se_transport other)"
    "\<And>m. se_announced_match_start other = Some m \<Longrightarrow> se_announced_match_start other' = Some m"
  shows "side other' r me s"
  using assms(1) sent_ok_mono [OF _ assms(2,3)] assms(2,3) unfolding side_def by auto

definition pair_inv :: "loop_session \<times> loop_session \<Rightarrow> bool" where
  "pair_inv p \<longleftrightarrow>
     (case p of (a, b) \<Rightarrow>
        lt_id (se_transport a) \<noteq> lt_id (se_transport b) \<and>
        side b (se_role a) (lt_id (se_transport a)) a \<and> side a (se_role b) (lt_id (se_transport b)) b)"

lemma side_selfD: "side other r me s \<Longrightarrow> se_role s = r \<and> lt_id (se_transport s) = me"
  by (simp add: side_def)

lemma pair_inv_left:
  assumes "pair_inv (a, b)" "match_step loop_ops a a'"
  shows "pair_inv (a', b)"
proof -
  have a': "side b (se_role a) (lt_id (se_transport a)) a'"
    using assms(1) by (intro side_step [OF _ assms(2)]) (simp add: pair_inv_def)
  then have "side a' (se_role b) (lt_id (se_transport b)) b"
    using assms(1) match_step_mono [OF assms(2)] side_selfD [OF a'] side_other [of a _ _ b a']
    by (simp add: pair_inv_def)
  then show ?thesis using a' side_selfD [OF a'] assms(1) by (simp add: pair_inv_def)
qed

lemma pair_inv_swap: "pair_inv (a, b) = pair_inv (b, a)"
  by (auto simp: pair_inv_def)

lemma outbound_iff: "b \<in> set (outbound t) \<longleftrightarrow> (\<exists>peer q. (peer, q) \<in> set (lt_outbox t) \<and> b \<in> set q)"
  by (force simp: outbound_def)

lemma loop_drain_simps:
  assumes "loop_drain src dst = (src', dst')"
  shows "lt_id src' = lt_id src" "lt_id dst' = lt_id dst" "lt_inbox src' = lt_inbox src"
    "lt_outbox dst' = lt_outbox dst" "set (outbound src') \<subseteq> set (outbound src)"
    "set (lt_inbox dst') \<subseteq> set (lt_inbox dst) \<union> (\<lambda>b. \<lparr>dg_from = lt_id src, dg_bytes = b\<rparr>) ` set (outbound src)"
  using assms by (auto simp: loop_drain_def outbound_iff split: if_splits) (auto simp: image_iff outbound_iff)

lemma sent_ok_transport: "lt_id t = lt_id (se_transport s) \<Longrightarrow> sent_ok (s\<lparr>se_transport := t\<rparr>) = sent_ok s"
  by (simp add: sent_ok_def fun_eq_iff)

lemma pair_inv_drain:
  assumes inv: "pair_inv (a, b)" and d: "loop_drain (se_transport a) (se_transport b) = (ta, tb)"
  shows "pair_inv (a\<lparr>se_transport := ta\<rparr>, b\<lparr>se_transport := tb\<rparr>)"
proof -
  note ids = loop_drain_simps(1,2) [OF d]
  have ok: "sent_ok (a\<lparr>se_transport := ta\<rparr>) = sent_ok a" "sent_ok (b\<lparr>se_transport := tb\<rparr>) = sent_ok b"
    using ids by (simp_all add: sent_ok_transport)
  have a: "side b (se_role a) (lt_id (se_transport a)) a" and b: "side a (se_role b) (lt_id (se_transport b)) b"
    using inv by (simp_all add: pair_inv_def)
  have out: "outbound tb = outbound (se_transport b)"
    using loop_drain_simps(4) [OF d] by (simp add: outbound_def)
  have sent: "\<forall>x\<in>set (outbound (se_transport a)). sent_ok a x" using a by (simp add: side_def)
  have "\<forall>x\<in>set (outbound ta). sent_ok a x" using sent loop_drain_simps(5) [OF d] by blast
  then have "side (b\<lparr>se_transport := tb\<rparr>) (se_role a) (lt_id ta) (a\<lparr>se_transport := ta\<rparr>)"
    using a ids loop_drain_simps(3) [OF d] by (simp add: side_def ok)
  moreover have "\<forall>x\<in>set (lt_inbox tb). dg_from x = lt_id ta \<and> sent_ok a (dg_bytes x)"
    using b sent ids loop_drain_simps(6) [OF d] unfolding side_def by fastforce
  then have "side (a\<lparr>se_transport := ta\<rparr>) (se_role b) (lt_id tb) (b\<lparr>se_transport := tb\<rparr>)"
    using b ids out by (simp add: side_def ok)
  ultimately show ?thesis using inv ids by (simp add: pair_inv_def)
qed

lemma pair_inv_pump:
  assumes "pair_inv (a, b)"
  shows "pair_inv (pump_sessions a b)"
proof -
  obtain ta tb where 1: "loop_drain (se_transport a) (se_transport b) = (ta, tb)" by fastforce
  obtain tb' ta' where 2: "loop_drain tb ta = (tb', ta')" by fastforce
  have p: "pump_sessions a b = (a\<lparr>se_transport := ta'\<rparr>, b\<lparr>se_transport := tb'\<rparr>)"
    by (simp add: pump_sessions_def loop_pump_def 1 2)
  have "pair_inv (b\<lparr>se_transport := tb\<rparr>, a\<lparr>se_transport := ta\<rparr>)"
    using pair_inv_drain [OF assms 1] pair_inv_swap by blast
  from pair_inv_drain [OF this, of tb' ta'] 2 have "pair_inv (b\<lparr>se_transport := tb'\<rparr>, a\<lparr>se_transport := ta'\<rparr>)"
    by simp
  then show ?thesis using p pair_inv_swap by simp
qed

interpretation pair: invariant_rule pair_init pair_step pair_inv
proof
  fix p assume "pair_init p"
  then show "pair_inv p"
    by (auto simp: pair_init_def pair_inv_def side_def fresh_session_def session_new_def loop_connect_def
        loop_new_def outbound_def)
next
  fix p p' assume "pair_inv p" "pair_step p p'"
  then show "pair_inv p'"
    using pair_inv_left pair_inv_swap by (elim pair_stepE) (blast, blast, simp add: pair_inv_pump)
qed

section \<open>From nothing to a started match\<close>

text \<open>
  The exchange that the repository's own tests drive: in each round both sessions poll and the
  loopback is pumped. After three rounds both set their ready flag, after two more the host starts
  the match, and two rounds deliver the start.
\<close>

definition pair_round :: "u64 \<Rightarrow> loop_session \<times> loop_session \<Rightarrow> (loop_session \<times> loop_session) option" where
  "pair_round now_ms p =
     (case p of (a, b) \<Rightarrow>
        (case poll loop_ops now_ms 0 a of
           Some (Inr _, a) \<Rightarrow>
             (case poll loop_ops now_ms 0 b of
                Some (Inr _, b) \<Rightarrow> Some (pump_sessions a b)
              | _ \<Rightarrow> None)
         | _ \<Rightarrow> None))"

fun pair_rounds :: "nat \<Rightarrow> u64 \<Rightarrow> loop_session \<times> loop_session \<Rightarrow> (loop_session \<times> loop_session) option" where
  "pair_rounds 0 now_ms p = Some p"
| "pair_rounds (Suc n) now_ms p = Option.bind (pair_round now_ms p) (pair_rounds n now_ms)"

definition pair_ready :: "loop_session \<times> loop_session \<Rightarrow> loop_session \<times> loop_session" where
  "pair_ready p = (case p of (a, b) \<Rightarrow> (snd (send_ready_flag loop_ops True a), snd (send_ready_flag loop_ops True b)))"

definition pair_start :: "u32 \<Rightarrow> u32 \<Rightarrow> loop_session \<times> loop_session \<Rightarrow> loop_session \<times> loop_session" where
  "pair_start epoch sd p = (case p of (a, b) \<Rightarrow> (snd (start_match loop_ops epoch sd a), b))"

definition lobby_run :: "u64 \<Rightarrow> u32 \<Rightarrow> u32 \<Rightarrow> loop_session \<times> loop_session \<Rightarrow> (loop_session \<times> loop_session) option" where
  "lobby_run now_ms epoch sd p =
     Option.bind (pair_rounds 3 now_ms p) (\<lambda>p.
     Option.bind (pair_rounds 2 now_ms (pair_ready p)) (\<lambda>p.
     pair_rounds 2 now_ms (pair_start epoch sd p)))"

lemma pair_round_reach:
  assumes "reach pair_init pair_step p" "pair_round now_ms p = Some p'"
  shows "reach pair_init pair_step p'"
proof -
  obtain a b where p: "p = (a, b)" by fastforce
  obtain a' b' where 1: "poll loop_ops now_ms 0 a = Some (Inr (), a')" "poll loop_ops now_ms 0 b = Some (Inr (), b')"
      "p' = pump_sessions a' b'"
    using assms(2) by (auto simp: pair_round_def p split: option.splits sum.splits)
  have "reach pair_init pair_step (a', b)" using assms(1) 1(1) p by (blast intro: reach_step pair_left ms_poll)
  then have "reach pair_init pair_step (a', b')" using 1(2) by (blast intro: reach_step pair_right ms_poll)
  then show ?thesis using 1(3) by (blast intro: reach_step pair_pump)
qed

lemma pair_rounds_reach:
  "reach pair_init pair_step p \<Longrightarrow> pair_rounds n now_ms p = Some p' \<Longrightarrow> reach pair_init pair_step p'"
  by (induction n arbitrary: p) (auto simp: bind_eq_Some_conv dest: pair_round_reach)

lemma lobby_run_reach:
  assumes "reach pair_init pair_step p" "lobby_run now_ms epoch sd p = Some p'"
  shows "reach pair_init pair_step p'"
proof -
  obtain a b c d where 1: "pair_rounds 3 now_ms p = Some (a, b)"
      "pair_rounds 2 now_ms (pair_ready (a, b)) = Some (c, d)"
      "pair_rounds 2 now_ms (pair_start epoch sd (c, d)) = Some p'"
    using assms(2) by (auto simp: lobby_run_def bind_eq_Some_conv)
  have "reach pair_init pair_step (a, b)" using assms(1) 1(1) by (rule pair_rounds_reach)
  then have "reach pair_init pair_step (snd (send_ready_flag loop_ops True a), b)"
    by (blast intro: reach_step pair_left ms_ready)
  then have "reach pair_init pair_step (pair_ready (a, b))"
    unfolding pair_ready_def prod.case by (blast intro: reach_step pair_right ms_ready)
  then have "reach pair_init pair_step (c, d)" using 1(2) by (rule pair_rounds_reach)
  then have "reach pair_init pair_step (pair_start epoch sd (c, d))"
    unfolding pair_start_def prod.case by (blast intro: reach_step pair_left ms_start)
  then show ?thesis using 1(3) by (rule pair_rounds_reach)
qed

text \<open>Symbolic execution of a round: the receive loop on a list, and packets that decode to themselves.\<close>

lemma receive_all_loop:
  "receive_all loop_ops s =
     (case lt_inbox (se_transport s) of
        [] \<Rightarrow> Some (Inr (), s)
      | d # ds \<Rightarrow>
          (case handle_datagram loop_ops d (s\<lparr>se_transport := (se_transport s)\<lparr>lt_inbox := ds\<rparr>\<rparr>) of
             (Inl e, s') \<Rightarrow> Some (Inl e, s')
           | (Inr _, s') \<Rightarrow> receive_all loop_ops s'))"
  unfolding receive_all.simps [of loop_ops s] by (simp add: loop_ops_def loop_recv_def split: list.splits)

lemma handle_encoded:
  assumes "internal_packet_ok p"
  shows "handle_datagram ops \<lparr>dg_from = u, dg_bytes = internal_packet_encode p\<rparr> s = handle_internal ops u p s"
proof -
  have "\<not> is_extension (internal_packet_id p)" "IPT_BASE \<le> internal_packet_id p"
    by (cases p; simp add: is_extension_def DON_EXT_defs IPT_defs IPT_BASE_def)+
  moreover have "internal_packet_decode (internal_packet_encode p) = Inr p"
    using assms by (rule internal_packet_decode_encode)
  ultimately show ?thesis
    by (simp add: handle_datagram_def internal_packet_encode_def)
qed

lemma handle_encoded_extension:
  "handle_datagram ops \<lparr>dg_from = u, dg_bytes = extension_encode p\<rparr> s = handle_extension u p s"
proof -
  have "is_extension (extension_id p)" by (cases p) (simp_all add: is_extension_def DON_EXT_defs)
  moreover have "extension_decode (extension_encode p) = Inr p" by (rule extension_decode_encode)
  ultimately show ?thesis by (simp add: handle_datagram_def extension_encode_def)
qed

lemma loop_run_ops:
  "tr_peers loop_ops t = map fst (lt_outbox t)" "tr_send loop_ops = loop_send" "tr_poll loop_ops b t = (Inr (), t)"
  by (simp_all add: loop_ops_def)

lemma saturating_sub_simps: "saturating_sub a a = 0" "saturating_sub a 0 = (a :: u64)"
  by (simp_all add: saturating_sub_def)

lemmas run_defs = pair_round_def poll_def greet_fresh_def io_then_def emit_to_def emit_all_def session_send_def
  loop_send_def send_pulse_def poll_transport_def reap_timeouts_def fire_all_ready_def pump_sessions_def loop_pump_def
  loop_drain_def session_local_id_def local_ready_def push_event_def all_ready_def handle_add_player_def
  find_host_def find_player_def refuse_def answer_add_player_def send_playerlist_def republish_ready_def
  join_player_def update_player_def handle_player_list_def accept_player_list_def prune_roster_def
  handle_ready_flag_def io_ok_def send_ready_flag_def MAX_PLAYERS_def Let_def start_match_def handle_match_start_def
  receive_all_loop handle_encoded handle_encoded_extension loop_run_ops saturating_sub_simps pair_ready_def pair_start_def

text \<open>A session in the lobby and a player of its roster.\<close>

definition lobby ::
    "i32 \<Rightarrow> i32 \<Rightarrow> role \<Rightarrow> rust_string \<Rightarrow> u64 \<Rightarrow> player list \<Rightarrow> session_event list \<Rightarrow> u8 list list \<Rightarrow>
       bool \<Rightarrow> announced_match_start option \<Rightarrow> loop_session" where
  "lobby me peer r name now_ms ps evs inb fired m =
     \<lparr>se_transport =
        \<lparr>lt_id = me, lt_inbox = map (\<lambda>b. \<lparr>dg_from = peer, dg_bytes = b\<rparr>) inb, lt_outbox = [(peer, [])]\<rparr>,
      se_role = r, se_local_name = name, se_players = ps, se_events = evs, se_turns = [], se_announced_to = [peer],
      se_all_ready_fired = fired, se_now_ms = now_ms, se_last_pulse_sent_ms = 0, se_pulse_interval_ms = 1000,
      se_timeout_ms = 30000, se_announced_game_key = None, se_announced_match_start = m\<rparr>"

definition lobby_player :: "i32 \<Rightarrow> rust_string \<Rightarrow> bool \<Rightarrow> bool \<Rightarrow> bool \<Rightarrow> u64 \<Rightarrow> nat \<Rightarrow> player" where
  "lobby_player u name h l ready now_ms slot =
     \<lparr>pl_unique_id = u, pl_name = name, pl_is_host = h, pl_is_local = l, pl_ready = ready,
      pl_last_pulse_ms = now_ms, pl_slot = slot\<rparr>"

definition lobby_ok :: "i32 \<Rightarrow> i32 \<Rightarrow> rust_string \<Rightarrow> rust_string \<Rightarrow> u64 \<Rightarrow> bool" where
  "lobby_ok i j n n' now_ms \<longleftrightarrow>
     i \<noteq> j \<and> i \<noteq> 0 \<and> j \<noteq> 0 \<and> narrow_ok ADD_PLAYER_NAME_LEN n \<and> narrow_ok ADD_PLAYER_NAME_LEN n' \<and> now_ms < 1000"

lemma lobby_okD:
  "lobby_ok i j n n' now_ms \<Longrightarrow>
     i \<noteq> j \<and> j \<noteq> i \<and> i \<noteq> 0 \<and> j \<noteq> 0 \<and> narrow_ok ADD_PLAYER_NAME_LEN n \<and> narrow_ok ADD_PLAYER_NAME_LEN n' \<and>
     (1000 \<le> now_ms) = False"
  by (auto simp: lobby_ok_def)

lemma lobby_round_1:
  assumes "lobby_ok i j n n' t"
  shows "pair_round t (fresh_session i j Host n, fresh_session j i Client n') =
    Some (lobby i j Host n t [lobby_player i n True True False 0 0] []
            (map internal_packet_encode [AddPlayer n' j False, ReadyFlag False]) False None,
          lobby j i Client n' t [lobby_player j n' False True False 0 0] []
            (map internal_packet_encode [AddPlayer n i True, ReadyFlag False]) False None)"
  using lobby_okD [OF assms]
  by (simp add: run_defs lobby_def lobby_player_def fresh_session_def session_new_def local_player_def
      loop_connect_def loop_new_def del: drop_players_simps fire_all_ready_simps)

lemma lobby_round_2:
  assumes "lobby_ok i j n n' t"
  shows "pair_round t
      (lobby i j Host n t [lobby_player i n True True False 0 0] []
            (map internal_packet_encode [AddPlayer n' j False, ReadyFlag False]) False None,
          lobby j i Client n' t [lobby_player j n' False True False 0 0] []
            (map internal_packet_encode [AddPlayer n i True, ReadyFlag False]) False None) =
    Some (lobby i j Host n t [lobby_player i n True True False 0 0, lobby_player j n' False False False t 1]
            [PlayerJoined j] (map internal_packet_encode [ReadyFlag False]) False None,
          lobby j i Client n' t [lobby_player j n' False True False 0 0, lobby_player i n True False False t 1]
            [PlayerJoined i]
            (map internal_packet_encode [ReadyFlag False, PlayerList 2 (i # j # replicate 6 0), AddPlayer n i True])
            False None)"
  using lobby_okD [OF assms]
  by (simp add: run_defs lobby_def lobby_player_def del: drop_players_simps fire_all_ready_simps)

lemma lobby_round_3:
  assumes "lobby_ok i j n n' t"
  shows "pair_round t
      (lobby i j Host n t [lobby_player i n True True False 0 0, lobby_player j n' False False False t 1]
            [PlayerJoined j] (map internal_packet_encode [ReadyFlag False]) False None,
          lobby j i Client n' t [lobby_player j n' False True False 0 0, lobby_player i n True False False t 1]
            [PlayerJoined i]
            (map internal_packet_encode [ReadyFlag False, PlayerList 2 (i # j # replicate 6 0), AddPlayer n i True])
            False None) =
    Some (lobby i j Host n t [lobby_player i n True True False 0 0, lobby_player j n' False False False t 1]
            [PlayerJoined j] [] False None,
          lobby j i Client n' t [lobby_player i n True False False t 0, lobby_player j n' False True False 0 1]
            [PlayerJoined i] [] False None)"
  using lobby_okD [OF assms]
  by (simp add: run_defs lobby_def lobby_player_def del: drop_players_simps fire_all_ready_simps)

lemma lobby_round_4:
  assumes "lobby_ok i j n n' t"
  shows "pair_round t (pair_ready
      (lobby i j Host n t [lobby_player i n True True False 0 0, lobby_player j n' False False False t 1]
            [PlayerJoined j] [] False None,
          lobby j i Client n' t [lobby_player i n True False False t 0, lobby_player j n' False True False 0 1]
            [PlayerJoined i] [] False None)) =
    Some (lobby i j Host n t [lobby_player i n True True True 0 0, lobby_player j n' False False False t 1]
            [PlayerJoined j] (map internal_packet_encode [ReadyFlag True]) False None,
          lobby j i Client n' t [lobby_player i n True False False t 0, lobby_player j n' False True True 0 1]
            [PlayerJoined i] (map internal_packet_encode [ReadyFlag True]) False None)"
  using lobby_okD [OF assms]
  by (simp add: run_defs lobby_def lobby_player_def del: drop_players_simps fire_all_ready_simps)

lemma lobby_round_5:
  assumes "lobby_ok i j n n' t"
  shows "pair_round t
      (lobby i j Host n t [lobby_player i n True True True 0 0, lobby_player j n' False False False t 1]
            [PlayerJoined j] (map internal_packet_encode [ReadyFlag True]) False None,
          lobby j i Client n' t [lobby_player i n True False False t 0, lobby_player j n' False True True 0 1]
            [PlayerJoined i] (map internal_packet_encode [ReadyFlag True]) False None) =
    Some (lobby i j Host n t [lobby_player i n True True True 0 0, lobby_player j n' False False True t 1]
            [PlayerJoined j, ReadyChanged j True, AllReady] [] True None,
          lobby j i Client n' t [lobby_player i n True False True t 0, lobby_player j n' False True True 0 1]
            [PlayerJoined i, ReadyChanged i True, AllReady] [] True None)"
  using lobby_okD [OF assms]
  by (simp add: run_defs lobby_def lobby_player_def del: drop_players_simps fire_all_ready_simps)

lemma lobby_round_6:
  assumes "lobby_ok i j n n' t" "epoch \<noteq> 0" "m = \<lparr>ms_from = i, ms_epoch = epoch, ms_seed = sd\<rparr>"
  shows "pair_round t (pair_start epoch sd
      (lobby i j Host n t [lobby_player i n True True True 0 0, lobby_player j n' False False True t 1]
            [PlayerJoined j, ReadyChanged j True, AllReady] [] True None,
          lobby j i Client n' t [lobby_player i n True False True t 0, lobby_player j n' False True True 0 1]
            [PlayerJoined i, ReadyChanged i True, AllReady] [] True None)) =
    Some (lobby i j Host n t [lobby_player i n True True True 0 0, lobby_player j n' False False True t 1]
            [PlayerJoined j, ReadyChanged j True, AllReady, MatchStarted m] [] True (Some m),
          lobby j i Client n' t [lobby_player i n True False True t 0, lobby_player j n' False True True 0 1]
            [PlayerJoined i, ReadyChanged i True, AllReady] [extension_encode (MatchStart epoch sd)] True None)"
  using lobby_okD [OF assms(1)] assms(2,3)
  by (simp add: run_defs lobby_def lobby_player_def del: drop_players_simps fire_all_ready_simps)

lemma lobby_round_7:
  assumes "lobby_ok i j n n' t" "epoch \<noteq> 0" "m = \<lparr>ms_from = i, ms_epoch = epoch, ms_seed = sd\<rparr>"
  shows "pair_round t
      (lobby i j Host n t [lobby_player i n True True True 0 0, lobby_player j n' False False True t 1]
            [PlayerJoined j, ReadyChanged j True, AllReady, MatchStarted m] [] True (Some m),
          lobby j i Client n' t [lobby_player i n True False True t 0, lobby_player j n' False True True 0 1]
            [PlayerJoined i, ReadyChanged i True, AllReady] [extension_encode (MatchStart epoch sd)] True None) =
    Some (lobby i j Host n t [lobby_player i n True True True 0 0, lobby_player j n' False False True t 1]
            [PlayerJoined j, ReadyChanged j True, AllReady, MatchStarted m] [] True (Some m),
          lobby j i Client n' t [lobby_player i n True False True t 0, lobby_player j n' False True True 0 1]
            [PlayerJoined i, ReadyChanged i True, AllReady, MatchStarted m] [] True (Some m))"
  using lobby_okD [OF assms(1)] assms(2,3)
  by (simp add: run_defs lobby_def lobby_player_def del: drop_players_simps fire_all_ready_simps)

lemma lobby_run_result:
  assumes "lobby_ok i j n n' t" "epoch \<noteq> 0" "m = \<lparr>ms_from = i, ms_epoch = epoch, ms_seed = sd\<rparr>"
  shows "lobby_run t epoch sd (fresh_session i j Host n, fresh_session j i Client n') =
    Some (lobby i j Host n t [lobby_player i n True True True 0 0, lobby_player j n' False False True t 1]
            [PlayerJoined j, ReadyChanged j True, AllReady, MatchStarted m] [] True (Some m),
          lobby j i Client n' t [lobby_player i n True False True t 0, lobby_player j n' False True True 0 1]
            [PlayerJoined i, ReadyChanged i True, AllReady, MatchStarted m] [] True (Some m))"
  unfolding lobby_run_def numeral_2_eq_2 numeral_3_eq_3 pair_rounds.simps
  by (simp only: lobby_round_1 [OF assms(1)] lobby_round_2 [OF assms(1)] lobby_round_3 [OF assms(1)]
      lobby_round_4 [OF assms(1)] lobby_round_5 [OF assms(1)] lobby_round_6 [OF assms] lobby_round_7 [OF assms]
      Option.bind.bind_lunit)

text \<open>
  C8: A match gets started. Whatever the two nonzero ids, the names that fit the packet, the nonzero
  epoch and the seed: from two fresh sessions that know only each other's address the exchange ends,
  no call fails, both rosters list the host and then the client in the same slots, all are ready on
  both sides, and both have the host's match start, each with its \<open>MatchStarted\<close> event at the end.
\<close>

theorem lobby_starts_match:
  assumes "lobby_ok i j n n' now_ms" "epoch \<noteq> 0"
  shows "\<exists>a b. lobby_run now_ms epoch sd (fresh_session i j Host n, fresh_session j i Client n') = Some (a, b) \<and>
    map (\<lambda>p. (pl_unique_id p, pl_name p, pl_is_host p, pl_slot p)) (se_players a) = [(i, n, True, 0), (j, n', False, 1)] \<and>
    map (\<lambda>p. (pl_unique_id p, pl_name p, pl_is_host p, pl_slot p)) (se_players b) = [(i, n, True, 0), (j, n', False, 1)] \<and>
    all_ready a \<and> all_ready b \<and>
    (let m = \<lparr>ms_from = i, ms_epoch = epoch, ms_seed = sd\<rparr> in
       se_announced_match_start a = Some m \<and> se_announced_match_start b = Some m \<and>
       last (se_events a) = MatchStarted m \<and> last (se_events b) = MatchStarted m)"
  using lobby_run_result [OF assms refl]
  by (simp add: lobby_def lobby_player_def all_ready_def Let_def)

theorem lobby_starts_match_witness:
  "\<exists>a b. lobby_run 10 7 9 (fresh_session 101 202 Host [104], fresh_session 202 101 Client [99]) = Some (a, b) \<and>
     map pl_unique_id (se_players b) = [101, 202]"
  using lobby_starts_match [of 101 202 "[104]" "[99]" 10 7 9]
  by (auto simp: lobby_ok_def narrow_ok_def valid_string_def is_scalar_def as_bytes_def utf8_char_def ADD_PLAYER_NAME_LEN_def)




end
