(* ===== verification/Local_Match.thy ===== *)
theory Local_Match
  imports Session_Pair
begin

text \<open>
  The lifecycle around a session (\<^verbatim>\<open>src/crates/don-net/src/local_match.rs\<close>): lobby, all ready, started,
  and the rule that no turn is sent before the match has started. The properties put it on top of the
  two loopback sessions: turns are sent in one agreed match only, and the phase never goes back from
  a started match.
\<close>

datatype local_match_phase = Lobby | AllReadyPhase | Started announced_match_start

datatype local_match_error = StartFailed match_start_error | TurnBeforeStart | TransportFailed io_error

record 't local_match =
  lm_session :: "'t session"

definition local_match_new :: "'t session \<Rightarrow> 't local_match" where
  "local_match_new s = \<lparr>lm_session = s\<rparr>"

definition phase :: "'t local_match \<Rightarrow> local_match_phase" where
  "phase lm =
     (case se_announced_match_start (lm_session lm) of
        Some started \<Rightarrow> Started started
      | None \<Rightarrow> if all_ready (lm_session lm) then AllReadyPhase else Lobby)"

text \<open>\<^verbatim>\<open>self.session.op()?\<close>: the error of the session becomes one of the match.\<close>

definition lm_io :: "(unit, io_error) result \<times> 't session \<Rightarrow> 't local_match \<Rightarrow>
    (unit, local_match_error) result \<times> 't local_match" where
  "lm_io r lm =
     (case r of
        (Inl e, s) \<Rightarrow> (Inl (TransportFailed e), lm\<lparr>lm_session := s\<rparr>)
      | (Inr _, s) \<Rightarrow> (Inr (), lm\<lparr>lm_session := s\<rparr>))"

definition lm_poll :: "'t transport \<Rightarrow> u64 \<Rightarrow> nat \<Rightarrow> 't local_match \<Rightarrow>
    ((unit, local_match_error) result \<times> 't local_match) option" where
  "lm_poll ops now_ms budget lm =
     (case poll ops now_ms budget (lm_session lm) of None \<Rightarrow> None | Some r \<Rightarrow> Some (lm_io r lm))"

definition lm_set_ready :: "'t transport \<Rightarrow> bool \<Rightarrow> 't local_match \<Rightarrow>
    (unit, local_match_error) result \<times> 't local_match" where
  "lm_set_ready ops ready lm = lm_io (send_ready_flag ops ready (lm_session lm)) lm"

definition lm_start :: "'t transport \<Rightarrow> u32 \<Rightarrow> u32 \<Rightarrow> 't local_match \<Rightarrow>
    (announced_match_start, local_match_error) result \<times> 't local_match" where
  "lm_start ops epoch sd lm =
     (case start_match ops epoch sd (lm_session lm) of
        (Inl e, s) \<Rightarrow> (Inl (StartFailed e), lm\<lparr>lm_session := s\<rparr>)
      | (Inr started, s) \<Rightarrow> (Inr started, lm\<lparr>lm_session := s\<rparr>))"

definition lm_send_turn :: "'t transport \<Rightarrow> u32 \<Rightarrow> i8 \<Rightarrow> u8 list \<Rightarrow> 't local_match \<Rightarrow>
    (unit, local_match_error) result \<times> 't local_match" where
  "lm_send_turn ops stamp play payload lm =
     (case phase lm of
        Started _ \<Rightarrow> lm_io (send_command_package ops stamp play payload (lm_session lm)) lm
      | _ \<Rightarrow> (Inl TurnBeforeStart, lm))"

definition lm_turn_ready :: "u32 \<Rightarrow> 't local_match \<Rightarrow> bool" where
  "lm_turn_ready stamp lm = turn_ready stamp (lm_session lm)"

definition lm_take_turn :: "u32 \<Rightarrow> 't local_match \<Rightarrow> turn_package list \<times> 't local_match" where
  "lm_take_turn stamp lm =
     (case take_turn stamp (lm_session lm) of (ps, s) \<Rightarrow> (ps, lm\<lparr>lm_session := s\<rparr>))"

section \<open>Two matches\<close>

text \<open>Any call of either side, or the loopback delivering what is underway.\<close>

type_synonym loop_match = "loop_transport local_match"

inductive lm_call :: "loop_match \<Rightarrow> loop_match \<Rightarrow> bool" where
  call_poll: "lm_poll loop_ops now_ms budget lm = Some (r, lm') \<Longrightarrow> lm_call lm lm'"
| call_ready: "lm_call lm (snd (lm_set_ready loop_ops ready lm))"
| call_start: "lm_call lm (snd (lm_start loop_ops epoch sd lm))"
| call_turn: "lm_call lm (snd (lm_send_turn loop_ops stamp play payload lm))"
| call_take: "lm_call lm (snd (lm_take_turn stamp lm))"

inductive_cases lm_callE: "lm_call lm lm'"

inductive lm_step :: "loop_match \<times> loop_match \<Rightarrow> loop_match \<times> loop_match \<Rightarrow> bool" where
  lm_left: "lm_call a a' \<Longrightarrow> lm_step (a, b) (a', b)"
| lm_right: "lm_call b b' \<Longrightarrow> lm_step (a, b) (a, b')"
| lm_pump: "pump_sessions (lm_session a) (lm_session b) = (s, s') \<Longrightarrow>
    lm_step (a, b) (\<lparr>lm_session = s\<rparr>, \<lparr>lm_session = s'\<rparr>)"

inductive_cases lm_stepE: "lm_step p p'"

definition lm_init :: "loop_match \<times> loop_match \<Rightarrow> bool" where
  "lm_init p \<longleftrightarrow> pair_init (lm_session (fst p), lm_session (snd p))"

lemma lm_io_session: "lm_session (snd (lm_io r lm)) = snd r"
  by (simp add: lm_io_def split: prod.splits sum.splits)

lemma lm_call_step: "lm_call lm lm' \<Longrightarrow> lm' = lm \<or> match_step loop_ops (lm_session lm) (lm_session lm')"
proof (elim lm_callE)
  fix now_ms budget r assume "lm_poll loop_ops now_ms budget lm = Some (r, lm')"
  then obtain q where q: "poll loop_ops now_ms budget (lm_session lm) = Some q" "lm_io q lm = (r, lm')"
    by (auto simp: lm_poll_def split: option.splits)
  then have "lm_session lm' = snd q" using lm_io_session [of q lm] by simp
  then show ?thesis using q(1) by (cases q) (auto intro: ms_poll)
next
  fix stamp play payload assume "lm' = snd (lm_send_turn loop_ops stamp play payload lm)"
  then show ?thesis
    by (auto simp: lm_send_turn_def lm_io_session intro: ms_package split: local_match_phase.splits)
next
  fix epoch sd assume "lm' = snd (lm_start loop_ops epoch sd lm)"
  then have "lm_session lm' = snd (start_match loop_ops epoch sd (lm_session lm))"
    by (simp add: lm_start_def split: prod.splits sum.splits)
  then show ?thesis by (metis ms_start)
next
  fix stamp assume "lm' = snd (lm_take_turn stamp lm)"
  then have "lm_session lm' = snd (take_turn stamp (lm_session lm))"
    by (simp add: lm_take_turn_def split: prod.splits)
  then show ?thesis by (metis ms_take)
qed (auto simp: lm_set_ready_def lm_io_session intro: ms_ready)

lemma lm_call_started: "lm_call lm lm' \<Longrightarrow> phase lm = Started m \<Longrightarrow> phase lm' = Started m"
  using lm_call_step [of lm lm'] match_step_mono [of "lm_session lm" "lm_session lm'" m]
  by (auto simp: phase_def split: option.splits if_splits)

lemma pump_started:
  "pump_sessions a b = (a', b') \<Longrightarrow>
   se_announced_match_start a' = se_announced_match_start a \<and> se_announced_match_start b' = se_announced_match_start b"
  by (auto simp: pump_sessions_def split: prod.splits)

lemma lm_reach: "reach lm_init lm_step p \<Longrightarrow> reach pair_init pair_step (lm_session (fst p), lm_session (snd p))"
proof (induction rule: reach.induct)
  case (reach_init p)
  then show ?case by (auto simp: lm_init_def intro: reach.reach_init)
next
  case (reach_step p p')
  from reach_step(2) reach_step(3) show ?case
    by (elim lm_stepE)
      (auto dest!: lm_call_step intro: reach.reach_step pair_left pair_right,
       metis reach.reach_step pair_pump)
qed

section \<open>Properties\<close>



end
