(* ===== verification/Coach_Model.thy ===== *)
theory Coach_Model
  imports Rust_Text "HOL-Library.Signed_Division" "HOL-Library.Product_Lexorder"
begin

text \<open>
  The data of the coaching engine, \<^verbatim>\<open>src/crates/rontoy-core/src/model.rs\<close>: telemetry snapshots with their
  provenance, advice cards and events. The enums that key ordered maps get the order the source
  derives, by declaration order.
\<close>

section \<open>Signed 64-bit arithmetic\<close>

text \<open>An \<^verbatim>\<open>i64\<close> is its bit pattern, read by \<^const>\<open>sint\<close>; a cast from an unsigned type is \<^const>\<open>ucast\<close>.\<close>

type_synonym i64 = "64 word"

definition i64_clamp :: "int \<Rightarrow> i64" where
  "i64_clamp x = word_of_int (max (- (2 ^ 63)) (min (2 ^ 63 - 1) x))"

definition i64_saturating_add :: "i64 \<Rightarrow> i64 \<Rightarrow> i64" where
  "i64_saturating_add a b = i64_clamp (sint a + sint b)"

definition i64_saturating_mul :: "i64 \<Rightarrow> i64 \<Rightarrow> i64" where
  "i64_saturating_mul a b = i64_clamp (sint a * sint b)"

definition i64_max :: "i64 \<Rightarrow> i64 \<Rightarrow> i64" where
  "i64_max a b = (if sint a \<le> sint b then b else a)"

text \<open>Division truncates toward zero.\<close>

definition i64_div :: "i64 \<Rightarrow> i64 \<Rightarrow> i64" where
  "i64_div a b = word_of_int (sint a sdiv sint b)"

definition saturating_mul :: "'a::len word \<Rightarrow> 'a word \<Rightarrow> 'a word" where
  "saturating_mul a b = (if unat a * unat b < 2 ^ LENGTH('a) then a * b else - 1)"

definition checked_div :: "'a::len word \<Rightarrow> 'a word \<Rightarrow> 'a word option" where
  "checked_div a b = (if b = 0 then None else Some (a div b))"

lemma sint_i64_clamp: "sint (i64_clamp x) = max (- (2 ^ 63)) (min (2 ^ 63 - 1) x)"
  unfolding i64_clamp_def sint_sbintrunc' by (rule signed_take_bit_int_eq_self) auto

section \<open>Resources\<close>

definition SNAPSHOT_SCHEMA_VERSION :: u16 where "SNAPSHOT_SCHEMA_VERSION = 1"

datatype resource = Food | Timber | Wealth | Knowledge | Metal | Oil

definition ALL_RESOURCES :: "resource list" where
  "ALL_RESOURCES = [Food, Timber, Wealth, Knowledge, Metal, Oil]"

fun resource_index :: "resource \<Rightarrow> nat" where
  "resource_index Food = 0"
| "resource_index Timber = 1"
| "resource_index Wealth = 2"
| "resource_index Knowledge = 3"
| "resource_index Metal = 4"
| "resource_index Oil = 5"

fun resource_label :: "resource \<Rightarrow> string" where
  "resource_label Food = ''food''"
| "resource_label Timber = ''timber''"
| "resource_label Wealth = ''wealth''"
| "resource_label Knowledge = ''knowledge''"
| "resource_label Metal = ''metal''"
| "resource_label Oil = ''oil''"

lemma set_ALL_RESOURCES [simp]: "r \<in> set ALL_RESOURCES"
  by (cases r) (simp_all add: ALL_RESOURCES_def)

text \<open>The arrays of six entries are indexed by the enum only, so they are functions of it.\<close>

type_synonym resource_vector = "resource \<Rightarrow> i64"
type_synonym resource_workers = "resource \<Rightarrow> u16"
type_synonym commerce_status = "resource \<Rightarrow> u8"

definition ZERO_RESOURCES :: resource_vector where "ZERO_RESOURCES = (\<lambda>_. 0)"

definition from_whole :: "resource_vector \<Rightarrow> resource_vector" where
  "from_whole values = (\<lambda>r. i64_saturating_mul (values r) 1000)"

definition set_resource :: "resource \<Rightarrow> i64 \<Rightarrow> resource_vector \<Rightarrow> resource_vector" where
  "set_resource r v values = values(r := v)"

definition can_afford :: "resource_vector \<Rightarrow> resource_vector \<Rightarrow> bool" where
  "can_afford stock cost = list_all (\<lambda>r. sint (cost r) \<le> sint (stock r)) ALL_RESOURCES"

section \<open>Provenance\<close>

text \<open>A score of 0 to 1000; the constructor of the source clamps, and the field is private.\<close>

datatype confidence = Confidence (permille: u16)

definition CONFIDENCE_NONE :: confidence where "CONFIDENCE_NONE = Confidence 0"
definition CONFIDENCE_MAX :: confidence where "CONFIDENCE_MAX = Confidence 1000"

definition confidence_new :: "u16 \<Rightarrow> confidence" where
  "confidence_new p = Confidence (if 1000 < p then 1000 else p)"

definition confidence_min :: "confidence \<Rightarrow> confidence \<Rightarrow> confidence" where
  "confidence_min a b = (if permille a \<le> permille b then a else b)"

datatype telemetry_source = ProcessMemory | Replay | Simulation | Manual

record field_provenance =
  fp_source :: telemetry_source
  fp_transport_confidence :: confidence
  fp_semantic_confidence :: confidence
  fp_age_ms :: u64

definition provenance_direct :: "telemetry_source \<Rightarrow> field_provenance" where
  "provenance_direct source =
     \<lparr>fp_source = source, fp_transport_confidence = CONFIDENCE_MAX,
      fp_semantic_confidence = confidence_new 900, fp_age_ms = 0\<rparr>"

definition provenance_overall :: "field_provenance \<Rightarrow> confidence" where
  "provenance_overall p = confidence_min (fp_transport_confidence p) (fp_semantic_confidence p)"

record 'a observed =
  ob_value :: 'a
  ob_provenance :: field_provenance

section \<open>Snapshots\<close>

datatype snapshot_completeness = Complete | Partial
datatype human_identity = Confirmed | Ambiguous | NonHumanIdentity
datatype game_mode = SinglePlayer | MultiplayerMode | UnknownMode

record snapshot_meta =
  sm_schema_version :: u16
  sm_match_id :: u64
  sm_sample_sequence :: u64
  sm_game_tick :: u64
  sm_captured_at_ms :: u64
  sm_analyzed_at_ms :: u64
  sm_paused :: bool
  sm_coherent :: bool
  sm_completeness :: snapshot_completeness
  sm_identity :: human_identity
  sm_game_mode :: game_mode

record economy_telemetry =
  et_stock :: resource_vector
  et_income_per_minute :: resource_vector
  et_planned_unpaid_cost :: resource_vector
  et_commerce_cap :: resource_vector
  et_commerce_status :: commerce_status

record population_telemetry =
  po_used :: u32
  po_cap :: u32
  po_paid_queue_population :: u32
  po_blocked_paid_population :: u32
  po_next_paid_completion_ms :: "u64 option"
  po_incoming_capacity :: u32
  po_incoming_capacity_eta_ms :: "u64 option"

record rebalance_opportunity =
  ro_from :: resource
  ro_to :: resource
  ro_workers :: u16
  ro_destination_free_slots :: u16
  ro_path_feasible :: bool
  ro_marginal_gain_milli_per_minute :: i64
  ro_commerce_headroom_milli :: i64

record labor_telemetry =
  la_citizens :: u32
  la_idle_citizens :: u32
  la_idle_for_ms :: u64
  la_assigned :: resource_workers
  la_free_gather_slots :: resource_workers
  la_rebalance :: "rebalance_opportunity option"

datatype production_class = CitizenClass | LandMilitary | Air | Naval | Research | OtherClass

fun production_label :: "production_class \<Rightarrow> string" where
  "production_label CitizenClass = ''Citizen production''"
| "production_label LandMilitary = ''land production''"
| "production_label Air = ''air production''"
| "production_label Naval = ''naval production''"
| "production_label Research = ''research''"
| "production_label OtherClass = ''production''"

record production_site =
  ps_stable_id :: u32
  ps_class :: production_class
  ps_enabled :: bool
  ps_expected_active :: bool
  ps_queue_len :: u16
  ps_idle_for_ms :: u64
  ps_affordable_option_observed :: bool

record production_telemetry =
  pr_sites :: "production_site list"

datatype opportunity_kind = Age | EconomyTech | MilitaryTech

record progression_opportunity =
  op_stable_id :: u32
  op_name :: rust_string
  op_kind :: opportunity_kind
  op_cost :: resource_vector
  op_tracked_goal :: bool
  op_already_queued :: bool

record progression_telemetry =
  pg_current_age :: u8
  pg_opportunities :: "progression_opportunity list"

datatype enemy_visibility = DirectlyVisible | Remembered | UnknownVisibility

record pressure_telemetry =
  px_under_attack :: bool
  px_own_local_strength :: u32
  px_observed_enemy_local_strength :: u32
  px_enemy_observation_age_ms :: u64
  px_enemy_visibility :: enemy_visibility
  px_recent_economy_spend_permille :: u16

record telemetry_snapshot =
  ts_meta :: snapshot_meta
  ts_economy :: "economy_telemetry observed option"
  ts_population :: "population_telemetry observed option"
  ts_labor :: "labor_telemetry observed option"
  ts_production :: "production_telemetry observed option"
  ts_progression :: "progression_telemetry observed option"
  ts_pressure :: "pressure_telemetry observed option"

section \<open>Advice\<close>

datatype advice_category = Economy | Population | Labor | Production | Progression | Pressure

datatype severity = Info | Notice | Warning | Critical

fun severity_rank :: "severity \<Rightarrow> nat" where
  "severity_rank Info = 0"
| "severity_rank Notice = 1"
| "severity_rank Warning = 2"
| "severity_rank Critical = 3"

lemma severity_rank_eq [simp]: "severity_rank a = severity_rank b \<longleftrightarrow> a = b"
  by (cases a; cases b) simp_all

instantiation severity :: linorder
begin

definition less_eq_severity :: "severity \<Rightarrow> severity \<Rightarrow> bool" where
  "less_eq_severity a b \<longleftrightarrow> severity_rank a \<le> severity_rank b"

definition less_severity :: "severity \<Rightarrow> severity \<Rightarrow> bool" where
  "less_severity a b \<longleftrightarrow> severity_rank a < severity_rank b"

instance
  by standard (auto simp: less_eq_severity_def less_severity_def)

end

datatype advice_key =
    ResourceBottleneck resource
  | CommerceCap resource
  | PopulationBlock
  | IdleCitizens
  | LaborRebalance resource resource
  | IdleProduction u32
  | ProgressionAffordable u32
  | LocalMilitaryPressure
  | EconomyUnderPressure

text \<open>The derived order: first the variant, then its fields.\<close>

fun advice_key_rank :: "advice_key \<Rightarrow> nat \<times> nat \<times> nat" where
  "advice_key_rank (ResourceBottleneck r) = (0, resource_index r, 0)"
| "advice_key_rank (CommerceCap r) = (1, resource_index r, 0)"
| "advice_key_rank PopulationBlock = (2, 0, 0)"
| "advice_key_rank IdleCitizens = (3, 0, 0)"
| "advice_key_rank (LaborRebalance a b) = (4, resource_index a, resource_index b)"
| "advice_key_rank (IdleProduction i) = (5, unat i, 0)"
| "advice_key_rank (ProgressionAffordable i) = (6, unat i, 0)"
| "advice_key_rank LocalMilitaryPressure = (7, 0, 0)"
| "advice_key_rank EconomyUnderPressure = (8, 0, 0)"

lemma resource_index_eq [simp]: "resource_index a = resource_index b \<longleftrightarrow> a = b"
  by (cases a; cases b) simp_all

lemma advice_key_rank_eq [simp]: "advice_key_rank a = advice_key_rank b \<longleftrightarrow> a = b"
  by (cases a; cases b) (auto dest: unsigned_word_eqI)

instantiation advice_key :: linorder
begin

definition less_eq_advice_key :: "advice_key \<Rightarrow> advice_key \<Rightarrow> bool" where
  "less_eq_advice_key a b \<longleftrightarrow> advice_key_rank a \<le> advice_key_rank b"

definition less_advice_key :: "advice_key \<Rightarrow> advice_key \<Rightarrow> bool" where
  "less_advice_key a b \<longleftrightarrow> advice_key_rank a < advice_key_rank b"

instance
proof
  fix a b :: advice_key
  show "a \<le> b \<Longrightarrow> b \<le> a \<Longrightarrow> a = b"
    unfolding less_eq_advice_key_def using antisym advice_key_rank_eq by blast
qed (auto simp: less_eq_advice_key_def less_advice_key_def less_le_not_le)

end

fun display_advice_key :: "advice_key \<Rightarrow> string" where
  "display_advice_key (ResourceBottleneck r) = ''economy.bottleneck.'' @ resource_label r"
| "display_advice_key (CommerceCap r) = ''economy.commerce-cap.'' @ resource_label r"
| "display_advice_key PopulationBlock = ''population.paid-queue-block''"
| "display_advice_key IdleCitizens = ''labor.idle-citizens''"
| "display_advice_key (LaborRebalance a b) = ''labor.rebalance.'' @ resource_label a @ ''-to-'' @ resource_label b"
| "display_advice_key (IdleProduction i) = ''production.idle.'' @ show_nat (unat i)"
| "display_advice_key (ProgressionAffordable i) = ''progression.affordable.'' @ show_nat (unat i)"
| "display_advice_key LocalMilitaryPressure = ''pressure.local-military''"
| "display_advice_key EconomyUnderPressure = ''pressure.economy-exposure''"

record advice_evidence =
  ae_input :: string
  ae_observed :: i64
  ae_threshold :: "i64 option"
  ae_unit :: string
  ae_provenance :: field_provenance

record rule_ref =
  rr_id :: string
  rr_version :: u16

record confidence_breakdown =
  cb_transport :: confidence
  cb_semantic :: confidence
  cb_inference :: confidence

definition breakdown_overall :: "confidence_breakdown \<Rightarrow> confidence" where
  "breakdown_overall b = confidence_min (confidence_min (cb_transport b) (cb_semantic b)) (cb_inference b)"

record advice_card =
  ac_rule :: rule_ref
  ac_key :: advice_key
  ac_category :: advice_category
  ac_severity :: severity
  ac_confidence :: confidence
  ac_confidence_breakdown :: confidence_breakdown
  ac_evidence :: "advice_evidence list"
  ac_message :: rust_string
  ac_created_at_ms :: u64
  ac_updated_at_ms :: u64
  ac_expires_at_ms :: u64
  ac_cooldown_ms :: u64

datatype suppression_reason =
    UnsupportedSchema | PartialSnapshot | IncoherentSnapshot | AmbiguousIdentity | NonHuman
  | UnknownGameMode | Multiplayer | Paused | StaleSnapshot | InvalidValues | TimeWentBackwards
  | SampleWentBackwards

datatype retraction_reason = Resolved | Expired | DataQuality suppression_reason | MatchChanged

datatype advice_event =
    Raised advice_card
  | Updated advice_card
  | Retracted advice_key retraction_reason

record advice_batch =
  ab_active :: "advice_card list"
  ab_events :: "advice_event list"
  ab_suppressed :: "suppression_reason option"

end
