(* ===== verification/Coach_Engine.thy ===== *)
theory Coach_Engine
  imports Coach_Model
begin

text \<open>
  The coaching engine, \<^verbatim>\<open>src/crates/rontoy-core/src/engine.rs\<close>: the gate on data quality, the rules that
  propose advice, and the lifecycle that raises, updates and retracts advice cards. The engine reads
  time only from the snapshots.
\<close>

section \<open>State\<close>

record coach_config =
  cc_max_snapshot_age_ms :: u64
  cc_max_field_age_ms :: u64
  cc_sustain_ms :: u64
  cc_resolve_hysteresis_ms :: u64
  cc_advice_ttl_ms :: u64
  cc_per_key_cooldown_ms :: u64
  cc_update_cooldown_ms :: u64
  cc_global_raise_interval_ms :: u64
  cc_planning_horizon_ms :: u64
  cc_idle_citizen_threshold :: u32
  cc_idle_citizen_ms :: u64
  cc_idle_production_ms :: u64
  cc_pressure_ratio_permille :: u32
  cc_economy_exposure_permille :: u16
  cc_minimum_confidence :: confidence
  cc_enable_pressure_advice :: bool

definition default_config :: coach_config where
  "default_config =
     \<lparr>cc_max_snapshot_age_ms = 2000, cc_max_field_age_ms = 8000, cc_sustain_ms = 2000,
      cc_resolve_hysteresis_ms = 3000, cc_advice_ttl_ms = 12000, cc_per_key_cooldown_ms = 30000,
      cc_update_cooldown_ms = 5000, cc_global_raise_interval_ms = 20000, cc_planning_horizon_ms = 90000,
      cc_idle_citizen_threshold = 2, cc_idle_citizen_ms = 5000, cc_idle_production_ms = 8000,
      cc_pressure_ratio_permille = 1250, cc_economy_exposure_permille = 650,
      cc_minimum_confidence = confidence_new 700, cc_enable_pressure_advice = False\<rparr>"

record candidate =
  ca_rule :: rule_ref
  ca_key :: advice_key
  ca_category :: advice_category
  ca_severity :: severity
  ca_confidence :: confidence
  ca_confidence_breakdown :: confidence_breakdown
  ca_evidence :: "advice_evidence list"
  ca_message :: rust_string

record pending =
  first_seen_ms :: u64

record missing_entry =
  first_missing_ms :: u64

record advice_engine =
  en_config :: coach_config
  en_match_id :: "u64 option"
  en_last_sequence :: "u64 option"
  en_last_game_tick :: "u64 option"
  en_last_analyzed_ms :: "u64 option"
  en_last_global_raise_ms :: "u64 option"
  en_pending :: "(advice_key, pending) btree"
  en_missing :: "(advice_key, missing_entry) btree"
  en_active :: "(advice_key, advice_card) btree"
  en_last_emitted :: "(advice_key, u64 \<times> severity) btree"

definition engine_new :: "coach_config \<Rightarrow> advice_engine" where
  "engine_new config =
     \<lparr>en_config = config, en_match_id = None, en_last_sequence = None, en_last_game_tick = None,
      en_last_analyzed_ms = None, en_last_global_raise_ms = None, en_pending = [], en_missing = [],
      en_active = [], en_last_emitted = []\<rparr>"

definition engine_reset :: "advice_engine \<Rightarrow> advice_engine" where
  "engine_reset e = engine_new (en_config e)"

section \<open>Rules\<close>

definition evidence ::
    "string \<Rightarrow> i64 \<Rightarrow> i64 option \<Rightarrow> string \<Rightarrow> field_provenance \<Rightarrow> advice_evidence" where
  "evidence input obs threshold unt prov =
     \<lparr>ae_input = input, ae_observed = obs, ae_threshold = threshold, ae_unit = unt, ae_provenance = prov\<rparr>"

definition confidence_breakdown_of :: "field_provenance \<Rightarrow> u16 \<Rightarrow> confidence_breakdown" where
  "confidence_breakdown_of prov inference =
     \<lparr>cb_transport = fp_transport_confidence prov, cb_semantic = fp_semantic_confidence prov,
      cb_inference = confidence_new inference\<rparr>"

definition confidence_of :: "field_provenance \<Rightarrow> u16 \<Rightarrow> confidence" where
  "confidence_of prov inference = breakdown_overall (confidence_breakdown_of prov inference)"

text \<open>\<^verbatim>\<open>title\<close> is only applied to resource labels, which are ASCII.\<close>

definition ascii_upper :: "char \<Rightarrow> char" where
  "ascii_upper c = (if of_char CHR ''a'' \<le> (of_char c :: nat) \<and> of_char c \<le> (of_char CHR ''z'' :: nat)
     then char_of ((of_char c :: nat) - 32) else c)"

fun title :: "string \<Rightarrow> string" where
  "title [] = []"
| "title (c # cs) = ascii_upper c # cs"

definition commerce_candidate :: "field_provenance \<Rightarrow> resource \<Rightarrow> u8 \<Rightarrow> candidate" where
  "commerce_candidate prov r st =
     \<lparr>ca_rule = \<lparr>rr_id = ''economy.commerce_status'', rr_version = 1\<rparr>,
      ca_key = CommerceCap r, ca_category = Economy, ca_severity = Notice,
      ca_confidence = confidence_of prov 900, ca_confidence_breakdown = confidence_breakdown_of prov 900,
      ca_evidence = [evidence ''commerce_over_cap'' (ucast st) (Some 0) ''raw-status'' prov],
      ca_message = to_rust_string (title (resource_label r) @ '' commerce status is '' @ show_nat (unat st) @
        '' (nonzero); additional gatherers may not increase displayed income until Commerce or its cap rises.'')\<rparr>"

definition projected_stock :: "coach_config \<Rightarrow> economy_telemetry \<Rightarrow> resource \<Rightarrow> i64" where
  "projected_stock cfg d r =
     i64_saturating_add (et_stock d r)
       (i64_div (i64_saturating_mul (i64_max (et_income_per_minute d r) 0) (cc_planning_horizon_ms cfg)) 60000)"

definition shortfall_candidate :: "field_provenance \<Rightarrow> resource \<Rightarrow> i64 \<Rightarrow> i64 \<Rightarrow> i64 \<Rightarrow> i64 \<Rightarrow> candidate" where
  "shortfall_candidate prov r stock income committed projected =
     \<lparr>ca_rule = \<lparr>rr_id = ''economy.planned_shortfall'', rr_version = 1\<rparr>,
      ca_key = ResourceBottleneck r, ca_category = Economy,
      ca_severity = (if sint (i64_div committed 2) < sint (committed - projected) then Warning else Notice),
      ca_confidence = confidence_of prov 850, ca_confidence_breakdown = confidence_breakdown_of prov 850,
      ca_evidence =
        [evidence ''stock'' stock None ''milli-resource'' prov,
         evidence ''income_per_minute'' income None ''milli-resource/min'' prov,
         evidence ''planned_unpaid_cost'' committed (Some projected) ''milli-resource'' prov],
      ca_message = to_rust_string (''Tracked spending has an approximate '' @ resource_label r @
        '' shortfall under fixed income and no other spending.'')\<rparr>"

definition economy_candidates_for :: "coach_config \<Rightarrow> economy_telemetry observed \<Rightarrow> resource \<Rightarrow> candidate list" where
  "economy_candidates_for cfg ob r =
     (let d = ob_value ob; prov = ob_provenance ob; st = et_commerce_status d r;
          projected = projected_stock cfg d r; committed = et_planned_unpaid_cost d r
      in (if st \<noteq> 0 then [commerce_candidate prov r st] else []) @
         (if sint projected < sint committed
          then [shortfall_candidate prov r (et_stock d r) (i64_max (et_income_per_minute d r) 0) committed projected]
          else []))"

definition economy_candidates :: "coach_config \<Rightarrow> economy_telemetry observed \<Rightarrow> candidate list" where
  "economy_candidates cfg ob = concat (map (economy_candidates_for cfg ob) ALL_RESOURCES)"

definition population_available :: "population_telemetry \<Rightarrow> u32" where
  "population_available d =
     saturating_sub (saturating_add (po_cap d) (po_incoming_capacity d)) (po_used d)"

definition capacity_is_timely :: "population_telemetry \<Rightarrow> bool" where
  "capacity_is_timely d =
     (case (po_next_paid_completion_ms d, po_incoming_capacity_eta_ms d) of
        (Some queue_eta, Some cap_eta) \<Rightarrow> cap_eta \<le> queue_eta
      | _ \<Rightarrow> False)"

definition population_candidates :: "population_telemetry observed \<Rightarrow> candidate list" where
  "population_candidates ob =
     (let d = ob_value ob; prov = ob_provenance ob; available = population_available d;
          projected_block = available < po_paid_queue_population d \<and> \<not> capacity_is_timely d
      in if 0 < po_blocked_paid_population d \<or> projected_block then
           [\<lparr>ca_rule = \<lparr>rr_id = ''population.paid_queue_block'', rr_version = 1\<rparr>,
             ca_key = PopulationBlock, ca_category = Population,
             ca_severity = (if 0 < po_blocked_paid_population d then Warning else Notice),
             ca_confidence = confidence_of prov 950, ca_confidence_breakdown = confidence_breakdown_of prov 950,
             ca_evidence =
               [evidence ''population_used'' (ucast (po_used d)) (Some (ucast (po_cap d))) ''pop'' prov,
                evidence ''paid_queue_population'' (ucast (po_paid_queue_population d)) (Some (ucast available)) ''pop'' prov,
                evidence ''blocked_paid_population'' (ucast (po_blocked_paid_population d)) (Some 0) ''pop'' prov],
             ca_message = to_rust_string
               ''An already-paid queue is blocked or projected to block on population capacity.''\<rparr>]
         else [])"

definition total_free_slots :: "labor_telemetry \<Rightarrow> u32" where
  "total_free_slots d = sum_list (map (\<lambda>r. ucast (la_free_gather_slots d r)) ALL_RESOURCES)"

definition idle_candidate :: "coach_config \<Rightarrow> labor_telemetry observed \<Rightarrow> candidate list" where
  "idle_candidate cfg ob =
     (let d = ob_value ob; prov = ob_provenance ob; total_free = total_free_slots d
      in if cc_idle_citizen_threshold cfg \<le> la_idle_citizens d \<and> cc_idle_citizen_ms cfg \<le> la_idle_for_ms d
             \<and> 0 < total_free then
           [\<lparr>ca_rule = \<lparr>rr_id = ''labor.sustained_idle'', rr_version = 1\<rparr>,
             ca_key = IdleCitizens, ca_category = Labor,
             ca_severity = (if max (la_citizens d) 1 \<le> saturating_mul (la_idle_citizens d) 10 then Warning else Notice),
             ca_confidence = confidence_of prov 950, ca_confidence_breakdown = confidence_breakdown_of prov 950,
             ca_evidence =
               [evidence ''idle_citizens'' (ucast (la_idle_citizens d)) (Some (ucast (cc_idle_citizen_threshold cfg))) ''citizens'' prov,
                evidence ''idle_duration'' (la_idle_for_ms d) (Some (cc_idle_citizen_ms cfg)) ''ms'' prov,
                evidence ''valid_free_gather_slots'' (ucast total_free) (Some 1) ''slots'' prov],
             ca_message = to_rust_string (show_nat (unat (la_idle_citizens d)) @ '' Citizens have been idle; '' @
               show_nat (unat total_free) @ '' validated gather slots are free.'')\<rparr>]
         else [])"

definition rebalance_candidate :: "labor_telemetry observed \<Rightarrow> candidate list" where
  "rebalance_candidate ob =
     (let prov = ob_provenance ob in
      case la_rebalance (ob_value ob) of
        None \<Rightarrow> []
      | Some b \<Rightarrow>
          if 0 < ro_workers b \<and> ro_workers b \<le> ro_destination_free_slots b \<and> ro_path_feasible b
             \<and> 0 < sint (ro_marginal_gain_milli_per_minute b) \<and> 0 < sint (ro_commerce_headroom_milli b) then
            [\<lparr>ca_rule = \<lparr>rr_id = ''labor.rebalance_model'', rr_version = 1\<rparr>,
              ca_key = LaborRebalance (ro_from b) (ro_to b), ca_category = Labor, ca_severity = Notice,
              ca_confidence = confidence_of prov 800, ca_confidence_breakdown = confidence_breakdown_of prov 800,
              ca_evidence =
                [evidence ''workers'' (ucast (ro_workers b)) None ''citizens'' prov,
                 evidence ''destination_free_slots'' (ucast (ro_destination_free_slots b)) (Some (ucast (ro_workers b))) ''slots'' prov,
                 evidence ''modeled_marginal_gain'' (ro_marginal_gain_milli_per_minute b) (Some 1) ''milli-resource/min'' prov,
                 evidence ''commerce_headroom'' (ro_commerce_headroom_milli b) (Some 1) ''milli-resource'' prov],
              ca_message = to_rust_string (''A model estimates a gain from moving '' @ show_nat (unat (ro_workers b)) @
                '' workers from '' @ resource_label (ro_from b) @ '' to '' @ resource_label (ro_to b) @
                ''; path and capacity checks passed.'')\<rparr>]
          else [])"

definition labor_candidates :: "coach_config \<Rightarrow> labor_telemetry observed \<Rightarrow> candidate list" where
  "labor_candidates cfg ob = idle_candidate cfg ob @ rebalance_candidate ob"

definition site_candidate :: "coach_config \<Rightarrow> field_provenance \<Rightarrow> production_site \<Rightarrow> candidate list" where
  "site_candidate cfg prov site =
     (if ps_enabled site \<and> ps_expected_active site \<and> ps_queue_len site = 0
         \<and> cc_idle_production_ms cfg \<le> ps_idle_for_ms site \<and> ps_affordable_option_observed site then
        [\<lparr>ca_rule = \<lparr>rr_id = ''production.expected_idle'', rr_version = 1\<rparr>,
          ca_key = IdleProduction (ps_stable_id site), ca_category = Production, ca_severity = Notice,
          ca_confidence = confidence_of prov 900, ca_confidence_breakdown = confidence_breakdown_of prov 900,
          ca_evidence =
            [evidence ''queue_length'' 0 (Some 1) ''orders'' prov,
             evidence ''idle_duration'' (ps_idle_for_ms site) (Some (cc_idle_production_ms cfg)) ''ms'' prov,
             evidence ''affordable_option_observed'' 1 (Some 1) ''bool'' prov],
          ca_message = to_rust_string (''Tracked '' @ production_label (ps_class site) @
            '' is idle with an empty queue and an affordable option.'')\<rparr>]
      else [])"

definition production_candidates :: "coach_config \<Rightarrow> production_telemetry observed \<Rightarrow> candidate list" where
  "production_candidates cfg ob = concat (map (site_candidate cfg (ob_provenance ob)) (pr_sites (ob_value ob)))"

definition progression_breakdown :: "field_provenance \<Rightarrow> field_provenance \<Rightarrow> confidence_breakdown" where
  "progression_breakdown e p =
     \<lparr>cb_transport = confidence_min (fp_transport_confidence e) (fp_transport_confidence p),
      cb_semantic = confidence_min (fp_semantic_confidence e) (fp_semantic_confidence p),
      cb_inference = confidence_new 900\<rparr>"

definition opportunity_candidate ::
    "economy_telemetry observed \<Rightarrow> field_provenance \<Rightarrow> progression_opportunity \<Rightarrow> candidate list" where
  "opportunity_candidate economy prov p =
     (let breakdown = progression_breakdown (ob_provenance economy) prov
      in if op_tracked_goal p \<and> \<not> op_already_queued p \<and> can_afford (et_stock (ob_value economy)) (op_cost p) then
           [\<lparr>ca_rule = \<lparr>rr_id = ''progression.tracked_affordable'', rr_version = 1\<rparr>,
             ca_key = ProgressionAffordable (op_stable_id p), ca_category = Progression, ca_severity = Info,
             ca_confidence = breakdown_overall breakdown, ca_confidence_breakdown = breakdown,
             ca_evidence = [evidence ''tracked_goal_affordable'' 1 (Some 1) ''bool'' prov],
             ca_message = to_rust_string (''Tracked goal '' @ [CHR 0x27]) @ op_name p @ to_rust_string ([CHR 0x27] @ '' is now affordable.'')\<rparr>]
         else [])"

definition progression_candidates ::
    "economy_telemetry observed \<Rightarrow> progression_telemetry observed \<Rightarrow> candidate list" where
  "progression_candidates economy progression =
     concat (map (opportunity_candidate economy (ob_provenance progression)) (pg_opportunities (ob_value progression)))"

definition pressure_ratio :: "pressure_telemetry \<Rightarrow> u32" where
  "pressure_ratio d =
     (case checked_div (saturating_mul (px_observed_enemy_local_strength d) 1000) (px_own_local_strength d) of
        Some q \<Rightarrow> q
      | None \<Rightarrow> if 0 < px_observed_enemy_local_strength d then - 1 else 0)"

definition pressure_candidates :: "coach_config \<Rightarrow> pressure_telemetry observed \<Rightarrow> candidate list" where
  "pressure_candidates cfg ob =
     (let d = ob_value ob; prov = ob_provenance ob; ratio = pressure_ratio d
      in if px_under_attack d \<and> px_enemy_visibility d = DirectlyVisible
            \<and> px_enemy_observation_age_ms d \<le> cc_max_field_age_ms cfg \<and> cc_pressure_ratio_permille cfg \<le> ratio then
           [\<lparr>ca_rule = \<lparr>rr_id = ''pressure.visible_local_ratio'', rr_version = 1\<rparr>,
             ca_key = LocalMilitaryPressure, ca_category = Pressure,
             ca_severity = (if 2000 \<le> ratio then Critical else Warning),
             ca_confidence = confidence_of prov 800, ca_confidence_breakdown = confidence_breakdown_of prov 800,
             ca_evidence =
               [evidence ''under_attack'' 1 (Some 1) ''bool'' prov,
                evidence ''enemy_to_own_strength'' (ucast ratio) (Some (ucast (cc_pressure_ratio_permille cfg))) ''permille'' prov],
             ca_message = to_rust_string
               ''Observed local enemy strength exceeds nearby friendly strength during an active attack.''\<rparr>] @
           (if cc_economy_exposure_permille cfg \<le> px_recent_economy_spend_permille d then
              [\<lparr>ca_rule = \<lparr>rr_id = ''pressure.economy_exposure'', rr_version = 1\<rparr>,
                ca_key = EconomyUnderPressure, ca_category = Pressure, ca_severity = Warning,
                ca_confidence = confidence_of prov 750, ca_confidence_breakdown = confidence_breakdown_of prov 750,
                ca_evidence =
                  [evidence ''recent_economy_spend'' (ucast (px_recent_economy_spend_permille d))
                     (Some (ucast (cc_economy_exposure_permille cfg))) ''permille'' prov,
                   evidence ''enemy_to_own_strength'' (ucast ratio) (Some (ucast (cc_pressure_ratio_permille cfg))) ''permille'' prov],
                ca_message = to_rust_string
                  ''Recent spending is economy-heavy while local military pressure is high.''\<rparr>]
            else [])
         else [])"

section \<open>Optional inputs\<close>

datatype optional_state = Fresh | Missing | Stale

definition optional_state_of :: "'a observed option \<Rightarrow> u64 \<Rightarrow> coach_config \<Rightarrow> optional_state" where
  "optional_state_of v delay cfg =
     (case v of
        None \<Rightarrow> Missing
      | Some x \<Rightarrow>
          if cc_max_field_age_ms cfg < saturating_add (fp_age_ms (ob_provenance x)) delay then Stale else Fresh)"

definition fresh_optional :: "'a observed option \<Rightarrow> u64 \<Rightarrow> coach_config \<Rightarrow> 'a observed option" where
  "fresh_optional v delay cfg = (if optional_state_of v delay cfg = Fresh then v else None)"

definition transport_delay :: "telemetry_snapshot \<Rightarrow> u64" where
  "transport_delay s = saturating_sub (sm_analyzed_at_ms (ts_meta s)) (sm_captured_at_ms (ts_meta s))"

definition candidates :: "coach_config \<Rightarrow> telemetry_snapshot \<Rightarrow> candidate list" where
  "candidates cfg s =
     (let delay = transport_delay s in
      filter (\<lambda>c. permille (cc_minimum_confidence cfg) \<le> permille (ca_confidence c))
        ((case ts_economy s of Some ob \<Rightarrow> economy_candidates cfg ob | None \<Rightarrow> []) @
         (case ts_population s of Some ob \<Rightarrow> population_candidates ob | None \<Rightarrow> []) @
         (case ts_labor s of Some ob \<Rightarrow> labor_candidates cfg ob | None \<Rightarrow> []) @
         (case fresh_optional (ts_production s) delay cfg of Some ob \<Rightarrow> production_candidates cfg ob | None \<Rightarrow> []) @
         (case (ts_economy s, fresh_optional (ts_progression s) delay cfg) of
            (Some e, Some p) \<Rightarrow> progression_candidates e p
          | _ \<Rightarrow> []) @
         (if cc_enable_pressure_advice cfg
          then (case fresh_optional (ts_pressure s) delay cfg of Some ob \<Rightarrow> pressure_candidates cfg ob | None \<Rightarrow> [])
          else [])))"

section \<open>The gate\<close>

text \<open>
  The loops over sites and opportunities stop at the first identifier already seen, or the first
  negative cost.
\<close>

fun opportunities_bad :: "u32 list \<Rightarrow> progression_opportunity list \<Rightarrow> bool" where
  "opportunities_bad ids [] \<longleftrightarrow> False"
| "opportunities_bad ids (p # ps) \<longleftrightarrow>
     op_stable_id p \<in> set ids \<or> list_ex (\<lambda>r. sint (op_cost p r) < 0) ALL_RESOURCES
     \<or> opportunities_bad (op_stable_id p # ids) ps"

fun sites_bad :: "u32 list \<Rightarrow> production_site list \<Rightarrow> bool" where
  "sites_bad ids [] \<longleftrightarrow> False"
| "sites_bad ids (p # ps) \<longleftrightarrow> ps_stable_id p \<in> set ids \<or> sites_bad (ps_stable_id p # ids) ps"

definition economy_bad :: "economy_telemetry \<Rightarrow> bool" where
  "economy_bad d = list_ex (\<lambda>r. sint (et_stock d r) < 0 \<or> sint (et_planned_unpaid_cost d r) < 0
     \<or> sint (et_commerce_cap d r) < 0 \<or> 2 < et_commerce_status d r) ALL_RESOURCES"

definition labor_bad :: "labor_telemetry \<Rightarrow> bool" where
  "labor_bad d \<longleftrightarrow> (case la_rebalance d of None \<Rightarrow> False | Some b \<Rightarrow> ro_from b = ro_to b)"

definition valid_values :: "telemetry_snapshot \<Rightarrow> coach_config \<Rightarrow> bool" where
  "valid_values s cfg =
     (case (ts_economy s, ts_population s, ts_labor s) of
        (Some economy, Some population, Some labor) \<Rightarrow>
          \<not> economy_bad (ob_value economy)
          \<and> \<not> po_paid_queue_population (ob_value population) < po_blocked_paid_population (ob_value population)
          \<and> \<not> la_citizens (ob_value labor) < la_idle_citizens (ob_value labor)
          \<and> \<not> (case ts_progression s of None \<Rightarrow> False | Some p \<Rightarrow> opportunities_bad [] (pg_opportunities (ob_value p)))
          \<and> \<not> (case ts_production s of None \<Rightarrow> False | Some p \<Rightarrow> sites_bad [] (pr_sites (ob_value p)))
          \<and> \<not> labor_bad (ob_value labor)
          \<and> (\<not> cc_enable_pressure_advice cfg \<or>
              (case ts_pressure s of None \<Rightarrow> True | Some p \<Rightarrow> px_recent_economy_spend_permille (ob_value p) \<le> 1000))
      | _ \<Rightarrow> False)"

definition base_field_stale :: "coach_config \<Rightarrow> u64 \<Rightarrow> field_provenance option \<Rightarrow> bool" where
  "base_field_stale cfg delay field =
     (case field of None \<Rightarrow> True | Some p \<Rightarrow> cc_max_field_age_ms cfg < saturating_add (fp_age_ms p) delay)"

definition gate :: "advice_engine \<Rightarrow> telemetry_snapshot \<Rightarrow> suppression_reason option" where
  "gate e s =
     (let meta = ts_meta s; cfg = en_config e; delay = transport_delay s in
      if sm_schema_version meta \<noteq> SNAPSHOT_SCHEMA_VERSION then Some UnsupportedSchema
      else if sm_completeness meta \<noteq> Complete then Some PartialSnapshot
      else if ts_economy s = None \<or> ts_population s = None \<or> ts_labor s = None then Some PartialSnapshot
      else if \<not> sm_coherent meta then Some IncoherentSnapshot
      else if sm_identity meta = Ambiguous then Some AmbiguousIdentity
      else if sm_identity meta = NonHumanIdentity then Some NonHuman
      else if sm_game_mode meta = MultiplayerMode then Some Multiplayer
      else if sm_game_mode meta = UnknownMode then Some UnknownGameMode
      else if sm_paused meta then Some Paused
      else if sm_analyzed_at_ms meta < sm_captured_at_ms meta \<or> cc_max_snapshot_age_ms cfg < delay
      then Some StaleSnapshot
      else if (case en_last_analyzed_ms e of None \<Rightarrow> False | Some prev \<Rightarrow> sm_analyzed_at_ms meta < prev)
      then Some TimeWentBackwards
      else if (case en_last_sequence e of None \<Rightarrow> False | Some prev \<Rightarrow> sm_sample_sequence meta \<le> prev)
          \<or> (case en_last_game_tick e of None \<Rightarrow> False | Some prev \<Rightarrow> sm_game_tick meta \<le> prev)
      then Some SampleWentBackwards
      else if list_ex (base_field_stale cfg delay)
          [map_option ob_provenance (ts_economy s), map_option ob_provenance (ts_population s),
           map_option ob_provenance (ts_labor s)]
      then Some StaleSnapshot
      else if \<not> valid_values s cfg then Some InvalidValues
      else None)"

section \<open>The lifecycle\<close>

definition record_valid_position :: "telemetry_snapshot \<Rightarrow> advice_engine \<Rightarrow> advice_engine" where
  "record_valid_position s e =
     e\<lparr>en_last_sequence := Some (sm_sample_sequence (ts_meta s)),
       en_last_game_tick := Some (sm_game_tick (ts_meta s)),
       en_last_analyzed_ms := Some (sm_analyzed_at_ms (ts_meta s))\<rparr>"

definition record_position :: "telemetry_snapshot \<Rightarrow> suppression_reason \<Rightarrow> advice_engine \<Rightarrow> advice_engine" where
  "record_position s reason e = (if reason = Paused then record_valid_position s e else e)"

text \<open>Operations that push events return them, in order.\<close>

definition retract_all :: "retraction_reason \<Rightarrow> advice_engine \<Rightarrow> advice_event list \<times> advice_engine" where
  "retract_all reason e = (map (\<lambda>k. Retracted k reason) (bt_keys (en_active e)), e\<lparr>en_active := []\<rparr>)"

definition change_match :: "telemetry_snapshot \<Rightarrow> advice_engine \<Rightarrow> advice_event list \<times> advice_engine" where
  "change_match s e =
     (case en_match_id e of
        None \<Rightarrow> ([], e\<lparr>en_match_id := Some (sm_match_id (ts_meta s))\<rparr>)
      | Some old_match \<Rightarrow>
          if old_match \<noteq> sm_match_id (ts_meta s) then
            (let (events, e') = retract_all MatchChanged e
             in (events, e'\<lparr>en_pending := [], en_missing := [], en_last_emitted := [],
                   en_last_global_raise_ms := None, en_last_sequence := None, en_last_game_tick := None,
                   en_last_analyzed_ms := None, en_match_id := Some (sm_match_id (ts_meta s))\<rparr>))
          else ([], e))"

text \<open>The reason for retracting the cards of an optional input that is not fresh.\<close>

definition unavailable_reason :: "optional_state \<Rightarrow> suppression_reason" where
  "unavailable_reason st = (if st = Missing then PartialSnapshot else StaleSnapshot)"

definition retract_category ::
    "advice_category \<Rightarrow> optional_state \<Rightarrow> advice_engine \<Rightarrow> advice_event list \<times> advice_engine" where
  "retract_category category st e =
     (if st = Fresh then ([], e)
      else
        let keys = map fst (filter (\<lambda>(k, shown). ac_category shown = category) (en_active e))
        in (map (\<lambda>k. Retracted k (DataQuality (unavailable_reason st))) keys,
            e\<lparr>en_active := fold bt_remove keys (en_active e), en_missing := fold bt_remove keys (en_missing e)\<rparr>))"

definition retract_unavailable_optional_sources ::
    "telemetry_snapshot \<Rightarrow> advice_engine \<Rightarrow> advice_event list \<times> advice_engine" where
  "retract_unavailable_optional_sources s e =
     (let delay = transport_delay s; cfg = en_config e;
          (ev1, e1) = retract_category Production (optional_state_of (ts_production s) delay cfg) e;
          (ev2, e2) = retract_category Progression (optional_state_of (ts_progression s) delay cfg) e1;
          (ev3, e3) = retract_category Pressure
             (if cc_enable_pressure_advice cfg then optional_state_of (ts_pressure s) delay cfg else Fresh) e2
      in (ev1 @ ev2 @ ev3, e3))"

definition make_card :: "coach_config \<Rightarrow> candidate \<Rightarrow> u64 \<Rightarrow> u64 \<Rightarrow> advice_card" where
  "make_card cfg c created now =
     \<lparr>ac_rule = ca_rule c, ac_key = ca_key c, ac_category = ca_category c, ac_severity = ca_severity c,
      ac_confidence = ca_confidence c, ac_confidence_breakdown = ca_confidence_breakdown c,
      ac_evidence = ca_evidence c, ac_message = ca_message c, ac_created_at_ms = created,
      ac_updated_at_ms = now, ac_expires_at_ms = saturating_add now (cc_advice_ttl_ms cfg),
      ac_cooldown_ms = cc_per_key_cooldown_ms cfg\<rparr>"

text \<open>One round of the loop that resolves cards no longer proposed.\<close>

definition resolve_key ::
    "advice_key list \<Rightarrow> u64 \<Rightarrow> advice_key \<Rightarrow> advice_event list \<times> advice_engine \<Rightarrow> advice_event list \<times> advice_engine" where
  "resolve_key present now k = (\<lambda>(events, e).
     if k \<in> set present then (events, e\<lparr>en_missing := bt_remove k (en_missing e)\<rparr>)
     else
       let since = (case bt_get (en_missing e) k of Some m \<Rightarrow> first_missing_ms m | None \<Rightarrow> now);
           missing = (case bt_get (en_missing e) k of
             Some _ \<Rightarrow> en_missing e
           | None \<Rightarrow> bt_insert k \<lparr>first_missing_ms = now\<rparr> (en_missing e));
           resolved = cc_resolve_hysteresis_ms (en_config e) \<le> saturating_sub now since;
           expired = (case bt_get (en_active e) k of Some shown \<Rightarrow> ac_expires_at_ms shown \<le> now | None \<Rightarrow> False)
       in if resolved \<or> expired
          then (events @ [Retracted k (if expired then Expired else Resolved)],
                e\<lparr>en_active := bt_remove k (en_active e), en_missing := bt_remove k missing\<rparr>)
          else (events, e\<lparr>en_missing := missing\<rparr>))"

definition resolve_absent ::
    "advice_key list \<Rightarrow> u64 \<Rightarrow> advice_engine \<Rightarrow> advice_event list \<times> advice_engine" where
  "resolve_absent present now e = fold (resolve_key present now) (bt_keys (en_active e)) ([], e)"

definition card_changed :: "advice_card \<Rightarrow> candidate \<Rightarrow> bool" where
  "card_changed old c \<longleftrightarrow>
     ac_severity old \<noteq> ca_severity c \<or> ac_rule old \<noteq> ca_rule c \<or> ac_confidence old \<noteq> ca_confidence c
     \<or> ac_confidence_breakdown old \<noteq> ca_confidence_breakdown c \<or> ac_message old \<noteq> ca_message c
     \<or> ac_evidence old \<noteq> ca_evidence c"

text \<open>One round of the loop that refreshes the cards of the candidates.\<close>

definition refresh_candidate ::
    "u64 \<Rightarrow> candidate \<Rightarrow> advice_event list \<times> advice_engine \<Rightarrow> advice_event list \<times> advice_engine" where
  "refresh_candidate now c = (\<lambda>(events, e).
     case bt_get (en_active e) (ca_key c) of
       None \<Rightarrow> (events, e)
     | Some old \<Rightarrow>
         let cfg = en_config e;
             may_update = ac_severity old < ca_severity c
               \<or> cc_update_cooldown_ms cfg \<le> saturating_sub now (ac_updated_at_ms old);
             shown = make_card cfg c (ac_created_at_ms old) now;
             expires = saturating_add now (cc_advice_ttl_ms cfg)
         in if \<not> card_changed old c \<or> \<not> may_update then
              (events, e\<lparr>en_active := bt_insert (ca_key c)
                 (shown\<lparr>ac_rule := ac_rule old, ac_message := ac_message old, ac_severity := ac_severity old,
                    ac_confidence := ac_confidence old, ac_confidence_breakdown := ac_confidence_breakdown old,
                    ac_evidence := ac_evidence old, ac_updated_at_ms := ac_updated_at_ms old,
                    ac_expires_at_ms := expires\<rparr>) (en_active e)\<rparr>)
            else
              (events @ [Updated shown],
               e\<lparr>en_last_emitted := bt_insert (ca_key c) (now, ca_severity c) (en_last_emitted e),
                 en_active := bt_insert (ca_key c) (shown\<lparr>ac_expires_at_ms := expires\<rparr>) (en_active e)\<rparr>))"

text \<open>One round of the loop that registers candidates and collects those that may be raised.\<close>

definition consider_candidate ::
    "u64 \<Rightarrow> candidate \<Rightarrow> candidate list \<times> advice_engine \<Rightarrow> candidate list \<times> advice_engine" where
  "consider_candidate now c = (\<lambda>(eligible, e).
     if bt_contains_key (en_active e) (ca_key c) then (eligible, e)
     else
       let cfg = en_config e;
           since = (case bt_get (en_pending e) (ca_key c) of Some p \<Rightarrow> first_seen_ms p | None \<Rightarrow> now);
           e' = (case bt_get (en_pending e) (ca_key c) of
             Some _ \<Rightarrow> e
           | None \<Rightarrow> e\<lparr>en_pending := bt_insert (ca_key c) \<lparr>first_seen_ms = now\<rparr> (en_pending e)\<rparr>)
       in if saturating_sub now since < cc_sustain_ms cfg then (eligible, e')
          else case bt_get (en_last_emitted e) (ca_key c) of
            Some (last_ms, old_severity) \<Rightarrow>
              if saturating_sub now last_ms < cc_per_key_cooldown_ms cfg \<and> ca_severity c \<le> old_severity
              then (eligible, e') else (eligible @ [c], e')
          | None \<Rightarrow> (eligible @ [c], e'))"

text \<open>Higher severity first, then higher confidence, then the smaller key; the sort is stable.\<close>

definition candidate_rank :: "candidate \<Rightarrow> int \<times> int \<times> advice_key" where
  "candidate_rank c = (- int (severity_rank (ca_severity c)), - int (unat (permille (ca_confidence c))), ca_key c)"

definition card_rank :: "advice_card \<Rightarrow> int \<times> int \<times> advice_key" where
  "card_rank c = (- int (severity_rank (ac_severity c)), - int (unat (permille (ac_confidence c))), ac_key c)"

definition global_ready :: "u64 \<Rightarrow> advice_engine \<Rightarrow> bool" where
  "global_ready now e =
     (case en_last_global_raise_ms e of
        None \<Rightarrow> True
      | Some prev \<Rightarrow> cc_global_raise_interval_ms (en_config e) \<le> saturating_sub now prev)"

definition raise_best :: "u64 \<Rightarrow> candidate list \<Rightarrow> advice_engine \<Rightarrow> advice_event list \<times> advice_engine" where
  "raise_best now eligible e =
     (case sort_key candidate_rank eligible of
        c # _ \<Rightarrow>
          if global_ready now e then
            let shown = make_card (en_config e) c now now
            in ([Raised shown],
                e\<lparr>en_pending := bt_remove (ca_key c) (en_pending e),
                  en_last_emitted := bt_insert (ca_key c) (now, ca_severity c) (en_last_emitted e),
                  en_last_global_raise_ms := Some now,
                  en_active := bt_insert (ca_key c) shown (en_active e)\<rparr>)
          else ([], e)
      | [] \<Rightarrow> ([], e))"

definition ranked_active :: "advice_engine \<Rightarrow> advice_card list" where
  "ranked_active e = sort_key card_rank (bt_values (en_active e))"

definition analyze :: "telemetry_snapshot \<Rightarrow> advice_engine \<Rightarrow> advice_batch \<times> advice_engine" where
  "analyze s e0 =
     (let now = sm_analyzed_at_ms (ts_meta s);
          (ev1, e1) = change_match s e0
      in case gate e1 s of
        Some reason \<Rightarrow>
          (let (ev2, e2) = retract_all (DataQuality reason) e1
           in (\<lparr>ab_active = [], ab_events = ev1 @ ev2, ab_suppressed = Some reason\<rparr>,
               record_position s reason (e2\<lparr>en_pending := [], en_missing := []\<rparr>)))
      | None \<Rightarrow>
          (let (ev2, e2) = retract_unavailable_optional_sources s (record_valid_position s e1);
               cs = candidates (en_config e2) s;
               present = map ca_key cs;
               (ev3, e3) = resolve_absent present now e2;
               e4 = e3\<lparr>en_pending := bt_retain (\<lambda>k. k \<in> set present) (en_pending e3)\<rparr>;
               (ev5, e5) = fold (refresh_candidate now) cs ([], e4);
               (eligible, e6) = fold (consider_candidate now) cs ([], e5);
               (ev7, e7) = raise_best now eligible e6
           in (\<lparr>ab_active = ranked_active e7, ab_events = ev1 @ ev2 @ ev3 @ ev5 @ ev7, ab_suppressed = None\<rparr>, e7)))"

end
