(* ===== verification/Coach_Lifecycle.thy ===== *)
theory Coach_Lifecycle
  imports Coach_Engine
begin

text \<open>
  What each phase of an analysis does to the cards on display. The view of an engine is the map from
  keys to cards without their expiry time; the events of a phase, applied in order to the view before
  it, give the view after it.
\<close>

section \<open>Candidates\<close>

fun category_of :: "advice_key \<Rightarrow> advice_category" where
  "category_of (ResourceBottleneck _) = Economy"
| "category_of (CommerceCap _) = Economy"
| "category_of PopulationBlock = Population"
| "category_of IdleCitizens = Labor"
| "category_of (LaborRebalance _ _) = Labor"
| "category_of (IdleProduction _) = Production"
| "category_of (ProgressionAffordable _) = Progression"
| "category_of LocalMilitaryPressure = Pressure"
| "category_of EconomyUnderPressure = Pressure"

definition proposal_ok :: "candidate \<Rightarrow> bool" where
  "proposal_ok c \<longleftrightarrow>
     ca_category c = category_of (ca_key c) \<and> ca_confidence c = breakdown_overall (ca_confidence_breakdown c)"

lemma economy_ok: "list_all proposal_ok (economy_candidates cfg ob)"
  by (simp add: economy_candidates_def economy_candidates_for_def ALL_RESOURCES_def Let_def proposal_ok_def
      commerce_candidate_def shortfall_candidate_def confidence_of_def)

lemma population_ok: "list_all proposal_ok (population_candidates ob)"
  by (simp add: population_candidates_def Let_def proposal_ok_def confidence_of_def)

lemma labor_ok: "list_all proposal_ok (labor_candidates cfg ob)"
  by (simp add: labor_candidates_def idle_candidate_def rebalance_candidate_def Let_def proposal_ok_def
      confidence_of_def split: option.splits)

lemma production_ok: "list_all proposal_ok (production_candidates cfg ob)"
  by (simp add: production_candidates_def site_candidate_def list_all_iff proposal_ok_def confidence_of_def)

lemma progression_ok: "list_all proposal_ok (progression_candidates economy progression)"
  by (simp add: progression_candidates_def opportunity_candidate_def list_all_iff proposal_ok_def Let_def)

lemma pressure_ok: "list_all proposal_ok (pressure_candidates cfg ob)"
  by (simp add: pressure_candidates_def Let_def proposal_ok_def confidence_of_def)

lemmas rules_ok = economy_ok population_ok labor_ok production_ok progression_ok pressure_ok

definition candidate_ok :: "coach_config \<Rightarrow> candidate \<Rightarrow> bool" where
  "candidate_ok cfg c \<longleftrightarrow>
     proposal_ok c \<and> permille (cc_minimum_confidence cfg) \<le> permille (ca_confidence c)"

lemma list_all_case_option: "(\<And>y. list_all P (f y)) \<Longrightarrow> list_all P (case x of Some y \<Rightarrow> f y | None \<Rightarrow> [])"
  by (cases x) auto

lemma candidates_ok: "c \<in> set (candidates cfg s) \<Longrightarrow> candidate_ok cfg c"
proof -
  have all: "list_all (candidate_ok cfg) (filter (\<lambda>c. permille (cc_minimum_confidence cfg) \<le> permille (ca_confidence c)) cs)"
    if "list_all proposal_ok cs" for cs
    using that by (auto simp: list_all_iff candidate_ok_def)
  have prog: "list_all proposal_ok (case (x, y) of (Some e, Some p) \<Rightarrow> progression_candidates e p | _ \<Rightarrow> [])" for x y
    by (cases x; cases y) (simp_all add: rules_ok)
  have "list_all (candidate_ok cfg) (candidates cfg s)"
    unfolding candidates_def Let_def
    by (rule all, unfold list_all_append, intro conjI list_all_case_option rules_ok prog)
      (simp add: list_all_case_option rules_ok)
  then show "c \<in> set (candidates cfg s) \<Longrightarrow> candidate_ok cfg c" by (simp add: list_all_iff)
qed

section \<open>Removal of several keys\<close>

lemma bt_get_fold_remove: "bt_get (fold bt_remove ks m) k = (if k \<in> set ks then None else bt_get m k)"
  by (induction ks arbitrary: m) (auto simp: bt_get_remove)

lemma bt_wf_fold_remove: "bt_wf m \<Longrightarrow> bt_wf (fold bt_remove ks m)"
  by (induction ks arbitrary: m) (auto simp: bt_wf_remove)

section \<open>The view and its events\<close>

abbreviation erase :: "advice_card \<Rightarrow> advice_card" where
  "erase c \<equiv> c\<lparr>ac_expires_at_ms := 0\<rparr>"

definition view :: "advice_engine \<Rightarrow> advice_key \<Rightarrow> advice_card option" where
  "view e k = map_option erase (bt_get (en_active e) k)"

fun apply_event :: "advice_event \<Rightarrow> (advice_key \<Rightarrow> advice_card option) \<Rightarrow> advice_key \<Rightarrow> advice_card option" where
  "apply_event (Raised c) m = m(ac_key c \<mapsto> erase c)"
| "apply_event (Updated c) m = m(ac_key c \<mapsto> erase c)"
| "apply_event (Retracted k _) m = m(k := None)"

lemma fold_retracted:
  "fold apply_event (map (\<lambda>k. Retracted k reason) ks) m = (\<lambda>k. if k \<in> set ks then None else m k)"
  by (induction ks arbitrary: m) (auto simp: fun_eq_iff)

text \<open>A card as the lifecycle keeps it, and the maps of an engine as ordered maps of such cards.\<close>

definition card_ok :: "coach_config \<Rightarrow> advice_key \<Rightarrow> advice_card \<Rightarrow> bool" where
  "card_ok cfg k c \<longleftrightarrow>
     ac_key c = k \<and> ac_category c = category_of k \<and> ac_cooldown_ms c = cc_per_key_cooldown_ms cfg \<and>
     ac_confidence c = breakdown_overall (ac_confidence_breakdown c) \<and>
     permille (cc_minimum_confidence cfg) \<le> permille (ac_confidence c)"

definition maps_ok :: "advice_engine \<Rightarrow> bool" where
  "maps_ok e \<longleftrightarrow> bt_wf (en_pending e) \<and> bt_wf (en_missing e) \<and> bt_wf (en_active e) \<and> bt_wf (en_last_emitted e)"

definition cards_ok :: "advice_engine \<Rightarrow> bool" where
  "cards_ok e \<longleftrightarrow> maps_ok e \<and> (\<forall>k c. bt_get (en_active e) k = Some c \<longrightarrow> card_ok (en_config e) k c)"

text \<open>A phase appends events and changes the view accordingly.\<close>

definition delivers :: "advice_event list \<times> advice_engine \<Rightarrow> advice_event list \<times> advice_engine \<Rightarrow> bool" where
  "delivers x y \<longleftrightarrow> (\<exists>d. fst y = fst x @ d \<and>
     (cards_ok (snd x) \<longrightarrow> cards_ok (snd y) \<and> en_config (snd y) = en_config (snd x) \<and>
       view (snd y) = fold apply_event d (view (snd x))))"

lemma delivers_refl: "delivers x x"
  unfolding delivers_def by (rule exI [of _ "[]"]) simp

lemma delivers_trans [trans]: "delivers x y \<Longrightarrow> delivers y z \<Longrightarrow> delivers x z"
  unfolding delivers_def by (elim exE, rule_tac x = "d @ da" in exI) auto

lemma delivers_fold: "(\<And>a x. a \<in> set as \<Longrightarrow> delivers x (f a x)) \<Longrightarrow> delivers x (fold f as x)"
proof (induction as arbitrary: x)
  case (Cons a as)
  have "delivers x (f a x)" using Cons.prems by simp
  also have "delivers \<dots> (fold f as \<dots>)" using Cons by simp
  finally show ?case by simp
qed (simp add: delivers_refl)

lemma deliversI:
  assumes "cards_ok e \<Longrightarrow> cards_ok e' \<and> en_config e' = en_config e \<and> view e' = fold apply_event d (view e)"
  shows "delivers (ev, e) (ev @ d, e')"
  using assms unfolding delivers_def by auto

lemma retract_all_delivers: "delivers ([], e) (retract_all reason e)"
proof -
  have "view (e\<lparr>en_active := []\<rparr>) = fold apply_event (map (\<lambda>k. Retracted k reason) (bt_keys (en_active e))) (view e)"
    if "cards_ok e"
    using that bt.set_keys [of "en_active e"] by (auto simp: fold_retracted view_def fun_eq_iff cards_ok_def maps_ok_def)
  then show ?thesis
    using deliversI [of e "e\<lparr>en_active := []\<rparr>" "map (\<lambda>k. Retracted k reason) (bt_keys (en_active e))" "[]"]
    by (auto simp: retract_all_def cards_ok_def maps_ok_def)
qed

text \<open>A change of the other fields leaves the view alone.\<close>

lemma delivers_other:
  assumes "delivers x (ev, e1)" "en_active e' = en_active e1" "en_config e' = en_config e1" "maps_ok e1 \<Longrightarrow> maps_ok e'"
  shows "delivers x (ev, e')"
proof -
  have "view e' = view e1" using assms(2) by (simp add: view_def fun_eq_iff)
  then show ?thesis using assms unfolding delivers_def cards_ok_def by auto
qed

lemma change_match_delivers: "delivers ([], e) (change_match s e)"
proof (cases "en_match_id e")
  case None
  then show ?thesis
    unfolding change_match_def by (auto intro!: delivers_other [OF delivers_refl] simp: maps_ok_def)
next
  case (Some m)
  have "delivers ([], e) (map (\<lambda>k. Retracted k MatchChanged) (bt_keys (en_active e)), e\<lparr>en_active := []\<rparr>)"
    using retract_all_delivers [of e MatchChanged] by (simp add: retract_all_def)
  from delivers_other [OF this] Some show ?thesis
    unfolding change_match_def by (simp add: retract_all_def delivers_refl maps_ok_def)
qed

lemma retract_category_delivers: "delivers (ev, e) (ev @ fst (retract_category cat st e), snd (retract_category cat st e))"
proof (cases "st = Fresh")
  case True
  then show ?thesis by (simp add: retract_category_def delivers_refl)
next
  case False
  let ?ks = "map fst (filter (\<lambda>(k, c). ac_category c = cat) (en_active e))"
  let ?e = "e\<lparr>en_active := fold bt_remove ?ks (en_active e), en_missing := fold bt_remove ?ks (en_missing e)\<rparr>"
  have "view ?e = fold apply_event (map (\<lambda>k. Retracted k (DataQuality (unavailable_reason st))) ?ks) (view e)"
    unfolding fold_retracted by (auto simp: view_def bt_get_fold_remove fun_eq_iff)
  then show ?thesis
    using False unfolding retract_category_def
    by (auto simp: Let_def cards_ok_def maps_ok_def bt_wf_fold_remove bt_get_fold_remove intro!: deliversI)
qed

lemma retract_unavailable_delivers: "delivers ([], e) (retract_unavailable_optional_sources s e)"
proof -
  have step: "delivers x (ev @ fst (retract_category cat st e), snd (retract_category cat st e))"
    if "delivers x (ev, e)" for x ev cat st e
    using that retract_category_delivers by (rule delivers_trans)
  have first: "delivers ([], e) (fst (retract_category cat st e), snd (retract_category cat st e))" for cat st e
    using retract_category_delivers [of "[]"] by simp
  show ?thesis
    unfolding retract_unavailable_optional_sources_def Let_def case_prod_beta append_assoc [symmetric]
    by (intro step first)
qed

lemma resolve_key_delivers: "delivers x (resolve_key present now k x)"
proof (cases x)
  case (Pair ev e)
  have other: "delivers (ev, e) (ev, e\<lparr>en_missing := m\<rparr>)" if "bt_wf (en_missing e) \<Longrightarrow> bt_wf m" for m
    using that by (intro delivers_other [OF delivers_refl]) (auto simp: maps_ok_def)
  have drop: "delivers (ev, e) (ev @ [Retracted k r], e\<lparr>en_active := bt_remove k (en_active e), en_missing := m\<rparr>)"
    if "bt_wf (en_missing e) \<Longrightarrow> bt_wf m" for m r
    using that
    by (intro deliversI) (auto simp: cards_ok_def maps_ok_def bt_wf_remove bt_get_remove view_def fun_eq_iff)
  show ?thesis
    unfolding Pair resolve_key_def Let_def
    by (auto simp: bt_wf_remove bt_wf_insert split: option.splits intro!: other drop delivers_refl)
qed

lemma resolve_absent_delivers: "delivers ([], e) (resolve_absent present now e)"
  unfolding resolve_absent_def by (rule delivers_fold) (rule resolve_key_delivers)

text \<open>The view of a card that is replaced under its own key.\<close>

lemma insert_card:
  assumes "cards_ok e" "card_ok (en_config e) k c" "bt_wf le"
  shows "cards_ok (e\<lparr>en_active := bt_insert k c (en_active e), en_last_emitted := le\<rparr>)"
    "view (e\<lparr>en_active := bt_insert k c (en_active e), en_last_emitted := le\<rparr>) = (view e)(k \<mapsto> erase c)"
  using assms by (auto simp: cards_ok_def maps_ok_def bt.wf_insert bt.get_insert view_def fun_eq_iff)

text \<open>The two outcomes of refreshing a card: kept as it is shown, or replaced with an event.\<close>

definition kept_card :: "coach_config \<Rightarrow> candidate \<Rightarrow> advice_card \<Rightarrow> u64 \<Rightarrow> advice_card" where
  "kept_card cfg c old now =
     (make_card cfg c (ac_created_at_ms old) now)
       \<lparr>ac_rule := ac_rule old, ac_message := ac_message old, ac_severity := ac_severity old,
        ac_confidence := ac_confidence old, ac_confidence_breakdown := ac_confidence_breakdown old,
        ac_evidence := ac_evidence old, ac_updated_at_ms := ac_updated_at_ms old,
        ac_expires_at_ms := saturating_add now (cc_advice_ttl_ms cfg)\<rparr>"

lemma make_card_expires [simp]:
  "make_card cfg c created now\<lparr>ac_expires_at_ms := saturating_add now (cc_advice_ttl_ms cfg)\<rparr> = make_card cfg c created now"
  by (simp add: make_card_def)

lemma refresh_candidate_cases:
  obtains (absent) "bt_get (en_active e) (ca_key c) = None" "refresh_candidate now c (ev, e) = (ev, e)"
  | (kept) old where "bt_get (en_active e) (ca_key c) = Some old"
      "refresh_candidate now c (ev, e) =
         (ev, e\<lparr>en_active := bt_insert (ca_key c) (kept_card (en_config e) c old now) (en_active e)\<rparr>)"
  | (updated) old where "bt_get (en_active e) (ca_key c) = Some old"
      "refresh_candidate now c (ev, e) =
         (ev @ [Updated (make_card (en_config e) c (ac_created_at_ms old) now)],
          e\<lparr>en_last_emitted := bt_insert (ca_key c) (now, ca_severity c) (en_last_emitted e),
            en_active := bt_insert (ca_key c) (make_card (en_config e) c (ac_created_at_ms old) now) (en_active e)\<rparr>)"
proof (cases "bt_get (en_active e) (ca_key c)")
  case None
  then show thesis by (intro absent) (simp_all add: refresh_candidate_def)
next
  case (Some old)
  show thesis
  proof (cases "\<not> card_changed old c \<or> \<not> (ac_severity old < ca_severity c
      \<or> cc_update_cooldown_ms (en_config e) \<le> saturating_sub now (ac_updated_at_ms old))")
    case True
    with Some show thesis
      by (intro kept [OF Some]) (simp add: refresh_candidate_def Let_def kept_card_def)
  next
    case False
    with Some show thesis
      by (intro updated [OF Some]) (simp add: refresh_candidate_def Let_def)
  qed
qed

lemma kept_card_ok:
  assumes "card_ok cfg (ca_key c) old" "candidate_ok cfg c"
  shows "card_ok cfg (ca_key c) (kept_card cfg c old now)" "erase (kept_card cfg c old now) = erase old"
  using assms by (auto simp: card_ok_def kept_card_def make_card_def candidate_ok_def proposal_ok_def)

lemma make_card_ok: "candidate_ok cfg c \<Longrightarrow> card_ok cfg (ca_key c) (make_card cfg c created now)"
  by (auto simp: card_ok_def make_card_def candidate_ok_def proposal_ok_def)

lemma refresh_candidate_delivers:
  assumes c: "candidate_ok (en_config (snd x)) c"
  shows "delivers x (refresh_candidate now c x)"
proof -
  obtain ev e where x: "x = (ev, e)" by (cases x)
  have c: "candidate_ok (en_config e) c" using c x by simp
  show ?thesis
  proof (cases rule: refresh_candidate_cases [of e c now ev])
    case absent
    then show ?thesis by (simp add: x delivers_refl)
  next
    case (kept old)
    have "card_ok (en_config e) (ca_key c) old" if "cards_ok e" using that kept(1) by (simp add: cards_ok_def)
    note k = kept_card_ok [OF this c, of now]
    have "view e (ca_key c) = Some (erase old)" using kept(1) by (simp add: view_def)
    then have "delivers (ev, e) (ev @ [], e\<lparr>en_active := bt_insert (ca_key c) (kept_card (en_config e) c old now) (en_active e)\<rparr>)"
      using insert_card [of e "ca_key c" "kept_card (en_config e) c old now" "en_last_emitted e"] k
      by (intro deliversI) (auto simp: cards_ok_def maps_ok_def)
    then show ?thesis by (simp add: x kept(2))
  next
    case (updated old)
    have "ac_key (make_card (en_config e) c (ac_created_at_ms old) now) = ca_key c" by (simp add: make_card_def)
    then show ?thesis
      unfolding x updated(2)
      using make_card_ok [OF c, of "ac_created_at_ms old" now]
      by (intro deliversI) (auto simp: cards_ok_def maps_ok_def bt.wf_insert bt.get_insert view_def fun_eq_iff)
  qed
qed

lemma refresh_all_delivers:
  "(\<And>c. c \<in> set cs \<Longrightarrow> candidate_ok cfg c) \<Longrightarrow> en_config (snd x) = cfg \<Longrightarrow> delivers x (fold (refresh_candidate now) cs x)"
proof (induction cs arbitrary: x)
  case (Cons c cs)
  have "delivers x (refresh_candidate now c x)" using Cons.prems by (intro refresh_candidate_delivers) auto
  also have "delivers \<dots> (fold (refresh_candidate now) cs \<dots>)"
  proof (rule Cons.IH)
    show "en_config (snd (refresh_candidate now c x)) = cfg"
      using Cons.prems(2) refresh_candidate_cases [of "snd x" c now "fst x" "en_config (snd (refresh_candidate now c x)) = cfg"]
      by auto
  qed (use Cons.prems in auto)
  finally show ?case by simp
qed (simp add: delivers_refl)

section \<open>Raising\<close>

text \<open>How long a key has been proposed, and whether it may be raised now.\<close>

definition seen_since :: "u64 \<Rightarrow> advice_engine \<Rightarrow> advice_key \<Rightarrow> u64" where
  "seen_since now e k = (case bt_get (en_pending e) k of Some p \<Rightarrow> first_seen_ms p | None \<Rightarrow> now)"

definition cooling :: "u64 \<Rightarrow> advice_engine \<Rightarrow> candidate \<Rightarrow> bool" where
  "cooling now e c \<longleftrightarrow>
     (case bt_get (en_last_emitted e) (ca_key c) of
        Some (last_ms, old_severity) \<Rightarrow>
          saturating_sub now last_ms < cc_per_key_cooldown_ms (en_config e) \<and> ca_severity c \<le> old_severity
      | None \<Rightarrow> False)"

definition may_raise :: "u64 \<Rightarrow> advice_engine \<Rightarrow> candidate \<Rightarrow> bool" where
  "may_raise now e c \<longleftrightarrow>
     bt_get (en_active e) (ca_key c) = None \<and>
     cc_sustain_ms (en_config e) \<le> saturating_sub now (seen_since now e (ca_key c)) \<and> \<not> cooling now e c"

definition register :: "u64 \<Rightarrow> advice_engine \<Rightarrow> advice_key \<Rightarrow> advice_engine" where
  "register now e k =
     (if bt_get (en_active e) k = None \<and> bt_get (en_pending e) k = None
      then e\<lparr>en_pending := bt_insert k \<lparr>first_seen_ms = now\<rparr> (en_pending e)\<rparr> else e)"

lemma consider_candidate_alt:
  "consider_candidate now c (el, e) =
     (el @ (if may_raise now e c then [c] else []), register now e (ca_key c))"
  by (auto simp: consider_candidate_def may_raise_def register_def cooling_def seen_since_def bt_contains_key_def
      Let_def not_less not_le split: option.splits)

lemma register_fields:
  "en_active (register now e k) = en_active e" "en_config (register now e k) = en_config e"
  "en_last_emitted (register now e k) = en_last_emitted e" "en_missing (register now e k) = en_missing e"
  "en_match_id (register now e k) = en_match_id e" "en_last_sequence (register now e k) = en_last_sequence e"
  "en_last_game_tick (register now e k) = en_last_game_tick e" "en_last_analyzed_ms (register now e k) = en_last_analyzed_ms e"
  "en_last_global_raise_ms (register now e k) = en_last_global_raise_ms e"
  by (simp_all add: register_def)

lemma register_pending:
  assumes "bt_wf (en_pending e)"
  shows "bt_wf (en_pending (register now e k))" "seen_since now (register now e k) k' = seen_since now e k'"
    "bt_get (en_pending (register now e k)) k' =
       (if k' = k \<and> bt_get (en_active e) k = None \<and> bt_get (en_pending e) k = None then Some \<lparr>first_seen_ms = now\<rparr>
        else bt_get (en_pending e) k')"
  using assms by (auto simp: register_def seen_since_def bt.wf_insert bt.get_insert)

lemma register_may_raise:
  "bt_wf (en_pending e) \<Longrightarrow> may_raise now (register now e k) c = may_raise now e c"
  unfolding may_raise_def cooling_def register_fields by (simp add: register_pending)

lemma fold_consider:
  assumes "bt_wf (en_pending e)"
  shows "fold (consider_candidate now) cs (el, e) =
    (el @ filter (may_raise now e) cs, fold (\<lambda>k e. register now e k) (map ca_key cs) e)"
  using assms
proof (induction cs arbitrary: el e)
  case (Cons c cs)
  have "filter (may_raise now (register now e (ca_key c))) cs = filter (may_raise now e) cs"
    by (rule filter_cong) (simp_all add: register_may_raise Cons.prems)
  then show ?case
    using Cons register_pending(1) [OF Cons.prems] by (simp add: consider_candidate_alt)
qed simp

lemma fold_register_fields:
  "en_active (fold (\<lambda>k e. register now e k) ks e) = en_active e"
  "en_config (fold (\<lambda>k e. register now e k) ks e) = en_config e"
  "en_last_emitted (fold (\<lambda>k e. register now e k) ks e) = en_last_emitted e"
  "en_missing (fold (\<lambda>k e. register now e k) ks e) = en_missing e"
  "en_match_id (fold (\<lambda>k e. register now e k) ks e) = en_match_id e"
  "en_last_analyzed_ms (fold (\<lambda>k e. register now e k) ks e) = en_last_analyzed_ms e"
  "en_last_global_raise_ms (fold (\<lambda>k e. register now e k) ks e) = en_last_global_raise_ms e"
  by (induction ks arbitrary: e) (simp_all add: register_fields)

lemma fold_register_pending:
  assumes "bt_wf (en_pending e)"
  shows "bt_wf (en_pending (fold (\<lambda>k e. register now e k) ks e)) \<and>
    bt_get (en_pending (fold (\<lambda>k e. register now e k) ks e)) k' =
      (if k' \<in> set ks \<and> bt_get (en_active e) k' = None \<and> bt_get (en_pending e) k' = None then Some \<lparr>first_seen_ms = now\<rparr>
       else bt_get (en_pending e) k')"
  using assms
proof (induction ks arbitrary: e)
  case (Cons k ks)
  show ?case using Cons.IH [of "register now e k"] register_pending [OF Cons.prems, of now k]
    by (auto simp: register_fields)
qed simp

lemma raise_best_delivers:
  assumes "\<And>c. c \<in> set el \<Longrightarrow> candidate_ok (en_config e) c"
  shows "delivers (ev, e) (ev @ fst (raise_best now el e), snd (raise_best now el e))"
proof (cases "sort_key candidate_rank el")
  case Nil
  then show ?thesis by (simp add: raise_best_def delivers_refl)
next
  case (Cons c cs)
  then have "c \<in> set el" by (metis list.set_intros(1) set_sort)
  then have c: "candidate_ok (en_config e) c" by (rule assms)
  let ?k = "make_card (en_config e) c now now"
  have k: "ac_key ?k = ca_key c" by (simp add: make_card_def)
  let ?e = "e\<lparr>en_pending := bt_remove (ca_key c) (en_pending e),
      en_last_emitted := bt_insert (ca_key c) (now, ca_severity c) (en_last_emitted e),
      en_last_global_raise_ms := Some now, en_active := bt_insert (ca_key c) ?k (en_active e)\<rparr>"
  have "delivers (ev, e) (ev @ [Raised ?k], ?e)"
    using make_card_ok [OF c, of now now] k
    by (intro deliversI) (auto simp: cards_ok_def maps_ok_def bt.wf_insert bt.get_insert bt_wf_remove view_def fun_eq_iff)
  then show ?thesis using Cons by (simp add: raise_best_def Let_def delivers_refl)
qed

end
