(* ===== verification/Coach_History.thy ===== *)
theory Coach_History
  imports Coach_Lifecycle
begin

text \<open>
  Whole analyses and histories of them. A closed form of each loop gives the maps after an analysis
  from those before it, and the invariant of the engine follows phase by phase.
\<close>

section \<open>Fields the phases leave alone\<close>

definition same_clock :: "advice_engine \<Rightarrow> advice_engine \<Rightarrow> bool" where
  "same_clock e e' \<longleftrightarrow>
     en_config e' = en_config e \<and> en_match_id e' = en_match_id e \<and> en_last_sequence e' = en_last_sequence e \<and>
     en_last_game_tick e' = en_last_game_tick e \<and> en_last_analyzed_ms e' = en_last_analyzed_ms e \<and>
     en_last_global_raise_ms e' = en_last_global_raise_ms e"

lemma same_clock_refl [simp]: "same_clock e e" by (simp add: same_clock_def)

lemma same_clock_trans: "same_clock e e' \<Longrightarrow> same_clock e' e'' \<Longrightarrow> same_clock e e''"
  by (simp add: same_clock_def)

lemma same_clock_fold: "(\<And>a x. same_clock (snd x) (snd (f a x))) \<Longrightarrow> same_clock (snd x) (snd (fold f as x))"
proof (induction as arbitrary: x)
  case (Cons a as)
  show ?case using same_clock_trans [OF Cons.prems Cons.IH [OF Cons.prems]] by simp
qed simp

lemma fold_field: "(\<And>a x. g (snd (f a x)) = g (snd x)) \<Longrightarrow> g (snd (fold f as x)) = g (snd x)"
  by (induction as arbitrary: x) simp_all

lemma retract_category_clock:
  "same_clock e (snd (retract_category cat st e))" "en_pending (snd (retract_category cat st e)) = en_pending e"
  "en_last_emitted (snd (retract_category cat st e)) = en_last_emitted e"
  by (simp_all add: retract_category_def same_clock_def Let_def)

lemma resolve_key_clock:
  "same_clock (snd x) (snd (resolve_key present now k x))"
  "en_pending (snd (resolve_key present now k x)) = en_pending (snd x)"
  "en_last_emitted (snd (resolve_key present now k x)) = en_last_emitted (snd x)"
  by (cases x; simp add: resolve_key_def same_clock_def Let_def split: option.splits)+

lemma refresh_candidate_clock:
  "same_clock (snd x) (snd (refresh_candidate now c x))"
  "en_pending (snd (refresh_candidate now c x)) = en_pending (snd x)"
  "en_missing (snd (refresh_candidate now c x)) = en_missing (snd x)"
  by (cases x; simp add: refresh_candidate_def same_clock_def Let_def split: option.splits)+

lemma fold_register_clock: "same_clock e (fold (\<lambda>k e. register now e k) ks e)"
  by (induction ks arbitrary: e) (auto simp: register_def same_clock_def)

section \<open>Closed forms\<close>

lemma retract_category_maps:
  assumes "cards_ok e"
  shows "bt_get (en_active (snd (retract_category cat st e))) k =
      (if st \<noteq> Fresh \<and> category_of k = cat then None else bt_get (en_active e) k)"
    "bt_get (en_missing (snd (retract_category cat st e))) k =
      (if st \<noteq> Fresh \<and> category_of k = cat \<and> bt_get (en_active e) k \<noteq> None then None else bt_get (en_missing e) k)"
proof -
  have wf: "bt_wf (en_active e)" using assms by (simp add: cards_ok_def maps_ok_def)
  have "k \<in> fst ` {x \<in> set (en_active e). case x of (k, c) \<Rightarrow> ac_category c = cat} \<longleftrightarrow>
      bt_get (en_active e) k \<noteq> None \<and> category_of k = cat"
  proof -
    have "(k, c) \<in> set (en_active e) \<Longrightarrow> ac_category c = category_of k" for k c
      using assms bt_get_mem [OF wf, of k c] by (simp add: cards_ok_def card_ok_def)
    then show ?thesis using bt_get_mem [OF wf, of k] by (auto simp: image_iff)
  qed
  then show "bt_get (en_active (snd (retract_category cat st e))) k =
      (if st \<noteq> Fresh \<and> category_of k = cat then None else bt_get (en_active e) k)"
    "bt_get (en_missing (snd (retract_category cat st e))) k =
      (if st \<noteq> Fresh \<and> category_of k = cat \<and> bt_get (en_active e) k \<noteq> None then None else bt_get (en_missing e) k)"
    by (auto simp: retract_category_def Let_def bt_get_fold_remove)
qed

text \<open>When a card that is no longer proposed goes.\<close>

definition missing_since :: "u64 \<Rightarrow> advice_engine \<Rightarrow> advice_key \<Rightarrow> u64" where
  "missing_since now e k = (case bt_get (en_missing e) k of Some m \<Rightarrow> first_missing_ms m | None \<Rightarrow> now)"

definition card_expired :: "u64 \<Rightarrow> advice_engine \<Rightarrow> advice_key \<Rightarrow> bool" where
  "card_expired now e k \<longleftrightarrow> (\<exists>c. bt_get (en_active e) k = Some c \<and> ac_expires_at_ms c \<le> now)"

definition gone :: "advice_key list \<Rightarrow> u64 \<Rightarrow> advice_engine \<Rightarrow> advice_key \<Rightarrow> bool" where
  "gone present now e k \<longleftrightarrow> k \<notin> set present \<and>
     (cc_resolve_hysteresis_ms (en_config e) \<le> saturating_sub now (missing_since now e k) \<or> card_expired now e k)"

lemma resolve_key_maps:
  assumes "maps_ok e"
  shows "bt_get (en_active (snd (resolve_key present now k (ev, e)))) k' =
      (if k' = k \<and> gone present now e k then None else bt_get (en_active e) k')"
    "bt_get (en_missing (snd (resolve_key present now k (ev, e)))) k' =
      (if k' = k then (if k \<in> set present \<or> gone present now e k then None
         else Some \<lparr>first_missing_ms = missing_since now e k\<rparr>) else bt_get (en_missing e) k')"
    "maps_ok (snd (resolve_key present now k (ev, e)))"
  using assms
  by (auto simp: resolve_key_def gone_def missing_since_def card_expired_def maps_ok_def Let_def bt_get_remove
      bt.get_insert bt_wf_remove bt_wf_insert split: option.splits)

lemma fold_resolve_maps:
  assumes "maps_ok e" "distinct ks" "e' = snd (fold (resolve_key present now) ks (ev, e))"
  shows "bt_get (en_active e') k = (if k \<in> set ks \<and> gone present now e k then None else bt_get (en_active e) k) \<and>
    bt_get (en_missing e') k =
      (if k \<in> set ks then (if k \<in> set present \<or> gone present now e k then None
         else Some \<lparr>first_missing_ms = missing_since now e k\<rparr>) else bt_get (en_missing e) k) \<and> maps_ok e'"
  using assms
proof (induction ks arbitrary: ev e)
  case (Cons a ks)
  obtain ev1 e1 where x: "resolve_key present now a (ev, e) = (ev1, e1)" by fastforce
  note m = resolve_key_maps [OF Cons.prems(1), of present now a ev, unfolded x snd_conv]
  have cfg: "en_config e1 = en_config e" using resolve_key_clock(1) [of "(ev, e)" present now a] x by (simp add: same_clock_def)
  have g: "gone present now e1 k = gone present now e k" "missing_since now e1 k = missing_since now e k" if "k \<noteq> a" for k
    using that m cfg by (simp_all add: gone_def missing_since_def card_expired_def)
  show ?case
    using Cons.IH [OF m(3) _ Cons.prems(3) [unfolded fold_simps x]] Cons.prems(2) m(1,2) [of k] g [of k] x by (cases "k = a") auto
qed simp

section \<open>The phases of an accepted analysis\<close>

definition now_of :: "telemetry_snapshot \<Rightarrow> u64" where "now_of s = sm_analyzed_at_ms (ts_meta s)"

definition keys_of :: "coach_config \<Rightarrow> telemetry_snapshot \<Rightarrow> advice_key list" where
  "keys_of cfg s = map ca_key (candidates cfg s)"

definition optional_phase :: "telemetry_snapshot \<Rightarrow> advice_engine \<Rightarrow> advice_event list \<times> advice_engine" where
  "optional_phase s e = retract_unavailable_optional_sources s (record_valid_position s e)"

definition resolve_phase :: "telemetry_snapshot \<Rightarrow> advice_engine \<Rightarrow> advice_event list \<times> advice_engine" where
  "resolve_phase s e =
     (let (ev, e') = resolve_absent (keys_of (en_config e) s) (now_of s) e
      in (ev, e'\<lparr>en_pending := bt_retain (\<lambda>k. k \<in> set (keys_of (en_config e) s)) (en_pending e')\<rparr>))"

definition refresh_phase :: "telemetry_snapshot \<Rightarrow> advice_engine \<Rightarrow> advice_event list \<times> advice_engine" where
  "refresh_phase s e = fold (refresh_candidate (now_of s)) (candidates (en_config e) s) ([], e)"

definition raise_phase :: "telemetry_snapshot \<Rightarrow> advice_engine \<Rightarrow> advice_event list \<times> advice_engine" where
  "raise_phase s e =
     raise_best (now_of s) (filter (may_raise (now_of s) e) (candidates (en_config e) s))
       (fold (\<lambda>k e. register (now_of s) e k) (keys_of (en_config e) s) e)"

lemma optional_phase_clock:
  "en_config (snd (optional_phase s e)) = en_config e" "en_match_id (snd (optional_phase s e)) = en_match_id e"
  "en_last_analyzed_ms (snd (optional_phase s e)) = Some (now_of s)" "en_pending (snd (optional_phase s e)) = en_pending e"
  "en_last_global_raise_ms (snd (optional_phase s e)) = en_last_global_raise_ms e"
  "en_last_emitted (snd (optional_phase s e)) = en_last_emitted e"
  using retract_category_clock unfolding optional_phase_def retract_unavailable_optional_sources_def
  by (simp_all add: Let_def case_prod_beta same_clock_def record_valid_position_def now_of_def)

lemma resolve_phase_clock:
  "same_clock e (snd (resolve_phase s e))" "en_last_emitted (snd (resolve_phase s e)) = en_last_emitted e"
  "en_pending (snd (resolve_phase s e)) = bt_retain (\<lambda>k. k \<in> set (keys_of (en_config e) s)) (en_pending e)"
proof -
  note f = same_clock_fold [of "resolve_key (keys_of (en_config e) s) (now_of s)", OF resolve_key_clock(1), of "([], e)"]
    fold_field [of en_pending "resolve_key (keys_of (en_config e) s) (now_of s)", OF resolve_key_clock(2), of _ "([], e)"]
    fold_field [of en_last_emitted "resolve_key (keys_of (en_config e) s) (now_of s)", OF resolve_key_clock(3), of _ "([], e)"]
  then show "same_clock e (snd (resolve_phase s e))" "en_last_emitted (snd (resolve_phase s e)) = en_last_emitted e"
    "en_pending (snd (resolve_phase s e)) = bt_retain (\<lambda>k. k \<in> set (keys_of (en_config e) s)) (en_pending e)"
    unfolding resolve_phase_def resolve_absent_def
    by (simp_all add: case_prod_beta same_clock_def)
qed

lemma refresh_phase_clock:
  "same_clock e (snd (refresh_phase s e))" "en_pending (snd (refresh_phase s e)) = en_pending e"
  "en_missing (snd (refresh_phase s e)) = en_missing e"
proof -
  note f = same_clock_fold [of "refresh_candidate (now_of s)", OF refresh_candidate_clock(1), of "([], e)"]
    fold_field [of en_pending "refresh_candidate (now_of s)", OF refresh_candidate_clock(2), of _ "([], e)"]
    fold_field [of en_missing "refresh_candidate (now_of s)", OF refresh_candidate_clock(3), of _ "([], e)"]
  then show "same_clock e (snd (refresh_phase s e))" "en_pending (snd (refresh_phase s e)) = en_pending e"
    "en_missing (snd (refresh_phase s e)) = en_missing e"
    by (simp_all add: refresh_phase_def)
qed

lemmas phase_defs = optional_phase_def resolve_phase_def refresh_phase_def raise_phase_def

lemma phases_deliver:
  "delivers ([], e) (optional_phase s e)" "delivers ([], e) (resolve_phase s e)" "delivers ([], e) (refresh_phase s e)"
  "delivers ([], e) (raise_phase s e)"
proof -
  have "delivers ([], e) ([], record_valid_position s e)"
    by (rule delivers_other [OF delivers_refl]) (simp_all add: record_valid_position_def maps_ok_def)
  then show "delivers ([], e) (optional_phase s e)"
    unfolding optional_phase_def using retract_unavailable_delivers by (rule delivers_trans)
  obtain ev e' where r: "resolve_absent (keys_of (en_config e) s) (now_of s) e = (ev, e')" by fastforce
  then have d: "delivers ([], e) (ev, e')" using resolve_absent_delivers [of e] by metis
  have "delivers ([], e) (ev, e'\<lparr>en_pending := bt_retain p (en_pending e')\<rparr>)" for p
    by (rule delivers_other [OF d]) (simp_all add: maps_ok_def bt_wf_retain)
  then show "delivers ([], e) (resolve_phase s e)" by (simp add: resolve_phase_def r)
  show "delivers ([], e) (refresh_phase s e)"
    unfolding refresh_phase_def by (rule refresh_all_delivers) (simp_all add: candidates_ok)
  let ?r = "fold (\<lambda>k e. register (now_of s) e k) (keys_of (en_config e) s) e"
  have "delivers ([], e) ([], ?r)"
    using fold_register_pending [of e]
    by (intro delivers_other [OF delivers_refl]) (simp_all add: fold_register_fields maps_ok_def)
  also have "delivers ([], ?r) ([] @ fst (raise_phase s e), snd (raise_phase s e))"
    unfolding raise_phase_def by (rule raise_best_delivers) (auto simp: fold_register_fields dest: candidates_ok)
  finally show "delivers ([], e) (raise_phase s e)" by simp
qed

lemma analyze_phases:
  assumes "change_match s e0 = (ev1, e1)" "gate e1 s = None" "cards_ok e1"
    and 2: "optional_phase s e1 = (ev2, e2)" and 3: "resolve_phase s e2 = (ev3, e3)"
    and 5: "refresh_phase s e3 = (ev5, e5)" and 7: "raise_phase s e5 = (ev7, e7)"
  shows "analyze s e0 =
    (\<lparr>ab_active = ranked_active e7, ab_events = ev1 @ ev2 @ ev3 @ ev5 @ ev7, ab_suppressed = None\<rparr>, e7)"
proof -
  have ok: "cards_ok e2" "cards_ok e3" "cards_ok e5"
    using phases_deliver(1) [of e1 s] phases_deliver(2) [of e2 s] phases_deliver(3) [of e3 s] assms
    by (auto simp: delivers_def)
  have cfg: "en_config e3 = en_config e2" "en_config e5 = en_config e2"
    using resolve_phase_clock(1) [of e2 s] refresh_phase_clock(1) [of e3 s] 3 5 by (auto simp: same_clock_def)
  obtain e3' where r: "resolve_absent (keys_of (en_config e2) s) (now_of s) e2 = (ev3, e3')"
      "e3 = e3'\<lparr>en_pending := bt_retain (\<lambda>k. k \<in> set (keys_of (en_config e2) s)) (en_pending e3')\<rparr>"
    using 3 by (auto simp: resolve_phase_def split: prod.splits)
  have "bt_wf (en_pending e5)" using ok(3) by (simp add: cards_ok_def maps_ok_def)
  then have c: "fold (consider_candidate (now_of s)) (candidates (en_config e2) s) ([], e5) =
      (filter (may_raise (now_of s) e5) (candidates (en_config e2) s),
       fold (\<lambda>k e. register (now_of s) e k) (keys_of (en_config e2) s) e5)"
    by (simp add: fold_consider keys_of_def)
  show ?thesis
    using assms(1,2) 2 r 5 7 c cfg
    unfolding analyze_def phase_defs now_of_def keys_of_def by (simp add: Let_def)
qed

section \<open>The invariant\<close>

text \<open>How the four maps belong together.\<close>

definition links_ok :: "advice_engine \<Rightarrow> bool" where
  "links_ok e \<longleftrightarrow>
     (\<forall>k. bt_get (en_missing e) k \<noteq> None \<longrightarrow> bt_get (en_active e) k \<noteq> None) \<and>
     (\<forall>k. bt_get (en_pending e) k \<noteq> None \<longrightarrow> bt_get (en_active e) k = None) \<and>
     (\<forall>k c. bt_get (en_active e) k = Some c \<longrightarrow>
        bt_get (en_last_emitted e) k = Some (ac_updated_at_ms c, ac_severity c))"

definition times_le :: "u64 \<Rightarrow> advice_engine \<Rightarrow> bool" where
  "times_le t e \<longleftrightarrow>
     (\<forall>k p. bt_get (en_pending e) k = Some p \<longrightarrow> first_seen_ms p \<le> t) \<and>
     (\<forall>k m. bt_get (en_missing e) k = Some m \<longrightarrow> first_missing_ms m \<le> t) \<and>
     (\<forall>k c. bt_get (en_active e) k = Some c \<longrightarrow> ac_created_at_ms c \<le> ac_updated_at_ms c \<and> ac_updated_at_ms c \<le> t)"

definition unexpired :: "u64 \<Rightarrow> advice_engine \<Rightarrow> bool" where
  "unexpired t e \<longleftrightarrow> (\<forall>k c. bt_get (en_active e) k = Some c \<longrightarrow> t \<le> ac_expires_at_ms c)"

definition coach_inv :: "advice_engine \<Rightarrow> bool" where
  "coach_inv e \<longleftrightarrow> cards_ok e \<and> links_ok e \<and>
     (en_match_id e = None \<longrightarrow> en_active e = [] \<and> en_pending e = [] \<and> en_last_global_raise_ms e = None) \<and>
     (case en_last_analyzed_ms e of
        None \<Rightarrow> en_active e = [] \<and> en_pending e = [] \<and> en_missing e = []
      | Some t \<Rightarrow> times_le t e \<and> unexpired t e)"

definition tidy :: "u64 \<Rightarrow> advice_engine \<Rightarrow> bool" where
  "tidy t e \<longleftrightarrow> cards_ok e \<and> links_ok e \<and> times_le t e"

lemma times_le_mono: "times_le t e \<Longrightarrow> t \<le> t' \<Longrightarrow> times_le t' e"
  unfolding times_le_def by (meson order_trans)

lemma tidy_cards: "tidy t e \<Longrightarrow> cards_ok e" by (simp add: tidy_def)

lemma delivers_cards: "delivers (ev, e) (ev', e') \<Longrightarrow> cards_ok e \<Longrightarrow> cards_ok e'"
  by (auto simp: delivers_def)

lemma retract_category_tidy:
  assumes "tidy t e"
  shows "tidy t (snd (retract_category cat st e))"
proof -
  have c: "cards_ok (snd (retract_category cat st e))"
    using delivers_cards [OF retract_category_delivers] assms by (simp add: tidy_def)
  note m = retract_category_maps [of e, OF tidy_cards [OF assms]] and p = retract_category_clock(2,3) [of cat st e]
  have "links_ok (snd (retract_category cat st e))"
    using assms unfolding tidy_def links_ok_def m p by auto
  moreover have "times_le t (snd (retract_category cat st e))"
    using assms unfolding tidy_def times_le_def m p by auto
  ultimately show ?thesis using c by (simp add: tidy_def)
qed

lemma optional_phase_tidy: "tidy t e \<Longrightarrow> tidy t (snd (optional_phase s e))"
proof -
  assume "tidy t e"
  then have "tidy t (record_valid_position s e)"
    by (auto simp: tidy_def cards_ok_def maps_ok_def links_ok_def times_le_def record_valid_position_def)
  then show ?thesis
    unfolding optional_phase_def retract_unavailable_optional_sources_def Let_def case_prod_beta snd_conv
    by (intro retract_category_tidy)
qed

lemma resolve_phase_maps:
  assumes "cards_ok e"
  shows "bt_get (en_active (snd (resolve_phase s e))) k =
      (if gone (keys_of (en_config e) s) (now_of s) e k then None else bt_get (en_active e) k)"
    "bt_get (en_missing (snd (resolve_phase s e))) k =
      (if bt_get (en_active e) k = None then bt_get (en_missing e) k
       else if k \<in> set (keys_of (en_config e) s) \<or> gone (keys_of (en_config e) s) (now_of s) e k then None
       else Some \<lparr>first_missing_ms = missing_since (now_of s) e k\<rparr>)"
proof -
  have m: "maps_ok e" and wf: "bt_wf (en_active e)" using assms by (simp_all add: cards_ok_def maps_ok_def)
  have d: "distinct (bt_keys (en_active e))" "k \<in> set (bt_keys (en_active e)) \<longleftrightarrow> bt_get (en_active e) k \<noteq> None"
    using wf bt.distinct_keys bt.set_keys [OF wf] by auto
  show "bt_get (en_active (snd (resolve_phase s e))) k =
      (if gone (keys_of (en_config e) s) (now_of s) e k then None else bt_get (en_active e) k)"
    "bt_get (en_missing (snd (resolve_phase s e))) k =
      (if bt_get (en_active e) k = None then bt_get (en_missing e) k
       else if k \<in> set (keys_of (en_config e) s) \<or> gone (keys_of (en_config e) s) (now_of s) e k then None
       else Some \<lparr>first_missing_ms = missing_since (now_of s) e k\<rparr>)"
    using fold_resolve_maps [OF m d(1) refl, of "keys_of (en_config e) s" "now_of s" "[]" k] d(2)
    by (auto simp: resolve_phase_def resolve_absent_def case_prod_beta)
qed

lemma resolve_phase_tidy:
  assumes "tidy (now_of s) e"
  shows "tidy (now_of s) (snd (resolve_phase s e))"
proof -
  have e: "cards_ok e" using assms by (rule tidy_cards)
  have c: "cards_ok (snd (resolve_phase s e))"
    using phases_deliver(2) [of e s] e by (auto simp: delivers_def)
  note m = resolve_phase_maps [OF e, of s]
  have p: "bt_get (en_pending (snd (resolve_phase s e))) k =
      (if k \<in> set (keys_of (en_config e) s) then bt_get (en_pending e) k else None)" for k
    by (simp add: resolve_phase_clock bt_get_retain)
  have since: "missing_since (now_of s) e k \<le> now_of s" for k
    using assms by (auto simp: tidy_def times_le_def missing_since_def split: option.splits)
  have "links_ok (snd (resolve_phase s e))"
    using assms unfolding tidy_def links_ok_def m p resolve_phase_clock(2) by auto
  moreover have "times_le (now_of s) (snd (resolve_phase s e))"
    using assms since unfolding tidy_def times_le_def m p by auto
  ultimately show ?thesis using c by (simp add: tidy_def)
qed

lemma saturating_add_ge: "a \<le> saturating_add a (b :: 'a::len word)"
proof (cases "unat a + unat b < 2 ^ LENGTH('a)")
  case True
  then show ?thesis by (simp add: saturating_add_def word_le_nat_alt unat_word_ariths)
qed (simp add: saturating_add_def word_n1_ge)

lemma saturating_sub_le_iff:
  "0 < d \<Longrightarrow> d \<le> saturating_sub a b \<longleftrightarrow> unat b + unat (d :: 'a::len word) \<le> unat a"
  by (auto simp: saturating_sub_def word_le_nat_alt word_less_nat_alt unat_sub_if')

text \<open>Refreshing keeps the keys, and gives every card it touches a new expiry.\<close>

lemma refresh_candidate_tidy:
  assumes "tidy now e" "candidate_ok (en_config e) c"
  shows "tidy now (snd (refresh_candidate now c (ev, e)))"
proof -
  have ok: "cards_ok (snd (refresh_candidate now c (ev, e)))"
    using refresh_candidate_delivers [of "(ev, e)" c now] assms by (auto simp: delivers_def tidy_def)
  have wf: "bt_wf (en_active e)" "bt_wf (en_last_emitted e)"
    using assms(1) by (simp_all add: tidy_def cards_ok_def maps_ok_def)
  show ?thesis
  proof (cases rule: refresh_candidate_cases [of e c now ev])
    case absent
    then show ?thesis using assms by simp
  next
    case (kept old)
    have "links_ok (snd (refresh_candidate now c (ev, e)))"
      using assms(1) kept wf unfolding tidy_def links_ok_def by (auto simp: kept_card_def bt.get_insert)
    moreover have "times_le now (snd (refresh_candidate now c (ev, e)))"
      using assms(1) kept wf unfolding tidy_def times_le_def by (auto simp: kept_card_def make_card_def bt.get_insert)
    ultimately show ?thesis using ok by (simp add: tidy_def)
  next
    case (updated old)
    have "links_ok (snd (refresh_candidate now c (ev, e)))"
      using assms(1) updated wf unfolding tidy_def links_ok_def by (auto simp: make_card_def bt.get_insert)
    moreover have "times_le now (snd (refresh_candidate now c (ev, e)))"
      using assms(1) updated wf unfolding tidy_def times_le_def
      by (auto simp: make_card_def bt.get_insert) (meson order_trans)
    ultimately show ?thesis using ok by (simp add: tidy_def)
  qed
qed

lemma refresh_candidate_active:
  assumes "bt_wf (en_active e)" "bt_get (en_active (snd (refresh_candidate now c (ev, e)))) k = Some new"
  shows "(if k = ca_key c then now \<le> ac_expires_at_ms new else bt_get (en_active e) k = Some new)"
  using assms(2) saturating_add_ge
  by (cases rule: refresh_candidate_cases [of e c now ev])
    (auto simp: bt.get_insert assms(1) kept_card_def make_card_def split: if_splits)

lemma fold_refresh_tidy:
  assumes "tidy now e" "\<And>c. c \<in> set cs \<Longrightarrow> candidate_ok (en_config e) c"
    "\<And>k c. bt_get (en_active e) k = Some c \<Longrightarrow> k \<in> ca_key ` set cs \<or> now \<le> ac_expires_at_ms c"
  shows "tidy now (snd (fold (refresh_candidate now) cs (ev, e))) \<and> unexpired now (snd (fold (refresh_candidate now) cs (ev, e)))"
  using assms
proof (induction cs arbitrary: ev e)
  case (Cons c cs)
  obtain ev' e' where e': "refresh_candidate now c (ev, e) = (ev', e')" by fastforce
  have wf: "bt_wf (en_active e)" using Cons.prems(1) by (simp add: tidy_def cards_ok_def maps_ok_def)
  have "tidy now e'" using refresh_candidate_tidy [OF Cons.prems(1), of c ev] Cons.prems(2) e' by simp
  moreover have "en_config e' = en_config e"
    using refresh_candidate_clock(1) [of "(ev, e)" now c] e' by (simp add: same_clock_def)
  moreover have "k \<in> ca_key ` set cs \<or> now \<le> ac_expires_at_ms d" if "bt_get (en_active e') k = Some d" for k d
    using refresh_candidate_active [OF wf, of now c ev k d] that e' Cons.prems(3) [of k d] by (auto split: if_splits)
  ultimately show ?case using Cons.IH [of e' ev'] Cons.prems(2) by (auto simp: e')
qed (auto simp: unexpired_def)

lemma refresh_phase_tidy:
  assumes "tidy (now_of s) e"
    "\<And>k c. bt_get (en_active e) k = Some c \<Longrightarrow> k \<in> set (keys_of (en_config e) s) \<or> now_of s \<le> ac_expires_at_ms c"
  shows "tidy (now_of s) (snd (refresh_phase s e))" "unexpired (now_of s) (snd (refresh_phase s e))"
  using fold_refresh_tidy [OF assms(1), of "candidates (en_config e) s" "[]"] assms(2) candidates_ok
  by (auto simp: refresh_phase_def keys_of_def)

text \<open>What raising does: nothing, or one card with its bookkeeping.\<close>

lemma raise_phase_cases:
  obtains (quiet) "raise_phase s e = ([], fold (\<lambda>k e. register (now_of s) e k) (keys_of (en_config e) s) e)"
  | (raise) c where "c \<in> set (candidates (en_config e) s)" "may_raise (now_of s) e c" "global_ready (now_of s) e"
      "raise_phase s e =
        ([Raised (make_card (en_config e) c (now_of s) (now_of s))],
         let r = fold (\<lambda>k e. register (now_of s) e k) (keys_of (en_config e) s) e
         in r\<lparr>en_pending := bt_remove (ca_key c) (en_pending r),
              en_last_emitted := bt_insert (ca_key c) (now_of s, ca_severity c) (en_last_emitted e),
              en_last_global_raise_ms := Some (now_of s),
              en_active := bt_insert (ca_key c) (make_card (en_config e) c (now_of s) (now_of s)) (en_active e)\<rparr>)"
proof (cases "sort_key candidate_rank (filter (may_raise (now_of s) e) (candidates (en_config e) s))")
  case Nil
  then show thesis by (intro quiet) (simp add: raise_phase_def raise_best_def)
next
  case (Cons c cs)
  let ?r = "fold (\<lambda>k e. register (now_of s) e k) (keys_of (en_config e) s) e"
  have g: "global_ready (now_of s) ?r = global_ready (now_of s) e"
    unfolding global_ready_def fold_register_fields ..
  from Cons have "c \<in> set (filter (may_raise (now_of s) e) (candidates (en_config e) s))"
    by (metis list.set_intros(1) set_sort)
  then have c: "c \<in> set (candidates (en_config e) s)" "may_raise (now_of s) e c" by simp_all
  show thesis
  proof (cases "global_ready (now_of s) e")
    case True
    then show thesis
      by (intro raise [OF c]) (simp_all add: raise_phase_def raise_best_def Cons g Let_def fold_register_fields)
  next
    case False
    then show thesis by (intro quiet) (simp add: raise_phase_def raise_best_def Cons g)
  qed
qed

lemma raise_phase_tidy:
  assumes "tidy (now_of s) e" "unexpired (now_of s) e"
  shows "tidy (now_of s) (snd (raise_phase s e))" "unexpired (now_of s) (snd (raise_phase s e))"
proof -
  let ?r = "fold (\<lambda>k e. register (now_of s) e k) (keys_of (en_config e) s) e"
  have c: "cards_ok (snd (raise_phase s e))"
    using phases_deliver(4) [of e s] assms(1) by (auto simp: delivers_def tidy_def)
  have wf: "bt_wf (en_pending e)" "bt_wf (en_active e)" "bt_wf (en_last_emitted e)"
    using assms(1) by (simp_all add: tidy_def cards_ok_def maps_ok_def)
  note p = conjunct2 [OF fold_register_pending [OF wf(1)]] and f = fold_register_fields
  have "links_ok (snd (raise_phase s e)) \<and> times_le (now_of s) (snd (raise_phase s e)) \<and> unexpired (now_of s) (snd (raise_phase s e))"
  proof (cases rule: raise_phase_cases [of s e])
    case quiet
    then show ?thesis
      using assms unfolding tidy_def links_ok_def times_le_def unexpired_def quiet by (auto simp: f p)
  next
    case (raise d)
    then show ?thesis
      using assms saturating_add_ge [of "now_of s"] unfolding tidy_def links_ok_def times_le_def unexpired_def raise(4)
      by (auto simp: Let_def f p bt.get_insert wf bt_get_remove make_card_def may_raise_def split: if_splits)
  qed
  then show "tidy (now_of s) (snd (raise_phase s e))" "unexpired (now_of s) (snd (raise_phase s e))"
    using c by (simp_all add: tidy_def)
qed

section \<open>Histories\<close>

text \<open>
  A history is the list of analysed snapshots, each with the batch it gave, from a new engine on; the
  engine is in the state after the last of them.
\<close>

inductive coach_history :: "coach_config \<Rightarrow> (telemetry_snapshot \<times> advice_batch) list \<Rightarrow> advice_engine \<Rightarrow> bool"
  for cfg where
  history_new: "coach_history cfg [] (engine_new cfg)"
| history_analyze: "coach_history cfg log e \<Longrightarrow> analyze s e = (b, e') \<Longrightarrow> coach_history cfg (log @ [(s, b)]) e'"

inductive_cases history_snocE: "coach_history cfg (log @ [(s, b)]) e"

lemma coach_history_snoc:
  "coach_history cfg (log @ [(s, b)]) e' \<longleftrightarrow> (\<exists>e. coach_history cfg log e \<and> analyze s e = (b, e'))"
  by (auto elim: history_snocE intro: history_analyze)

lemma change_match_cases:
  assumes "change_match s e = (ev, e')"
  obtains (first) "en_match_id e = None" "ev = []" "e' = e\<lparr>en_match_id := Some (sm_match_id (ts_meta s))\<rparr>"
  | (same) "en_match_id e = Some (sm_match_id (ts_meta s))" "ev = []" "e' = e"
  | (changed) "ev = map (\<lambda>k. Retracted k MatchChanged) (bt_keys (en_active e))"
      "e' = \<lparr>en_config = en_config e, en_match_id = Some (sm_match_id (ts_meta s)), en_last_sequence = None,
         en_last_game_tick = None, en_last_analyzed_ms = None, en_last_global_raise_ms = None, en_pending = [],
         en_missing = [], en_active = [], en_last_emitted = []\<rparr>"
proof (cases "en_match_id e")
  case None
  then show thesis using assms by (intro first) (simp_all add: change_match_def)
next
  case (Some m)
  show thesis
  proof (cases "m = sm_match_id (ts_meta s)")
    case True
    then show thesis using assms Some by (intro same) (simp_all add: change_match_def)
  next
    case False
    then show thesis using assms Some by (intro changed) (cases e; auto simp: change_match_def retract_all_def)+
  qed
qed

lemma change_match_inv:
  assumes "coach_inv e" "change_match s e = (ev, e')"
  shows "coach_inv e'" "en_match_id e' = Some (sm_match_id (ts_meta s))" "en_config e' = en_config e"
    "en_match_id e = Some (sm_match_id (ts_meta s)) \<and> e' = e \<or> en_pending e' = [] \<and> en_last_global_raise_ms e' = None"
proof -
  from assms(2) have "coach_inv e' \<and> en_match_id e' = Some (sm_match_id (ts_meta s)) \<and> en_config e' = en_config e \<and>
    (en_match_id e = Some (sm_match_id (ts_meta s)) \<and> e' = e \<or> en_pending e' = [] \<and> en_last_global_raise_ms e' = None)"
  proof (cases rule: change_match_cases)
    case first
    then show ?thesis
      using assms(1) by (auto simp: coach_inv_def cards_ok_def maps_ok_def links_ok_def times_le_def unexpired_def
          split: option.splits)
  qed (use assms(1) in \<open>simp_all add: coach_inv_def cards_ok_def maps_ok_def links_ok_def\<close>)
  then show "coach_inv e'" "en_match_id e' = Some (sm_match_id (ts_meta s))" "en_config e' = en_config e"
    "en_match_id e = Some (sm_match_id (ts_meta s)) \<and> e' = e \<or> en_pending e' = [] \<and> en_last_global_raise_ms e' = None"
    by blast+
qed

lemma analyze_suppressed:
  assumes "change_match s e = (ev1, e1)" "gate e1 s = Some r"
  shows "analyze s e = (\<lparr>ab_active = [], ab_events = ev1 @ map (\<lambda>k. Retracted k (DataQuality r)) (bt_keys (en_active e1)),
      ab_suppressed = Some r\<rparr>, record_position s r (e1\<lparr>en_active := [], en_pending := [], en_missing := []\<rparr>))"
  using assms by (simp add: analyze_def Let_def retract_all_def)

lemma gate_time: "gate e s = None \<Longrightarrow> en_last_analyzed_ms e = Some t \<Longrightarrow> t \<le> now_of s"
  by (auto simp: gate_def now_of_def Let_def not_less split: if_splits)

text \<open>The course of an analysis: suppressed, or through the four phases.\<close>

lemma analyze_cases:
  assumes inv: "coach_inv e"
  obtains (suppressed) ev1 e1 r where "change_match s e = (ev1, e1)" "gate e1 s = Some r" "coach_inv e1"
      "analyze s e = (\<lparr>ab_active = [], ab_events = ev1 @ map (\<lambda>k. Retracted k (DataQuality r)) (bt_keys (en_active e1)),
          ab_suppressed = Some r\<rparr>, record_position s r (e1\<lparr>en_active := [], en_pending := [], en_missing := []\<rparr>))"
  | (accepted) ev1 e1 ev2 e2 ev3 e3 ev5 e5 ev7 e7 where "change_match s e = (ev1, e1)" "gate e1 s = None" "coach_inv e1"
      "optional_phase s e1 = (ev2, e2)" "resolve_phase s e2 = (ev3, e3)" "refresh_phase s e3 = (ev5, e5)"
      "raise_phase s e5 = (ev7, e7)" "tidy (now_of s) e2" "tidy (now_of s) e3" "tidy (now_of s) e5" "unexpired (now_of s) e5"
      "analyze s e = (\<lparr>ab_active = ranked_active e7, ab_events = ev1 @ ev2 @ ev3 @ ev5 @ ev7, ab_suppressed = None\<rparr>, e7)"
proof -
  obtain ev1 e1 where 1: "change_match s e = (ev1, e1)" by fastforce
  have inv1: "coach_inv e1" using change_match_inv(1) [OF inv 1] .
  show thesis
  proof (cases "gate e1 s")
    case (Some r)
    then show thesis using suppressed [OF 1 Some inv1 analyze_suppressed [OF 1 Some]] by simp
  next
    case None
    obtain ev2 e2 where 2: "optional_phase s e1 = (ev2, e2)" by fastforce
    obtain ev3 e3 where 3: "resolve_phase s e2 = (ev3, e3)" by fastforce
    obtain ev5 e5 where 5: "refresh_phase s e3 = (ev5, e5)" by fastforce
    obtain ev7 e7 where 7: "raise_phase s e5 = (ev7, e7)" by fastforce
    have "times_le (now_of s) e1"
    proof (cases "en_last_analyzed_ms e1")
      case (Some t)
      then show ?thesis using inv1 times_le_mono [OF _ gate_time [OF None Some]] by (simp add: coach_inv_def)
    qed (use inv1 in \<open>simp add: coach_inv_def times_le_def\<close>)
    then have "tidy (now_of s) e1" using inv1 by (simp add: tidy_def coach_inv_def)
    then have t2: "tidy (now_of s) e2" using optional_phase_tidy [of "now_of s" e1 s] 2 by simp
    then have t3: "tidy (now_of s) e3" using resolve_phase_tidy [of s e2] 3 by simp
    have cfg: "en_config e3 = en_config e2" using resolve_phase_clock(1) [of e2 s] 3 by (simp add: same_clock_def)
    have "k \<in> set (keys_of (en_config e3) s) \<or> now_of s \<le> ac_expires_at_ms c"
      if "bt_get (en_active e3) k = Some c" for k c
    proof -
      have "bt_get (en_active e2) k = Some c" "\<not> gone (keys_of (en_config e2) s) (now_of s) e2 k"
        using that resolve_phase_maps(1) [OF tidy_cards [OF t2], of s k] 3 by (simp_all split: if_splits)
      then show ?thesis using linear [of "now_of s" "ac_expires_at_ms c"] by (auto simp: cfg gone_def card_expired_def)
    qed
    then have t5: "tidy (now_of s) e5" "unexpired (now_of s) e5" using refresh_phase_tidy [OF t3] 5 by auto
    have "cards_ok e1" using inv1 by (simp add: coach_inv_def)
    from accepted [OF 1 None inv1 2 3 5 7 t2 t3 t5 analyze_phases [OF 1 None this 2 3 5 7]] show thesis .
  qed
qed

text \<open>The fields an accepted analysis changes only when it raises.\<close>

lemma accepted_clock:
  assumes "optional_phase s e1 = (ev2, e2)" "resolve_phase s e2 = (ev3, e3)" "refresh_phase s e3 = (ev5, e5)"
  shows "en_config e5 = en_config e1" "en_match_id e5 = en_match_id e1" "en_last_analyzed_ms e5 = Some (now_of s)"
    "en_last_global_raise_ms e5 = en_last_global_raise_ms e1"
    "bt_get (en_pending e5) k = (if k \<in> set (keys_of (en_config e1) s) then bt_get (en_pending e1) k else None)"
  using optional_phase_clock [where s = s and e = e1] resolve_phase_clock [where s = s and e = e2]
    refresh_phase_clock [where s = s and e = e3] assms
  by (simp_all add: same_clock_def bt_get_retain)

lemma raise_phase_clock:
  "en_config (snd (raise_phase s e)) = en_config e" "en_match_id (snd (raise_phase s e)) = en_match_id e"
  "en_last_analyzed_ms (snd (raise_phase s e)) = en_last_analyzed_ms e"
  by (cases rule: raise_phase_cases [of s e]; simp add: fold_register_fields Let_def)+

lemma analyze_clock:
  assumes "coach_inv e" "analyze s e = (b, e')"
  shows "en_config e' = en_config e" "en_match_id e' = Some (sm_match_id (ts_meta s))"
proof -
  from assms(1) have "en_config e' = en_config e \<and> en_match_id e' = Some (sm_match_id (ts_meta s))"
  proof (cases rule: analyze_cases [where s = s])
    case (suppressed ev1 e1 r)
    then show ?thesis
      using change_match_inv(2,3) [OF assms(1) suppressed(1)] assms(2)
      by (auto simp: record_position_def record_valid_position_def)
  next
    case (accepted ev1 e1 ev2 e2 ev3 e3 ev5 e5 ev7 e7)
    then show ?thesis
      using change_match_inv(2,3) [OF assms(1) accepted(1)] accepted_clock(1,2) [OF accepted(4-6)]
        raise_phase_clock [of s e5] assms(2) by auto
  qed
  then show "en_config e' = en_config e" "en_match_id e' = Some (sm_match_id (ts_meta s))" by auto
qed

lemma analyze_inv:
  assumes "coach_inv e" "analyze s e = (b, e')"
  shows "coach_inv e'"
  using assms(1)
proof (cases rule: analyze_cases [where s = s])
  case (suppressed ev1 e1 r)
  then show ?thesis
    using assms(2)
    by (auto simp: coach_inv_def cards_ok_def maps_ok_def links_ok_def times_le_def unexpired_def record_position_def
        record_valid_position_def split: option.splits)
next
  case (accepted ev1 e1 ev2 e2 ev3 e3 ev5 e5 ev7 e7)
  have "en_last_analyzed_ms e7 = Some (now_of s)" "e7 = e'"
    using accepted_clock(3) [OF accepted(4-6)] raise_phase_clock(3) [of s e5] accepted(7,12) assms(2) by auto
  then show ?thesis
    using raise_phase_tidy [OF accepted(10,11)] accepted(7) analyze_clock(2) [OF assms]
    by (simp add: coach_inv_def tidy_def)
qed

lemma history_inv: "coach_history cfg log e \<Longrightarrow> coach_inv e"
proof (induction rule: coach_history.induct)
  case history_new
  show ?case by (simp add: coach_inv_def engine_new_def cards_ok_def maps_ok_def links_ok_def)
qed (rule analyze_inv)

lemma history_config: "coach_history cfg log e \<Longrightarrow> en_config e = cfg"
  by (induction rule: coach_history.induct) (auto simp: engine_new_def analyze_clock(1) [OF history_inv])

end
