(* ===== verification/Coach_Properties.thy ===== *)
theory Coach_Properties
  imports Coach_History
begin

text \<open>
  What the coaching engine promises: its invariant, that its events tell a reader exactly what is on
  display, that it is silent on bad data, and that it raises advice only when a condition has lasted,
  and never too often.
\<close>

definition coach_init :: "advice_engine \<Rightarrow> bool" where
  "coach_init e \<longleftrightarrow> (\<exists>cfg. e = engine_new cfg)"

inductive coach_step :: "advice_engine \<Rightarrow> advice_engine \<Rightarrow> bool" where
  step_analyze: "coach_step e (snd (analyze s e))"
| step_reset: "coach_step e (engine_reset e)"

inductive_cases coach_stepE: "coach_step e e'"

lemma coach_inv_new: "coach_inv (engine_new cfg)"
  using history_inv [OF history_new] .

interpretation coach: invariant_rule coach_init coach_step coach_inv
proof
  fix e assume "coach_init e"
  then show "coach_inv e" by (auto simp: coach_init_def coach_inv_new)
next
  fix e e' assume "coach_inv e" "coach_step e e'"
  then show "coach_inv e'"
    by (auto elim!: coach_stepE simp: engine_reset_def coach_inv_new intro: analyze_inv [OF _ prod.collapse [symmetric]])
qed



section \<open>Events\<close>

lemma delivers_view: "delivers ([], e) (d, e') \<Longrightarrow> cards_ok e \<Longrightarrow> view e' = fold apply_event d (view e)"
  by (auto simp: delivers_def)

lemma analyze_view:
  assumes inv: "coach_inv e" and b: "analyze s e = (b, e')"
  shows "view e' = fold apply_event (ab_events b) (view e)" "ab_active b = ranked_active e'"
proof -
  have e: "cards_ok e" using inv by (simp add: coach_inv_def)
  have "view e' = fold apply_event (ab_events b) (view e) \<and> ab_active b = ranked_active e'"
    using inv
  proof (cases rule: analyze_cases [where s = s])
    case (suppressed ev1 e1 r)
    have "view e1 = fold apply_event ev1 (view e)"
      using delivers_view [OF change_match_delivers [of e s, unfolded suppressed(1)] e] .
    moreover have "view (record_position s r (e1\<lparr>en_active := [], en_pending := [], en_missing := []\<rparr>)) =
        fold apply_event (map (\<lambda>k. Retracted k (DataQuality r)) (bt_keys (en_active e1))) (view e1)"
      using suppressed(3) bt.set_keys [of "en_active e1"]
      by (auto simp: fold_retracted view_def fun_eq_iff coach_inv_def cards_ok_def maps_ok_def record_position_def
          record_valid_position_def)
    ultimately show ?thesis
      using suppressed(4) b
      by (auto simp: ranked_active_def bt_values_def record_position_def record_valid_position_def)
  next
    case (accepted ev1 e1 ev2 e2 ev3 e3 ev5 e5 ev7 e7)
    have "cards_ok e1" "cards_ok e2" "cards_ok e3" "cards_ok e5"
      using accepted by (simp_all add: coach_inv_def tidy_def)
    with delivers_view [OF change_match_delivers [of e s, unfolded accepted(1)] e]
      delivers_view [OF phases_deliver(1) [of e1 s, unfolded accepted(4)]]
      delivers_view [OF phases_deliver(2) [of e2 s, unfolded accepted(5)]]
      delivers_view [OF phases_deliver(3) [of e3 s, unfolded accepted(6)]]
      delivers_view [OF phases_deliver(4) [of e5 s, unfolded accepted(7)]]
    show ?thesis using accepted(12) b by auto
  qed
  then show "view e' = fold apply_event (ab_events b) (view e)" "ab_active b = ranked_active e'" by auto
qed

lemma ranked_active_props:
  assumes "cards_ok e"
  shows "sorted (map card_rank (ranked_active e))" "distinct (map ac_key (ranked_active e))"
    "c \<in> set (ranked_active e) \<longleftrightarrow> bt_get (en_active e) (ac_key c) = Some c"
proof -
  have wf: "bt_wf (en_active e)" using assms by (simp add: cards_ok_def maps_ok_def)
  have k: "(k, c) \<in> set (en_active e) \<Longrightarrow> ac_key c = k" for k c
    using assms bt_get_mem [OF wf, of k c] by (simp add: cards_ok_def card_ok_def)
  show "sorted (map card_rank (ranked_active e))" by (simp add: ranked_active_def)
  have "map ac_key (bt_values (en_active e)) = bt_keys (en_active e)"
    using k by (auto simp: bt_values_def bt_keys_def)
  then have "distinct (map ac_key (bt_values (en_active e)))" using bt.distinct_keys [OF wf] by simp
  then show "distinct (map ac_key (ranked_active e))"
    by (simp add: ranked_active_def distinct_map)
  have "c \<in> set (ranked_active e) \<longleftrightarrow> (\<exists>k. (k, c) \<in> set (en_active e))"
    by (auto simp: ranked_active_def bt_values_def intro: rev_image_eqI)
  also have "\<dots> \<longleftrightarrow> (ac_key c, c) \<in> set (en_active e)" using k by blast
  finally show "c \<in> set (ranked_active e) \<longleftrightarrow> bt_get (en_active e) (ac_key c) = Some c"
    using bt_get_mem [OF wf, of "ac_key c" c] by simp
qed

text \<open>
  C17: A reader who keeps the cards by key and applies the events of each batch in order (a raised or
  updated card replaces the one under its key, a retracted key is removed) holds, after every analysis,
  exactly the cards on display up to their expiry times; and the list of the batch is those cards, each
  key once, ranked by severity, then confidence, then key.
\<close>

theorem coach_events_exact:
  assumes "reach coach_init coach_step e" "analyze s e = (b, e')"
  shows "view e' = fold apply_event (ab_events b) (view e) \<and>
    sorted (map card_rank (ab_active b)) \<and> distinct (map ac_key (ab_active b)) \<and>
    (\<forall>c. c \<in> set (ab_active b) \<longleftrightarrow> bt_get (en_active e') (ac_key c) = Some c)"
proof -
  have inv: "coach_inv e" using assms(1) by (rule coach.reach_inv)
  have "cards_ok e'" using analyze_inv [OF inv assms(2)] by (simp add: coach_inv_def)
  then show ?thesis using analyze_view [OF inv assms(2)] ranked_active_props [of e'] by auto
qed

section \<open>Data quality\<close>

fun is_raised :: "advice_event \<Rightarrow> bool" where
  "is_raised (Raised _) = True"
| "is_raised _ = False"

lemma gate_accepts:
  assumes "gate e s = None"
  shows "sm_completeness (ts_meta s) = Complete \<and> sm_coherent (ts_meta s) \<and> sm_identity (ts_meta s) = Confirmed \<and>
    sm_game_mode (ts_meta s) = SinglePlayer \<and> \<not> sm_paused (ts_meta s) \<and>
    transport_delay s \<le> cc_max_snapshot_age_ms (en_config e) \<and> valid_values s (en_config e)"
proof -
  have i: "sm_identity (ts_meta s) \<noteq> Ambiguous" "sm_identity (ts_meta s) \<noteq> NonHumanIdentity"
    "sm_game_mode (ts_meta s) \<noteq> MultiplayerMode" "sm_game_mode (ts_meta s) \<noteq> UnknownMode"
    and rest: "sm_completeness (ts_meta s) = Complete" "sm_coherent (ts_meta s)" "\<not> sm_paused (ts_meta s)"
    "transport_delay s \<le> cc_max_snapshot_age_ms (en_config e)" "valid_values s (en_config e)"
    using assms by (auto simp: gate_def Let_def not_less split: if_splits)
  then show ?thesis by (cases "sm_identity (ts_meta s)"; cases "sm_game_mode (ts_meta s)") auto
qed

lemma change_match_quiet: "change_match s e = (ev, e') \<Longrightarrow> filter is_raised ev = []"
  by (erule change_match_cases) auto

lemma optional_phase_quiet: "filter is_raised (fst (optional_phase s e)) = []"
  by (auto simp: optional_phase_def retract_unavailable_optional_sources_def retract_category_def Let_def case_prod_beta
      filter_empty_conv)

lemma resolve_phase_quiet: "filter is_raised (fst (resolve_phase s e)) = []"
proof -
  have "filter is_raised (fst (resolve_key present now k x)) = filter is_raised (fst x)" for present now k x
    by (cases x) (simp add: resolve_key_def Let_def)
  then have "filter is_raised (fst (fold (resolve_key present now) ks x)) = filter is_raised (fst x)" for present now ks x
    by (induction ks arbitrary: x) simp_all
  then show ?thesis by (simp add: resolve_phase_def resolve_absent_def case_prod_beta)
qed

lemma refresh_phase_quiet: "filter is_raised (fst (refresh_phase s e)) = []"
proof -
  have "filter is_raised (fst (refresh_candidate now c x)) = filter is_raised (fst x)" for now c x
    by (cases x) (simp add: refresh_candidate_def Let_def split: option.split)
  then have "filter is_raised (fst (fold (refresh_candidate now) cs x)) = filter is_raised (fst x)" for now cs x
    by (induction cs arbitrary: x) simp_all
  then show ?thesis by (simp add: refresh_phase_def)
qed

text \<open>Where a raised card comes from.\<close>

lemma analyze_raises:
  assumes inv: "coach_inv e" and b: "analyze s e = (b, e')"
  obtains (none) "filter is_raised (ab_events b) = []"
      "en_match_id e = Some (sm_match_id (ts_meta s)) \<Longrightarrow> en_last_global_raise_ms e' = en_last_global_raise_ms e"
  | (one) ev1 e1 c where "change_match s e = (ev1, e1)" "ab_suppressed b = None" "c \<in> set (candidates (en_config e) s)"
      "filter is_raised (ab_events b) = [Raised (make_card (en_config e) c (now_of s) (now_of s))]"
      "cc_sustain_ms (en_config e) \<le> saturating_sub (now_of s) (seen_since (now_of s) e1 (ca_key c))"
      "global_ready (now_of s) e1" "en_last_global_raise_ms e' = Some (now_of s)"
  using inv
proof (cases rule: analyze_cases [where s = s])
  case (suppressed ev1 e1 r)
  have "e1 = e" if "en_match_id e = Some (sm_match_id (ts_meta s))"
    using suppressed(1) that by (simp add: change_match_def)
  then show thesis
    using change_match_quiet [OF suppressed(1)] suppressed(4) b
    by (intro none) (auto simp: filter_empty_conv record_position_def record_valid_position_def)
next
  case (accepted ev1 e1 ev2 e2 ev3 e3 ev5 e5 ev7 e7)
  have cfg: "en_config e1 = en_config e" using change_match_inv(3) [OF inv accepted(1)] .
  note clock = accepted_clock [OF accepted(4-6)]
  have quiet: "filter is_raised (ab_events b) = filter is_raised ev7"
    using change_match_quiet [OF accepted(1)] optional_phase_quiet [of s e1] resolve_phase_quiet [of s e2]
      refresh_phase_quiet [of s e3] accepted b by auto
  show thesis
  proof (cases rule: raise_phase_cases [of s e5])
    case quiet_end: quiet
    have "en_last_global_raise_ms e' = en_last_global_raise_ms e1"
      using quiet_end accepted(7,12) b clock(4) by (auto simp: fold_register_fields)
    moreover have "e1 = e" if "en_match_id e = Some (sm_match_id (ts_meta s))"
      using accepted(1) that by (simp add: change_match_def)
    ultimately show thesis using quiet quiet_end accepted(7) by (intro none) auto
  next
    case (raise c)
    have "ca_key c \<in> set (keys_of (en_config e1) s)" using raise(1) clock(1) by (simp add: keys_of_def)
    then have "seen_since (now_of s) e5 (ca_key c) = seen_since (now_of s) e1 (ca_key c)"
      by (simp add: seen_since_def clock(5))
    moreover have "global_ready (now_of s) e1"
      using raise(3) unfolding global_ready_def clock(1,4) .
    ultimately show thesis
      using raise clock(1) cfg quiet accepted(7,12) b
      by (intro one [OF accepted(1)]) (auto simp: may_raise_def Let_def)
  qed
qed

text \<open>
  C20: Advice stays silent on bad data. When an analysis is suppressed nothing is displayed or kept
  waiting afterwards. When a card is displayed or raised, the snapshot is complete, coherent, of a
  confirmed human in an unpaused single-player game, not older than configured, and its values are
  plausible.
\<close>

theorem coach_silent_on_bad_data:
  assumes "reach coach_init coach_step e" "analyze s e = (b, e')"
  shows "(ab_suppressed b \<noteq> None \<longrightarrow> ab_active b = [] \<and> en_active e' = [] \<and> en_pending e' = []) \<and>
    (ab_active b \<noteq> [] \<or> (\<exists>c. Raised c \<in> set (ab_events b)) \<longrightarrow>
       sm_completeness (ts_meta s) = Complete \<and> sm_coherent (ts_meta s) \<and> sm_identity (ts_meta s) = Confirmed \<and>
       sm_game_mode (ts_meta s) = SinglePlayer \<and> \<not> sm_paused (ts_meta s) \<and>
       transport_delay s \<le> cc_max_snapshot_age_ms (en_config e) \<and> valid_values s (en_config e))"
proof -
  have inv: "coach_inv e" using assms(1) by (rule coach.reach_inv)
  from inv show ?thesis
  proof (cases rule: analyze_cases [where s = s])
    case (suppressed ev1 e1 r)
    have "Raised c \<notin> set ev1" for c
      using change_match_quiet [OF suppressed(1)] by (auto simp: filter_empty_conv)
    then show ?thesis
      using suppressed(4) assms(2) by (auto simp: record_position_def record_valid_position_def)
  next
    case (accepted ev1 e1 ev2 e2 ev3 e3 ev5 e5 ev7 e7)
    then show ?thesis
      using gate_accepts [OF accepted(2)] change_match_inv(3) [OF inv accepted(1)] assms(2) by auto
  qed
qed

section \<open>Sustained conditions\<close>

text \<open>
  The analyses since a key began to wait: all accepted, all of the current match, and all proposing it.
\<close>

definition proposed_throughout ::
    "coach_config \<Rightarrow> u64 \<Rightarrow> advice_key \<Rightarrow> (telemetry_snapshot \<times> advice_batch) list \<Rightarrow> bool" where
  "proposed_throughout cfg m k log \<longleftrightarrow>
     (\<forall>(x, b)\<in>set log. ab_suppressed b = None \<and> sm_match_id (ts_meta x) = m \<and> k \<in> set (keys_of cfg x))"

lemma analyze_pending:
  assumes inv: "coach_inv e" and b: "analyze s e = (b, e')" and p: "bt_get (en_pending e') k = Some p"
  shows "ab_suppressed b = None \<and> k \<in> set (keys_of (en_config e) s) \<and>
    (first_seen_ms p = now_of s \<or> bt_get (en_pending e) k = Some p \<and> en_match_id e = Some (sm_match_id (ts_meta s)))"
  using inv
proof (cases rule: analyze_cases [where s = s])
  case (suppressed ev1 e1 r)
  then show ?thesis using b p by (auto simp: record_position_def record_valid_position_def split: if_splits)
next
  case (accepted ev1 e1 ev2 e2 ev3 e3 ev5 e5 ev7 e7)
  have cfg: "en_config e1 = en_config e" using change_match_inv(3) [OF inv accepted(1)] .
  note clock = accepted_clock [OF accepted(4-6)]
  have wf: "bt_wf (en_pending e5)" using accepted(10) by (simp add: tidy_def cards_ok_def maps_ok_def)
  have e7: "e7 = e'" "ab_suppressed b = None" using accepted(12) b by auto
  have "bt_get (en_pending (fold (\<lambda>k e. register (now_of s) e k) (keys_of (en_config e5) s) e5)) k = Some p"
    by (cases rule: raise_phase_cases [of s e5])
      (use accepted(7) e7 p in \<open>auto simp: Let_def bt_get_remove split: if_splits\<close>)
  then have "k \<in> set (keys_of (en_config e) s) \<and> (first_seen_ms p = now_of s \<or> bt_get (en_pending e1) k = Some p)"
    unfolding conjunct2 [OF fold_register_pending [OF wf]] by (auto simp: clock cfg split: if_splits)
  then show ?thesis
    using change_match_inv(4) [OF inv accepted(1)] e7 by auto
qed

lemma history_pending:
  "coach_history cfg log e \<Longrightarrow> bt_get (en_pending e) k = Some p \<Longrightarrow>
   \<exists>pre mid m. log = pre @ mid \<and> mid \<noteq> [] \<and> en_match_id e = Some m \<and> first_seen_ms p = now_of (fst (hd mid)) \<and>
     proposed_throughout cfg m k mid"
proof (induction arbitrary: p rule: coach_history.induct)
  case history_new
  then show ?case by (simp add: engine_new_def)
next
  case (history_analyze log e s b e')
  have inv: "coach_inv e" and cfg: "en_config e = cfg"
    using history_inv history_config history_analyze.hyps(1) by auto
  have m: "en_match_id e' = Some (sm_match_id (ts_meta s))" using analyze_clock(2) [OF inv history_analyze.hyps(2)] .
  have here: "ab_suppressed b = None" "k \<in> set (keys_of cfg s)"
    using analyze_pending [OF inv history_analyze.hyps(2) history_analyze.prems] cfg by auto
  have "first_seen_ms p = now_of s \<or> bt_get (en_pending e) k = Some p \<and> en_match_id e = Some (sm_match_id (ts_meta s))"
    using analyze_pending [OF inv history_analyze.hyps(2) history_analyze.prems] by auto
  then show ?case
  proof
    assume "first_seen_ms p = now_of s"
    then show ?thesis using here m
      by (intro exI [of _ log] exI [of _ "[(s, b)]"]) (simp add: proposed_throughout_def)
  next
    assume old: "bt_get (en_pending e) k = Some p \<and> en_match_id e = Some (sm_match_id (ts_meta s))"
    then obtain pre mid where "log = pre @ mid" "mid \<noteq> []" "first_seen_ms p = now_of (fst (hd mid))"
        "proposed_throughout cfg (sm_match_id (ts_meta s)) k mid"
      using history_analyze.IH [of p] by auto
    then show ?thesis using here m
      by (intro exI [of _ pre] exI [of _ "mid @ [(s, b)]"]) (auto simp: proposed_throughout_def)
  qed
qed

text \<open>
  C18: Advice is raised only for a condition that has lasted. When an analysis raises a card, there is a
  stretch of analyses that ends with it, all of them accepted and of the same match, each of which
  proposed that key, and which is at least as long as the configured time.
\<close>

theorem coach_raise_sustained:
  assumes "coach_history cfg (log @ [(s, b)]) e" "Raised c \<in> set (ab_events b)"
  shows "\<exists>pre mid. log @ [(s, b)] = pre @ mid \<and> mid \<noteq> [] \<and>
    proposed_throughout cfg (sm_match_id (ts_meta s)) (ac_key c) mid \<and>
    cc_sustain_ms cfg \<le> saturating_sub (now_of s) (now_of (fst (hd mid)))"
proof -
  from assms(1) obtain e0 where e0: "coach_history cfg log e0" "analyze s e0 = (b, e)"
    by (auto simp: coach_history_snoc)
  have inv: "coach_inv e0" and cfg: "en_config e0 = cfg" using history_inv history_config e0(1) by auto
  from assms(2) have r: "Raised c \<in> set (filter is_raised (ab_events b))" by simp
  from inv e0(2) show ?thesis
  proof (cases rule: analyze_raises)
    case none
    then show ?thesis using r by simp
  next
    case (one ev1 e1 d)
    have k: "ac_key c = ca_key d" using r one(4) by (auto simp: make_card_def)
    have here: "proposed_throughout cfg (sm_match_id (ts_meta s)) (ca_key d) [(s, b)]"
      using one(2,3) cfg by (simp add: proposed_throughout_def keys_of_def)
    show ?thesis
    proof (cases "bt_get (en_pending e1) (ca_key d)")
      case None
      then have "cc_sustain_ms cfg \<le> saturating_sub (now_of s) (now_of s)" using one(5) cfg by (simp add: seen_since_def)
      then show ?thesis using here k by (intro exI [of _ log] exI [of _ "[(s, b)]"]) simp
    next
      case (Some p)
      then have e1: "e1 = e0" "en_match_id e0 = Some (sm_match_id (ts_meta s))"
        using change_match_inv(4) [OF inv one(1)] by auto
      with Some obtain pre mid where h: "log = pre @ mid" "mid \<noteq> []" "first_seen_ms p = now_of (fst (hd mid))"
          "proposed_throughout cfg (sm_match_id (ts_meta s)) (ca_key d) mid"
        using history_pending [OF e0(1), of "ca_key d" p] by auto
      moreover have "proposed_throughout cfg (sm_match_id (ts_meta s)) (ca_key d) (mid @ [(s, b)])"
        using h(4) here by (auto simp: proposed_throughout_def)
      ultimately show ?thesis
        using one(5) cfg k Some by (intro exI [of _ pre] exI [of _ "mid @ [(s, b)]"]) (simp add: seen_since_def)
    qed
  qed
qed

section \<open>Cadence\<close>

definition raise_times :: "(telemetry_snapshot \<times> advice_batch) list \<Rightarrow> nat list" where
  "raise_times log = concat (map (\<lambda>(s, b). map (\<lambda>_. unat (now_of s)) (filter is_raised (ab_events b))) log)"

lemma raise_times_snoc:
  "raise_times (log @ [(s, b)]) = raise_times log @ map (\<lambda>_. unat (now_of s)) (filter is_raised (ab_events b))"
  by (simp add: raise_times_def)

lemma history_cadence:
  assumes "0 < cc_global_raise_interval_ms cfg"
  shows "coach_history cfg (pre @ mid) e \<Longrightarrow> \<forall>(x, b)\<in>set mid. sm_match_id (ts_meta x) = m \<Longrightarrow>
    sorted_wrt (\<lambda>a b. a + unat (cc_global_raise_interval_ms cfg) \<le> b) (raise_times mid) \<and>
    (mid \<noteq> [] \<longrightarrow> en_match_id e = Some m) \<and>
    (\<forall>a\<in>set (raise_times mid). \<exists>t. en_last_global_raise_ms e = Some t \<and> a \<le> unat t)"
proof (induction mid arbitrary: e rule: rev_induct)
  case Nil
  then show ?case by (simp add: raise_times_def)
next
  case (snoc x mid)
  obtain s b where x: "x = (s, b)" by (cases x)
  from snoc.prems(1) obtain e0 where e0: "coach_history cfg (pre @ mid) e0" "analyze s e0 = (b, e)"
    by (auto simp: x append_assoc [symmetric] coach_history_snoc simp del: append_assoc)
  have m: "sm_match_id (ts_meta s) = m" using snoc.prems(2) x by auto
  have inv: "coach_inv e0" and cfg: "en_config e0 = cfg" using history_inv history_config e0(1) by auto
  have em: "en_match_id e = Some m" using analyze_clock(2) [OF inv e0(2)] m by simp
  have ih: "sorted_wrt (\<lambda>a b. a + unat (cc_global_raise_interval_ms cfg) \<le> b) (raise_times mid)"
    "mid \<noteq> [] \<Longrightarrow> en_match_id e0 = Some m"
    "\<forall>a\<in>set (raise_times mid). \<exists>t. en_last_global_raise_ms e0 = Some t \<and> a \<le> unat t"
    using snoc.IH [OF e0(1)] snoc.prems(2) by auto
  from inv e0(2) show ?case
  proof (cases rule: analyze_raises)
    case none
    then have "raise_times (mid @ [x]) = raise_times mid" by (simp add: x raise_times_snoc)
    moreover have "raise_times mid = [] \<or> en_last_global_raise_ms e = en_last_global_raise_ms e0"
      using none(2) ih(2) m by (cases mid) (auto simp: raise_times_def)
    ultimately show ?thesis using ih em by auto
  next
    case (one ev1 e1 c)
    have new: "raise_times (mid @ [x]) = raise_times mid @ [unat (now_of s)]"
      by (simp add: x raise_times_snoc one(4))
    have gap: "a + unat (cc_global_raise_interval_ms cfg) \<le> unat (now_of s)" if a: "a \<in> set (raise_times mid)" for a
    proof -
      obtain t where t: "en_last_global_raise_ms e0 = Some t" "a \<le> unat t" using ih(3) a by auto
      have "mid \<noteq> []" using a by (auto simp: raise_times_def)
      then have "e1 = e0" using one(1) ih(2) m by (simp add: change_match_def)
      then have "cc_global_raise_interval_ms cfg \<le> saturating_sub (now_of s) t"
        using one(6) t(1) cfg by (simp add: global_ready_def)
      then show ?thesis using saturating_sub_le_iff [OF assms] t(2) by fastforce
    qed
    then show ?thesis
      unfolding new using ih(1) em one(7) by (auto simp: sorted_wrt_append dest: gap add_leD1)
  qed
qed



section \<open>An example\<close>

definition sample_provenance :: field_provenance where
  "sample_provenance = provenance_direct ProcessMemory"

text \<open>A snapshot in which food is over its commerce cap and all else is well.\<close>

definition sample_snapshot :: "u64 \<Rightarrow> u64 \<Rightarrow> bool \<Rightarrow> telemetry_snapshot" where
  "sample_snapshot seq now paused =
     \<lparr>ts_meta = \<lparr>sm_schema_version = 1, sm_match_id = 7, sm_sample_sequence = seq, sm_game_tick = seq,
        sm_captured_at_ms = now, sm_analyzed_at_ms = now, sm_paused = paused, sm_coherent = True,
        sm_completeness = Complete, sm_identity = Confirmed, sm_game_mode = SinglePlayer\<rparr>,
      ts_economy = Some \<lparr>ob_value = \<lparr>et_stock = ZERO_RESOURCES, et_income_per_minute = ZERO_RESOURCES,
        et_planned_unpaid_cost = ZERO_RESOURCES, et_commerce_cap = ZERO_RESOURCES,
        et_commerce_status = (\<lambda>r. if r = Food then 1 else 0)\<rparr>, ob_provenance = sample_provenance\<rparr>,
      ts_population = Some \<lparr>ob_value = \<lparr>po_used = 1, po_cap = 50, po_paid_queue_population = 0,
        po_blocked_paid_population = 0, po_next_paid_completion_ms = None, po_incoming_capacity = 0,
        po_incoming_capacity_eta_ms = None\<rparr>, ob_provenance = sample_provenance\<rparr>,
      ts_labor = Some \<lparr>ob_value = \<lparr>la_citizens = 5, la_idle_citizens = 0, la_idle_for_ms = 0,
        la_assigned = (\<lambda>_. 0), la_free_gather_slots = (\<lambda>_. 0), la_rebalance = None\<rparr>,
        ob_provenance = sample_provenance\<rparr>,
      ts_production = None, ts_progression = None, ts_pressure = None\<rparr>"

lemma i64_zero: "i64_clamp 0 = 0" "i64_div 0 x = 0" "i64_saturating_mul 0 x = 0" "i64_saturating_add 0 0 = 0" "i64_max 0 0 = 0"
proof -
  show c: "i64_clamp 0 = 0" by (simp add: i64_clamp_def)
  show "i64_div 0 x = 0" by (simp add: i64_div_def)
  show "i64_saturating_mul 0 x = 0" "i64_saturating_add 0 0 = 0" "i64_max 0 0 = 0"
    using c by (simp_all add: i64_saturating_mul_def i64_saturating_add_def i64_max_def)
qed

lemma sample_candidates:
  "candidates default_config (sample_snapshot seq now p) = [commerce_candidate sample_provenance Food 1]"
proof -
  have "economy_candidates default_config \<lparr>ob_value = \<lparr>et_stock = ZERO_RESOURCES, et_income_per_minute = ZERO_RESOURCES,
        et_planned_unpaid_cost = ZERO_RESOURCES, et_commerce_cap = ZERO_RESOURCES,
        et_commerce_status = (\<lambda>r. if r = Food then 1 else 0)\<rparr>, ob_provenance = sample_provenance\<rparr> =
      [commerce_candidate sample_provenance Food 1]"
    by (simp add: economy_candidates_def economy_candidates_for_def ALL_RESOURCES_def projected_stock_def
        ZERO_RESOURCES_def i64_zero)
  moreover have "700 \<le> permille (ca_confidence (commerce_candidate sample_provenance Food 1))"
    by (simp add: commerce_candidate_def confidence_of_def confidence_breakdown_of_def breakdown_overall_def
        sample_provenance_def provenance_direct_def confidence_min_def confidence_new_def CONFIDENCE_MAX_def)
  moreover have "cc_minimum_confidence default_config = Confidence 700"
    by (simp add: default_config_def confidence_new_def)
  ultimately show ?thesis
    by (simp add: candidates_def sample_snapshot_def population_candidates_def labor_candidates_def idle_candidate_def
        rebalance_candidate_def total_free_slots_def population_available_def capacity_is_timely_def fresh_optional_def
        optional_state_of_def Let_def default_config_def saturating_add_def saturating_sub_def ALL_RESOURCES_def)
qed

lemma sample_fields:
  "sm_analyzed_at_ms (ts_meta (sample_snapshot seq now p)) = now" "sm_match_id (ts_meta (sample_snapshot seq now p)) = 7"
  "sm_sample_sequence (ts_meta (sample_snapshot seq now p)) = seq" "sm_game_tick (ts_meta (sample_snapshot seq now p)) = seq"
  "ts_production (sample_snapshot seq now p) = None" "ts_progression (sample_snapshot seq now p) = None"
  "now_of (sample_snapshot seq now p) = now" "cc_enable_pressure_advice default_config = False"
  "transport_delay (sample_snapshot seq now p) = 0"
  by (simp_all add: sample_snapshot_def now_of_def default_config_def transport_delay_def saturating_sub_def)

lemma sample_gate_paused: "gate e (sample_snapshot seq now True) = Some Paused"
  by (simp add: gate_def sample_snapshot_def SNAPSHOT_SCHEMA_VERSION_def Let_def)

lemma sample_valid: "valid_values (sample_snapshot seq now p) default_config"
  by (simp add: valid_values_def sample_snapshot_def economy_bad_def ZERO_RESOURCES_def ALL_RESOURCES_def
      labor_bad_def default_config_def)

lemma sample_gate:
  assumes "en_config e = default_config" "pred_option (\<lambda>t. t \<le> now) (en_last_analyzed_ms e)"
    "pred_option (\<lambda>n. n < seq) (en_last_sequence e)" "pred_option (\<lambda>n. n < seq) (en_last_game_tick e)"
  shows "gate e (sample_snapshot seq now False) = None"
proof -
  have "list_ex (base_field_stale default_config 0) [Some sample_provenance, Some sample_provenance, Some sample_provenance] = False"
    by (simp add: base_field_stale_def sample_provenance_def provenance_direct_def default_config_def saturating_add_def)
  then show ?thesis
    using assms sample_valid [of seq now False] unfolding gate_def Let_def sample_fields
    by (cases "en_last_analyzed_ms e"; cases "en_last_sequence e"; cases "en_last_game_tick e")
      (simp_all add: sample_snapshot_def SNAPSHOT_SCHEMA_VERSION_def default_config_def not_less not_le)
qed

definition sample_waiting :: advice_engine where
  "sample_waiting =
     (engine_new default_config)\<lparr>en_match_id := Some 7, en_last_sequence := Some 1, en_last_game_tick := Some 1,
       en_last_analyzed_ms := Some 1000, en_pending := [(CommerceCap Food, \<lparr>first_seen_ms = 1000\<rparr>)]\<rparr>"

lemma default_fields:
  "cc_sustain_ms default_config = 2000" "cc_global_raise_interval_ms default_config = 20000"
  "cc_advice_ttl_ms default_config = 12000" "cc_per_key_cooldown_ms default_config = 30000"
  by (simp_all add: default_config_def)

lemmas run_analyze = analyze_def sample_fields sample_candidates default_fields change_match_def engine_new_def
  record_valid_position_def retract_unavailable_optional_sources_def retract_category_def resolve_absent_def
  refresh_candidate_def consider_candidate_def raise_best_def ranked_active_def bt_contains_key_def bt_retain_def
  bt_keys_def bt_values_def bt_get_def saturating_sub_def sample_waiting_def Let_def

lemma commerce_key [simp]: "ca_key (commerce_candidate prov r st) = CommerceCap r" "ca_severity (commerce_candidate prov r st) = Notice"
  by (simp_all add: commerce_candidate_def)

lemma sample_first:
  "analyze (sample_snapshot 1 1000 False) (engine_new default_config) =
     (\<lparr>ab_active = [], ab_events = [], ab_suppressed = None\<rparr>, sample_waiting)"
proof -
  have "gate ((engine_new default_config)\<lparr>en_match_id := Some 7\<rparr>) (sample_snapshot 1 1000 False) = None"
    by (rule sample_gate) (simp_all add: engine_new_def)
  then show ?thesis
    by (simp add: run_analyze)
qed

lemma sample_second:
  "\<exists>e. analyze (sample_snapshot 2 3000 False) sample_waiting =
     (\<lparr>ab_active = [make_card default_config (commerce_candidate sample_provenance Food 1) 3000 3000],
       ab_events = [Raised (make_card default_config (commerce_candidate sample_provenance Food 1) 3000 3000)],
       ab_suppressed = None\<rparr>, e)"
proof -
  have "gate sample_waiting (sample_snapshot 2 3000 False) = None"
    by (rule sample_gate) (simp_all add: sample_waiting_def engine_new_def)
  then show ?thesis
    by (simp add: run_analyze global_ready_def)
qed

abbreviation sample_card :: advice_card where
  "sample_card \<equiv> make_card default_config (commerce_candidate sample_provenance Food 1) 3000 3000"

lemma sample_waiting_history:
  "coach_history default_config [(sample_snapshot 1 1000 False, \<lparr>ab_active = [], ab_events = [], ab_suppressed = None\<rparr>)] sample_waiting"
  using history_analyze [OF history_new sample_first] by simp

lemma sample_raise_history:
  "\<exists>e. coach_history default_config
     ([(sample_snapshot 1 1000 False, \<lparr>ab_active = [], ab_events = [], ab_suppressed = None\<rparr>)] @
      [(sample_snapshot 2 3000 False,
        \<lparr>ab_active = [sample_card], ab_events = [Raised sample_card], ab_suppressed = None\<rparr>)]) e"
  using sample_second by (blast intro: history_analyze [OF sample_waiting_history])

lemma sample_waiting_reach: "reach coach_init coach_step sample_waiting"
proof -
  have "reach coach_init coach_step (engine_new default_config)"
    by (rule reach_init, unfold coach_init_def) blast
  from reach_step [OF this step_analyze [of _ "sample_snapshot 1 1000 False"]] show ?thesis by (simp add: sample_first)
qed

theorem coach_events_exact_witness:
  "\<exists>e'. view e' = (view sample_waiting)(CommerceCap Food \<mapsto> erase sample_card)"
proof -
  obtain e' where e': "analyze (sample_snapshot 2 3000 False) sample_waiting =
      (\<lparr>ab_active = [sample_card], ab_events = [Raised sample_card], ab_suppressed = None\<rparr>, e')"
    using sample_second by blast
  from coach_events_exact [OF sample_waiting_reach e'] show ?thesis by (auto simp: make_card_def)
qed

theorem coach_silent_on_bad_data_witness:
  "\<exists>b e'. analyze (sample_snapshot 2 3000 False) sample_waiting = (b, e') \<and> ab_active b \<noteq> [] \<and>
     valid_values (sample_snapshot 2 3000 False) (en_config sample_waiting)"
proof -
  obtain e' where e': "analyze (sample_snapshot 2 3000 False) sample_waiting =
      (\<lparr>ab_active = [sample_card], ab_events = [Raised sample_card], ab_suppressed = None\<rparr>, e')"
    using sample_second by blast
  from coach_silent_on_bad_data [OF sample_waiting_reach e'] e' show ?thesis by auto
qed

theorem coach_raise_sustained_witness:
  "\<exists>b pre mid. [(sample_snapshot 1 1000 False, \<lparr>ab_active = [], ab_events = [], ab_suppressed = None\<rparr>),
      (sample_snapshot 2 3000 False, b)] = pre @ mid \<and> mid \<noteq> [] \<and>
    proposed_throughout default_config 7 (CommerceCap Food) mid \<and>
    2000 \<le> saturating_sub 3000 (now_of (fst (hd mid)))"
proof -
  obtain e where "coach_history default_config
     ([(sample_snapshot 1 1000 False, \<lparr>ab_active = [], ab_events = [], ab_suppressed = None\<rparr>)] @
      [(sample_snapshot 2 3000 False,
        \<lparr>ab_active = [sample_card], ab_events = [Raised sample_card], ab_suppressed = None\<rparr>)]) e"
    using sample_raise_history by blast
  from coach_raise_sustained [OF this, of sample_card] show ?thesis
    by (fastforce simp: sample_fields default_fields make_card_def)
qed


section \<open>Paused samples\<close>



end
