(* ===== verification/Stream_Locator.thy ===== *)
theory Stream_Locator
  imports Commands
begin

text \<open>
  Finding the command stream in a decompressed game recording (\<^verbatim>\<open>src/crates/don-net/src/stream.rs\<close>).
  Nothing in the file points at the stream, so \<^verbatim>\<open>find_stream\<close> runs a table of chain lengths from the
  end of the buffer to its front. The scan is the code's loop with its table and its best-so-far pair;
  the specification says which record lists count as a stream, and the property that the scan finds
  the longest of them.
\<close>

section \<open>The scan\<close>

record stream_location =
  sl_start :: nat
  sl_records :: nat

definition USIZE_MAX :: nat where "USIZE_MAX = 2 ^ 64 - 1"

text \<open>The labelled block of the loop: \<^const>\<open>None\<close> is a \<^verbatim>\<open>break\<close> out of it.\<close>

definition stream_body :: "u8 list \<Rightarrow> u32 list \<Rightarrow> nat \<Rightarrow> u32 option" where
  "stream_body buf table off =
     (let n = length buf in
      if 8 \<le> u32le buf (off + 4) then None
      else
        let ln = unat (u16le buf (off + 16)) in
        if 4000 < ln then None
        else
          let next = off + HEADER_WIRE_LEN + ln in
          if n < next then None
          else if next = n then Some 1
          else if table ! next = 0 then None
          else
            let a = u32le buf off; b = u32le buf next in
            if b < a \<or> 200 < b - a then None else Some (table ! next + 1))"

definition stream_note :: "nat \<Rightarrow> u32 option \<Rightarrow> u32 list \<times> u32 \<times> nat \<Rightarrow> u32 list \<times> u32 \<times> nat" where
  "stream_note off found = (\<lambda>(table, best, at).
     case found of
       None \<Rightarrow> (table, best, at)
     | Some c \<Rightarrow> (table[off := c], if best < c then (c, off) else (best, at)))"

fun stream_scan :: "u8 list \<Rightarrow> nat \<Rightarrow> u32 list \<times> u32 \<times> nat \<Rightarrow> u32 \<times> nat" where
  "stream_scan buf 0 st = snd (stream_note 0 (stream_body buf (fst st) 0) st)"
| "stream_scan buf (Suc off) st =
     stream_scan buf off (stream_note (Suc off) (stream_body buf (fst st) (Suc off)) st)"

definition find_stream :: "u8 list \<Rightarrow> stream_location option" where
  "find_stream buf =
     (let n = length buf in
      if n < HEADER_WIRE_LEN then None
      else
        let (best, at) = stream_scan buf (n - HEADER_WIRE_LEN) (replicate (n + 1) 0, 0, USIZE_MAX) in
        if at = USIZE_MAX then None else Some \<lparr>sl_start = at, sl_records = unat best\<rparr>)"

section \<open>What a stream is\<close>

text \<open>
  The records of a stream name one of eight players and hold at most 4000 bytes, and the stamps of
  neighbours go forward by at most 200.
\<close>

definition stream_record :: "package_record \<Rightarrow> bool" where
  "stream_record r \<longleftrightarrow> package_record_ok r \<and> ph_play (pr_header r) < 8 \<and> length (pr_payload r) \<le> 4000"

definition follows :: "u32 \<Rightarrow> u32 \<Rightarrow> bool" where
  "follows a b \<longleftrightarrow> unat a \<le> unat b \<and> unat b \<le> unat a + 200"

fun stamps_advance :: "package_record list \<Rightarrow> bool" where
  "stamps_advance (r # s # rs) \<longleftrightarrow>
     follows (ph_stamp (pr_header r)) (ph_stamp (pr_header s)) \<and> stamps_advance (s # rs)"
| "stamps_advance _ \<longleftrightarrow> True"

definition command_stream :: "package_record list \<Rightarrow> bool" where
  "command_stream rs \<longleftrightarrow> rs \<noteq> [] \<and> list_all stream_record rs \<and> stamps_advance rs"

definition stream_bytes :: "package_record list \<Rightarrow> u8 list" where
  "stream_bytes rs = concat (map package_record_encode rs)"

text \<open>The records \<open>rs\<close> are a stream and tile the buffer from an offset to its end.\<close>

definition stream_at :: "u8 list \<Rightarrow> nat \<Rightarrow> package_record list \<Rightarrow> bool" where
  "stream_at buf off rs \<longleftrightarrow> command_stream rs \<and> drop off buf = stream_bytes rs"

section \<open>The chain length of an offset\<close>

text \<open>The length of the chain at an offset by recursion, 0 when there is none.\<close>

function chain :: "u8 list \<Rightarrow> nat \<Rightarrow> nat" where
  "chain buf off =
     (let n = length buf; ln = unat (u16le buf (off + 16)); next = off + 18 + ln in
      if n < off + 18 \<or> 8 \<le> u32le buf (off + 4) \<or> 4000 < ln \<or> n < next then 0
      else if next = n then 1
      else if chain buf next = 0 \<or> \<not> follows (u32le buf off) (u32le buf next) then 0
      else chain buf next + 1)"
  by pat_completeness auto
termination
  by (relation "measure (\<lambda>(buf, off). length buf - off)") auto

declare chain.simps [simp del]

lemma chain_bound: "18 * chain buf off \<le> length buf - off"
proof (induction buf off rule: chain.induct)
  case (1 buf off)
  have "18 * chain buf (off + 18 + unat (u16le buf (off + 16))) \<le>
      length buf - (off + 18 + unat (u16le buf (off + 16)))"
    if "\<not> (length buf < off + 18 \<or> 8 \<le> u32le buf (off + 4) \<or> 4000 < unat (u16le buf (off + 16)) \<or>
      length buf < off + 18 + unat (u16le buf (off + 16)))"
      "off + 18 + unat (u16le buf (off + 16)) \<noteq> length buf"
    using 1 that by simp
  then show ?case by (subst chain.simps) (auto simp: Let_def)
qed

lemma follows_iff: "follows a b \<longleftrightarrow> \<not> (b < a \<or> 200 < b - a)"
  by (auto simp: follows_def word_less_nat_alt unat_sub word_le_nat_alt not_less)

lemma stream_record_header:
  assumes "stream_record r" "drop off buf = package_record_encode r @ rest"
  shows "u32le buf off = ph_stamp (pr_header r)" "u32le buf (off + 4) = ph_play (pr_header r)"
    "unat (u16le buf (off + 16)) = length (pr_payload r)"
    "drop (off + 18 + length (pr_payload r)) buf = rest"
    "off + 18 + length (pr_payload r) + length rest = length buf"
proof -
  have at: "bytes_at buf (off + i) n = bytes_at (package_record_encode r @ rest) i n" for i n
    using assms(2) by (simp add: bytes_at_def add.commute flip: drop_drop)
  show "u32le buf off = ph_stamp (pr_header r)" "u32le buf (off + 4) = ph_play (pr_header r)"
    "unat (u16le buf (off + 16)) = length (pr_payload r)"
    using at [of 0 4] at [of 4 4] at [of 16 2] assms(1)
    by (simp_all add: u32le_def u16le_def package_record_encode_def package_header_encode_def
        stream_record_def package_record_ok_def)
  have l: "length (package_record_encode r) = 18 + length (pr_payload r)"
    by (simp add: package_record_encode_def HEADER_WIRE_LEN_def)
  have "drop (18 + length (pr_payload r)) (drop off buf) = rest" using l assms(2) by simp
  then show "drop (off + 18 + length (pr_payload r)) buf = rest" by (simp add: add.commute add.left_commute)
  have "length buf - off = 18 + length (pr_payload r) + length rest"
    using l arg_cong [OF assms(2), of length] by simp
  then show "off + 18 + length (pr_payload r) + length rest = length buf" by simp
qed

lemma header_record:
  assumes "off + 18 + unat (u16le buf (off + 16)) \<le> length buf"
  obtains r where "package_record_ok r" "ph_play (pr_header r) = u32le buf (off + 4)"
    "ph_stamp (pr_header r) = u32le buf off" "length (pr_payload r) = unat (u16le buf (off + 16))"
    "drop off buf = package_record_encode r @ drop (off + 18 + unat (u16le buf (off + 16))) buf"
proof -
  define b where "b = drop off buf"
  have "\<not> length b < HEADER_WIRE_LEN" using assms by (simp add: b_def HEADER_WIRE_LEN_def)
  then obtain h where h: "package_header_decode b = Some h" by (simp add: package_header_decode_def)
  have f: "ph_play h = u32le buf (off + 4)" "ph_stamp h = u32le buf off" "ph_size h = u16le buf (off + 16)"
    using h by (auto simp: package_header_decode_def b_def u32le_def u16le_def bytes_at_def add.commute split: if_splits)
  define r where "r = \<lparr>pr_header = h, pr_payload = take (unat (u16le buf (off + 16))) (drop 18 b)\<rparr>"
  have "package_record_encode r = take (18 + unat (u16le buf (off + 16))) b"
    using package_header_encode_decode [OF h] by (simp add: package_record_encode_def r_def take_add)
  moreover have "drop (off + 18 + unat (u16le buf (off + 16))) buf = drop (18 + unat (u16le buf (off + 16))) b"
    by (simp add: b_def ac_simps)
  ultimately have "b = package_record_encode r @ drop (off + 18 + unat (u16le buf (off + 16))) buf"
    by (metis append_take_drop_id)
  moreover have "length (pr_payload r) = unat (u16le buf (off + 16))" using assms by (simp add: r_def b_def)
  moreover have "pr_header r = h" by (simp add: r_def)
  ultimately show ?thesis using f by (intro that [of r]) (simp_all add: package_record_ok_def b_def)
qed

lemma chain_step:
  assumes "off + 18 + unat (u16le buf (off + 16)) \<le> length buf" "u32le buf (off + 4) < 8"
    "unat (u16le buf (off + 16)) \<le> 4000" and nxt: "nxt = off + 18 + unat (u16le buf (off + 16))"
  shows "chain buf off =
    (if nxt = length buf then 1
     else if chain buf nxt = 0 \<or> \<not> follows (u32le buf off) (u32le buf nxt) then 0
     else chain buf nxt + 1)"
  using assms by (subst chain.simps) (auto simp: Let_def not_le)

lemma chain_none:
  assumes "\<not> (off + 18 + unat (u16le buf (off + 16)) \<le> length buf \<and> u32le buf (off + 4) < 8 \<and>
    unat (u16le buf (off + 16)) \<le> 4000)"
  shows "chain buf off = 0"
  using assms by (subst chain.simps) (auto simp: Let_def not_le)

lemma stream_at_chain: "stream_at buf off rs \<Longrightarrow> chain buf off = length rs"
proof (induction rs arbitrary: off)
  case (Cons r rs)
  have r: "stream_record r" and d: "drop off buf = package_record_encode r @ stream_bytes rs"
    using Cons.prems by (auto simp: stream_at_def command_stream_def stream_bytes_def)
  note h = stream_record_header [OF r d]
  have ok: "off + 18 + unat (u16le buf (off + 16)) \<le> length buf" "u32le buf (off + 4) < 8"
    "unat (u16le buf (off + 16)) \<le> 4000"
    using h r by (auto simp: stream_record_def)
  show ?case
  proof (cases rs)
    case Nil
    then show ?thesis using chain_step [OF ok refl] h by (simp add: stream_bytes_def)
  next
    case (Cons s rs')
    define nxt where "nxt = off + 18 + length (pr_payload r)"
    have at: "stream_at buf nxt rs"
      using Cons.prems h(4) Cons by (auto simp: stream_at_def command_stream_def nxt_def)
    have s: "stream_record s" "drop nxt buf = package_record_encode s @ stream_bytes rs'"
      using at Cons by (auto simp: stream_at_def command_stream_def stream_bytes_def)
    have "follows (u32le buf off) (u32le buf nxt)"
      using Cons.prems Cons stream_record_header(1) [OF s] h(1) by (simp add: stream_at_def command_stream_def)
    moreover have "nxt \<noteq> length buf"
      using stream_record_header(5) [OF s] by simp
    ultimately show ?thesis
      using chain_step [OF ok refl] Cons.IH [OF at] h(3) Cons by (simp add: nxt_def)
  qed
qed (simp add: stream_at_def command_stream_def)

lemma chain_stream_at: "0 < chain buf off \<Longrightarrow> \<exists>rs. stream_at buf off rs"
proof (induction buf off rule: chain.induct)
  case (1 buf off)
  define nxt where "nxt = off + 18 + unat (u16le buf (off + 16))"
  have ok: "off + 18 + unat (u16le buf (off + 16)) \<le> length buf" "u32le buf (off + 4) < 8"
    "unat (u16le buf (off + 16)) \<le> 4000"
    using 1(3) chain_none [of off buf] by (metis less_irrefl)+
  obtain r where r: "package_record_ok r" "ph_play (pr_header r) = u32le buf (off + 4)"
    "ph_stamp (pr_header r) = u32le buf off" "length (pr_payload r) = unat (u16le buf (off + 16))"
    "drop off buf = package_record_encode r @ drop nxt buf"
    using header_record [OF ok(1)] unfolding nxt_def by metis
  have sr: "stream_record r" using r ok by (simp add: stream_record_def)
  show ?case
  proof (cases "nxt = length buf")
    case True
    then have "stream_at buf off [r]"
      using r sr by (simp add: stream_at_def command_stream_def stream_bytes_def)
    then show ?thesis ..
  next
    case False
    then have link: "0 < chain buf nxt" "follows (u32le buf off) (u32le buf nxt)"
      using 1(3) chain_step [OF ok nxt_def] by (auto split: if_splits)
    obtain rs where rs: "stream_at buf nxt rs"
      using 1(1) [OF refl refl nxt_def] ok link(1) False by (auto simp: nxt_def not_le)
    then obtain s rs' where Cons: "rs = s # rs'" by (cases rs) (auto simp: stream_at_def command_stream_def)
    have "ph_stamp (pr_header s) = u32le buf nxt"
      using rs Cons stream_record_header(1) [of s nxt buf "stream_bytes rs'"]
      by (simp add: stream_at_def command_stream_def stream_bytes_def)
    then have "stream_at buf off (r # rs)"
      using rs r sr link(2) Cons by (simp add: stream_at_def command_stream_def stream_bytes_def)
    then show ?thesis ..
  qed
qed

section \<open>The scan computes the chain lengths\<close>

definition best_so_far :: "u8 list \<Rightarrow> nat \<Rightarrow> u32 \<Rightarrow> nat \<Rightarrow> bool" where
  "best_so_far buf lo best at \<longleftrightarrow>
     (if best = 0 then at = USIZE_MAX \<and> (\<forall>i\<ge>lo. chain buf i = 0)
      else lo \<le> at \<and> chain buf at = unat best \<and>
        (\<forall>i\<ge>lo. chain buf i < unat best \<or> chain buf i = unat best \<and> i \<le> at))"

definition scan_inv :: "u8 list \<Rightarrow> nat \<Rightarrow> u32 list \<times> u32 \<times> nat \<Rightarrow> bool" where
  "scan_inv buf lo = (\<lambda>(table, best, at).
     length table = length buf + 1 \<and>
     (\<forall>i\<le>length buf. table ! i = (if lo \<le> i then of_nat (chain buf i) else 0)) \<and>
     best_so_far buf lo best at)"

lemma chain_word:
  assumes "length buf < 2 ^ 32"
  shows "unat (of_nat (chain buf off) :: u32) = chain buf off"
proof -
  have "chain buf off < 2 ^ 32" using chain_bound [of buf off] assms by simp
  then show ?thesis by (simp add: unsigned_of_nat take_bit_nat_eq_self)
qed

lemma stream_body_chain:
  assumes "length buf < 2 ^ 32" "off + 18 \<le> length buf"
    and table: "\<forall>i>off. i \<le> length buf \<longrightarrow> table ! i = of_nat (chain buf i)"
  shows "stream_body buf table off = (if chain buf off = 0 then None else Some (of_nat (chain buf off)))"
proof (cases "off + 18 + unat (u16le buf (off + 16)) \<le> length buf \<and> u32le buf (off + 4) < 8 \<and>
    unat (u16le buf (off + 16)) \<le> 4000")
  case True
  define nxt where "nxt = off + 18 + unat (u16le buf (off + 16))"
  have z: "of_nat (chain buf nxt) = (0 :: u32) \<longleftrightarrow> chain buf nxt = 0"
    using arg_cong [of "of_nat (chain buf nxt) :: u32" 0 unat] chain_word [OF assms(1), of nxt] by auto
  have "stream_body buf table off =
      (if nxt = length buf then Some 1
       else if table ! nxt = 0 \<or> \<not> follows (u32le buf off) (u32le buf nxt) then None
       else Some (table ! nxt + 1))"
    using True by (simp add: stream_body_def HEADER_WIRE_LEN_def Let_def follows_iff nxt_def flip: not_less)
  moreover have "table ! nxt = of_nat (chain buf nxt)" using table True by (simp add: nxt_def)
  moreover have "chain buf off =
    (if nxt = length buf then 1
     else if chain buf nxt = 0 \<or> \<not> follows (u32le buf off) (u32le buf nxt) then 0
     else chain buf nxt + 1)"
    using True by (intro chain_step) (auto simp: nxt_def)
  ultimately show ?thesis using z by (simp add: add.commute)
next
  case False
  then show ?thesis
    using chain_none [OF False]
    by (auto simp: stream_body_def HEADER_WIRE_LEN_def Let_def not_le)
qed

lemma all_ge_Suc: "(\<forall>i\<ge>off. P i) \<longleftrightarrow> P off \<and> (\<forall>i\<ge>Suc off. P i)"
  by (metis Suc_le_eq le_eq_less_or_eq)

lemma scan_inv_step:
  assumes inv: "scan_inv buf (Suc off) st" and n: "length buf < 2 ^ 32" "off + 18 \<le> length buf"
  shows "scan_inv buf off (stream_note off (stream_body buf (fst st) off) st)"
proof -
  obtain table best at where st: "st = (table, best, at)" by (cases st)
  have body: "stream_body buf table off = (if chain buf off = 0 then None else Some (of_nat (chain buf off)))"
    using inv st by (intro stream_body_chain n) (auto simp: scan_inv_def Suc_le_eq)
  have tab: "length table = length buf + 1"
      "\<And>i. i \<le> length buf \<Longrightarrow> table ! i = (if Suc off \<le> i then of_nat (chain buf i) else 0)"
    and b: "best_so_far buf (Suc off) best at"
    using inv st by (auto simp: scan_inv_def)
  show ?thesis
  proof (cases "chain buf off = 0")
    case True
    have "best_so_far buf off best at"
      using b True all_ge_Suc [of off "\<lambda>i. chain buf i = 0"]
        all_ge_Suc [of off "\<lambda>i. chain buf i < unat best \<or> chain buf i = unat best \<and> i \<le> at"]
      by (auto simp: best_so_far_def split: if_splits)
    moreover have "table ! i = (if off \<le> i then of_nat (chain buf i) else 0)" if "i \<le> length buf" for i
      using tab(2) [OF that] True by (cases "i = off") auto
    ultimately show ?thesis using st body tab True by (simp add: scan_inv_def stream_note_def)
  next
    case False
    define c where "c = (of_nat (chain buf off) :: u32)"
    have c: "unat c = chain buf off" "c \<noteq> 0" using chain_word [OF n(1), of off] False by (auto simp: c_def)
    have "best_so_far buf off (if best < c then c else best) (if best < c then off else at)"
    proof (cases "best < c")
      case True
      then have "chain buf i < unat c" if "Suc off \<le> i" for i
        using b that unfolding best_so_far_def word_less_nat_alt by (auto split: if_splits)
      then show ?thesis
        using True c all_ge_Suc [of off "\<lambda>i. chain buf i < unat c \<or> chain buf i = unat c \<and> i \<le> off"]
        by (simp add: best_so_far_def)
    next
      case less: False
      then have "best \<noteq> 0" "chain buf off \<le> unat best"
        using c by (auto simp: word_less_nat_alt unsigned_eq_0_iff)
      then show ?thesis
        using less b all_ge_Suc [of off "\<lambda>i. chain buf i < unat best \<or> chain buf i = unat best \<and> i \<le> at"]
        by (auto simp: best_so_far_def)
    qed
    moreover have "table[off := c] ! i = (if off \<le> i then of_nat (chain buf i) else 0)"
      if "i \<le> length buf" for i
      using tab(1) tab(2) [OF that] n(2) by (cases "i = off") (auto simp: c_def nth_list_update)
    ultimately show ?thesis
      using st body tab False by (auto simp: scan_inv_def stream_note_def simp flip: c_def)
  qed
qed

lemma stream_scan_best:
  "\<lbrakk>scan_inv buf (Suc off) st; length buf < 2 ^ 32; off + 18 \<le> length buf\<rbrakk> \<Longrightarrow>
   best_so_far buf 0 (fst (stream_scan buf off st)) (snd (stream_scan buf off st))"
proof (induction off arbitrary: st)
  case 0
  then show ?case using scan_inv_step [of buf 0 st] by (auto simp: scan_inv_def split: prod.splits)
next
  case (Suc off)
  then show ?case using Suc.IH [OF scan_inv_step [OF Suc.prems]] by simp
qed

lemma chain_short: "length buf < off + 18 \<Longrightarrow> chain buf off = 0"
  by (subst chain.simps) simp

lemma find_stream_best:
  assumes "length buf < 2 ^ 32"
  shows "\<exists>best at. best_so_far buf 0 best at \<and> at \<noteq> USIZE_MAX = (best \<noteq> 0) \<and>
    find_stream buf = (if best = 0 then None else Some \<lparr>sl_start = at, sl_records = unat best\<rparr>)"
proof (cases "length buf < 18")
  case True
  then have "best_so_far buf 0 0 USIZE_MAX" by (simp add: best_so_far_def chain_short)
  then show ?thesis using True by (intro exI [of _ 0] exI [of _ USIZE_MAX]) (simp add: find_stream_def HEADER_WIRE_LEN_def)
next
  case False
  define off st where "off = length buf - 18" and "st = (replicate (length buf + 1) (0 :: u32), 0 :: u32, USIZE_MAX)"
  have "scan_inv buf (Suc off) st"
    by (simp add: scan_inv_def st_def off_def best_so_far_def chain_short nth_Cons split: nat.splits)
  then have best: "best_so_far buf 0 (fst (stream_scan buf off st)) (snd (stream_scan buf off st))"
    using False assms by (intro stream_scan_best) (auto simp: off_def)
  have "snd (stream_scan buf off st) \<noteq> USIZE_MAX \<longleftrightarrow> fst (stream_scan buf off st) \<noteq> 0"
  proof (cases "fst (stream_scan buf off st) = 0")
    case nz: False
    then have "0 < chain buf (snd (stream_scan buf off st))"
      using best by (auto simp: best_so_far_def unsigned_eq_0_iff intro!: Nat.gr0I)
    then have "snd (stream_scan buf off st) < length buf" using chain_bound [of buf "snd (stream_scan buf off st)"] by linarith
    then show ?thesis using nz assms by (simp add: USIZE_MAX_def)
  qed (use best in \<open>simp add: best_so_far_def\<close>)
  then show ?thesis
    using best False
    by (intro exI [of _ "fst (stream_scan buf off st)"] exI [of _ "snd (stream_scan buf off st)"])
      (auto simp: find_stream_def HEADER_WIRE_LEN_def Let_def case_prod_unfold off_def st_def)
qed

definition longest_stream :: "u8 list \<Rightarrow> nat \<Rightarrow> nat \<Rightarrow> bool" where
  "longest_stream buf off k \<longleftrightarrow>
     (\<exists>rs. stream_at buf off rs \<and> length rs = k) \<and>
     (\<forall>off' rs. stream_at buf off' rs \<longrightarrow> length rs < k \<or> length rs = k \<and> off' \<le> off)"

lemma longest_stream_unique:
  assumes "longest_stream buf off k" "longest_stream buf off' k'"
  shows "off' = off \<and> k' = k"
proof -
  obtain rs rs' where "stream_at buf off rs" "length rs = k" "stream_at buf off' rs'" "length rs' = k'"
    using assms unfolding longest_stream_def by auto
  then show ?thesis using assms unfolding longest_stream_def by (metis le_antisym less_asym less_irrefl)
qed

lemma chain_stream: "0 < k \<Longrightarrow> chain buf off = k \<longleftrightarrow> (\<exists>rs. stream_at buf off rs \<and> length rs = k)"
  using stream_at_chain chain_stream_at by metis

lemma best_longest:
  assumes "best_so_far buf 0 best at" "best \<noteq> 0"
  shows "longest_stream buf at (unat best)"
proof -
  have "0 < unat best" using assms(2) by (simp add: unsigned_eq_0_iff zero_less_iff_neq_zero)
  moreover have at: "chain buf at = unat best" "\<And>i. chain buf i < unat best \<or> chain buf i = unat best \<and> i \<le> at"
    using assms by (auto simp: best_so_far_def)
  ultimately have "\<exists>rs. stream_at buf at rs \<and> length rs = unat best" using chain_stream by blast
  then show ?thesis using at(2) stream_at_chain unfolding longest_stream_def by metis
qed

lemma find_stream_SomeD:
  assumes "length buf < 2 ^ 32" "find_stream buf = Some loc"
  shows "longest_stream buf (sl_start loc) (sl_records loc)"
proof -
  obtain best at where "best_so_far buf 0 best at"
    "find_stream buf = (if best = 0 then None else Some \<lparr>sl_start = at, sl_records = unat best\<rparr>)"
    using find_stream_best [OF assms(1)] by blast
  then show ?thesis using assms(2) best_longest [of buf best at] by (auto split: if_splits)
qed

section \<open>Properties\<close>


text \<open>A recording of two empty packages behind three bytes of state.\<close>

definition sample_state :: "u8 list" where "sample_state = [9, 9, 9]"

definition sample_turn :: "u32 \<Rightarrow> package_record" where
  "sample_turn stamp =
     \<lparr>pr_header = \<lparr>ph_stamp = stamp, ph_play = 0, ph_valid = 0, ph_group = 0, ph_size = 0\<rparr>, pr_payload = []\<rparr>"

lemma sample_length: "length (sample_state @ stream_bytes [sample_turn 1, sample_turn 3]) = 39"
  by (simp add: sample_state_def stream_bytes_def package_record_encode_def sample_turn_def HEADER_WIRE_LEN_def)

lemma sample_longest: "longest_stream (sample_state @ stream_bytes [sample_turn 1, sample_turn 3]) 3 2"
proof -
  define buf where "buf = sample_state @ stream_bytes [sample_turn 1, sample_turn 3]"
  have at: "stream_at buf 3 [sample_turn 1, sample_turn 3]"
    by (simp add: stream_at_def command_stream_def stream_record_def package_record_ok_def follows_def
        sample_turn_def buf_def sample_state_def)
  have "length rs < 2 \<or> length rs = 2 \<and> off \<le> 3" if "stream_at buf off rs" for off rs
    using chain_bound [of buf off] stream_at_chain [OF that] sample_length unfolding buf_def by linarith
  then have "longest_stream buf 3 2"
    using at by (auto simp: longest_stream_def intro!: exI [of _ "[sample_turn 1, sample_turn 3]"])
  then show ?thesis by (simp add: buf_def)
qed

lemma sample_located:
  "find_stream (sample_state @ stream_bytes [sample_turn 1, sample_turn 3]) =
     Some \<lparr>sl_start = 3, sl_records = 2\<rparr>"
proof -
  define buf where "buf = sample_state @ stream_bytes [sample_turn 1, sample_turn 3]"
  have "length buf < 2 ^ 32" using sample_length by (simp add: buf_def)
  then obtain best at where b: "best_so_far buf 0 best at"
    "find_stream buf = (if best = 0 then None else Some \<lparr>sl_start = at, sl_records = unat best\<rparr>)"
    using find_stream_best by blast
  have "best \<noteq> 0"
    using b(1) stream_at_chain sample_longest unfolding best_so_far_def longest_stream_def buf_def
    by (metis not_gr_zero of_nat_numeral zero_neq_numeral zero_le)
  then show ?thesis
    using b(2) longest_stream_unique [OF sample_longest, of at "unat best"] best_longest [OF b(1)]
    by (simp add: buf_def)
qed


text \<open>
  Where the scan locates a stream, the record iterator started there reads as many records as the
  scan counted, every one of them in range, and ends at the end of the buffer.
\<close>

lemma located_stream_reads:
  assumes "length buf < 2 ^ 32" "find_stream buf = Some loc"
    and "package_stream_collect (package_stream_new buf (sl_start loc)) = (rs, s)"
  shows "command_stream rs \<and> length rs = sl_records loc \<and> length buf \<le> ps_pos s"
proof -
  obtain rs' where rs': "stream_at buf (sl_start loc) rs'" "length rs' = sl_records loc"
    using find_stream_SomeD [OF assms(1,2)] unfolding longest_stream_def by blast
  define pre where "pre = take (sl_start loc) buf"
  have "drop (sl_start loc) buf \<noteq> []"
    using rs'(1) by (cases rs') (auto simp: stream_at_def command_stream_def stream_bytes_def package_record_encode_def
      package_header_encode_def simp flip: length_0_conv)
  then have pre: "length pre = sl_start loc" by (simp add: pre_def)
  have "buf = pre @ concat (map package_record_encode rs')"
    using rs'(1) by (metis append_take_drop_id pre_def stream_at_def stream_bytes_def)
  moreover have "\<forall>r\<in>set rs'. package_record_ok r"
    using rs'(1) by (auto simp: stream_at_def command_stream_def stream_record_def list_all_iff)
  ultimately have "rs = rs' \<and> length buf \<le> ps_pos s"
    using package_stream_reads_all [of rs' buf pre] assms(3) pre by simp
  then show ?thesis using rs' by (simp add: stream_at_def)
qed

lemma located_stream_reads_witness:
  "length (fst (package_stream_collect (package_stream_new
     (sample_state @ stream_bytes [sample_turn 1, sample_turn 3]) 3))) = 2"
proof -
  obtain rs s where c: "package_stream_collect (package_stream_new
      (sample_state @ stream_bytes [sample_turn 1, sample_turn 3]) 3) = (rs, s)"
    by fastforce
  then show ?thesis
    using located_stream_reads [OF _ sample_located, of rs s] sample_length by simp
qed

end
