(* ===== verification/Setup.thy ===== *)
theory Setup
  imports Messages
begin

text \<open>
  The game-setup records of \<^verbatim>\<open>src/crates/don-net/src/setup.rs\<close> and their byte images: the 46-byte
  settings record with its union view, the scenario preview, the 2031-byte full record with its
  fixed-width texts, and the player record with its length-prefixed portable form.
\<close>

section \<open>Settings\<close>

record game_connection_data =
  g_team_style :: u8
  g_map_style :: u8
  g_map_size :: u8
  g_players :: u8
  g_max_observers :: u8
  g_game_speed :: u8
  g_game_rules :: u8
  g_difficulty :: u8
  g_starting_town :: u8
  g_starting_resources :: u8
  g_starting_resources2 :: u8
  g_tech_cost :: u8
  g_reveal_map :: u8
  g_pop_limit :: u8
  g_rush_rules :: u8
  g_cannon_times :: u8
  g_starting_technology :: u8
  g_starting_technology2 :: u8
  g_ending_technology :: u8
  g_elimination :: u8
  g_victory :: u8
  g_wonderwin :: u8
  g_score_goal :: u8
  g_popwin :: u8
  g_time_limit :: u8
  g_chairs :: u8
  g_econwin :: u8
  g_scenario_type :: u8
  g_script_type :: u8
  g_mods :: u8
  g_lobby_elo :: i32
  g_seed :: u32
  g_flags :: i32
  g_checksum_window_size :: u16
  g_checksum_deep :: u8
  g_checksum_failure_threshold :: u8

definition GCD_WIRE_LEN :: nat where "GCD_WIRE_LEN = 46"

definition game_connection_data_default :: game_connection_data where
  "game_connection_data_default =
     \<lparr>g_team_style = 0, g_map_style = 0, g_map_size = 0, g_players = 0, g_max_observers = 0,
      g_game_speed = 0, g_game_rules = 0, g_difficulty = 0, g_starting_town = 0,
      g_starting_resources = 0, g_starting_resources2 = 0, g_tech_cost = 0, g_reveal_map = 0,
      g_pop_limit = 0, g_rush_rules = 0, g_cannon_times = 0, g_starting_technology = 0,
      g_starting_technology2 = 0, g_ending_technology = 0, g_elimination = 0, g_victory = 0,
      g_wonderwin = 0, g_score_goal = 0, g_popwin = 0, g_time_limit = 0, g_chairs = 0,
      g_econwin = 0, g_scenario_type = 0, g_script_type = 0, g_mods = 0,
      g_lobby_elo = 0, g_seed = 0, g_flags = 0, g_checksum_window_size = 0, g_checksum_deep = 0,
      g_checksum_failure_threshold = 0\<rparr>"

definition gcd_data :: "game_connection_data \<Rightarrow> u8 list" where
  "gcd_data g =
     [g_team_style g, g_map_style g, g_map_size g, g_players g, g_max_observers g, g_game_speed g,
      g_game_rules g, g_difficulty g, g_starting_town g, g_starting_resources g,
      g_starting_resources2 g, g_tech_cost g, g_reveal_map g, g_pop_limit g, g_rush_rules g,
      g_cannon_times g, g_starting_technology g, g_starting_technology2 g, g_ending_technology g,
      g_elimination g, g_victory g, g_wonderwin g, g_score_goal g, g_popwin g, g_time_limit g,
      g_chairs g, g_econwin g, g_scenario_type g, g_script_type g, g_mods g]"

definition gcd_set_data :: "u8 list \<Rightarrow> game_connection_data \<Rightarrow> game_connection_data" where
  "gcd_set_data d g = g
     \<lparr>g_team_style := d ! 0, g_map_style := d ! 1, g_map_size := d ! 2, g_players := d ! 3,
      g_max_observers := d ! 4, g_game_speed := d ! 5, g_game_rules := d ! 6,
      g_difficulty := d ! 7, g_starting_town := d ! 8, g_starting_resources := d ! 9,
      g_starting_resources2 := d ! 10, g_tech_cost := d ! 11, g_reveal_map := d ! 12,
      g_pop_limit := d ! 13, g_rush_rules := d ! 14, g_cannon_times := d ! 15,
      g_starting_technology := d ! 16, g_starting_technology2 := d ! 17,
      g_ending_technology := d ! 18, g_elimination := d ! 19, g_victory := d ! 20,
      g_wonderwin := d ! 21, g_score_goal := d ! 22, g_popwin := d ! 23, g_time_limit := d ! 24,
      g_chairs := d ! 25, g_econwin := d ! 26, g_scenario_type := d ! 27, g_script_type := d ! 28,
      g_mods := d ! 29\<rparr>"

definition gcd_decode :: "u8 list \<Rightarrow> game_connection_data option" where
  "gcd_decode b =
     (if length b < GCD_WIRE_LEN then None
      else Some ((gcd_set_data (bytes_at b 0 30) game_connection_data_default)
        \<lparr>g_lobby_elo := u32le b 30, g_seed := u32le b 34, g_flags := u32le b 38,
         g_checksum_window_size := u16le b 42, g_checksum_deep := b ! 44,
         g_checksum_failure_threshold := b ! 45\<rparr>))"

definition gcd_encode :: "game_connection_data \<Rightarrow> u8 list" where
  "gcd_encode g =
     gcd_data g @ le32 (g_lobby_elo g) @ le32 (g_seed g) @ le32 (g_flags g) @
     le16 (g_checksum_window_size g) @ [g_checksum_deep g] @ [g_checksum_failure_threshold g]"

lemma length_gcd_data [simp]: "length (gcd_data g) = 30"
  by (simp add: gcd_data_def)

lemma gcd_set_data_data: "gcd_set_data (gcd_data h) g = h\<lparr>g_lobby_elo := g_lobby_elo g, g_seed := g_seed g,
    g_flags := g_flags g, g_checksum_window_size := g_checksum_window_size g,
    g_checksum_deep := g_checksum_deep g, g_checksum_failure_threshold := g_checksum_failure_threshold g\<rparr>"
  by (cases g; cases h) (simp add: gcd_set_data_def gcd_data_def)

lemma gcd_data_set_data: "length d = 30 \<Longrightarrow> gcd_data (gcd_set_data d g) = d"
  using map_nth [of d] by (simp add: gcd_set_data_def gcd_data_def upt_rec numeral_eq_Suc)

lemma gcd_decode_encode: "gcd_decode (gcd_encode g @ rest) = Some g"
  by (simp add: gcd_decode_def gcd_encode_def GCD_WIRE_LEN_def gcd_set_data_data u32le_def u16le_def nth_append)

lemma gcd_encode_decode:
  assumes "gcd_decode b = Some g"
  shows "gcd_encode g = take 46 b"
proof -
  have len: "46 \<le> length b"
    and g: "g = (gcd_set_data (bytes_at b 0 30) game_connection_data_default)
        \<lparr>g_lobby_elo := u32le b 30, g_seed := u32le b 34, g_flags := u32le b 38,
         g_checksum_window_size := u16le b 42, g_checksum_deep := b ! 44,
         g_checksum_failure_threshold := b ! 45\<rparr>"
    using assms by (auto simp: gcd_decode_def GCD_WIRE_LEN_def split: if_splits)
  have "gcd_data g = gcd_data (gcd_set_data (bytes_at b 0 30) game_connection_data_default)"
    by (simp add: g gcd_data_def)
  then have d: "gcd_data g = bytes_at b 0 30" using len by (simp add: gcd_data_set_data length_bytes_at)
  have two: "bytes_at b 44 1 @ bytes_at b 45 1 = bytes_at b 44 2"
    using bytes_at_add [of b 44 1 1] by (simp add: numeral_2_eq_2)
  have "gcd_encode g = bytes_at b 0 30 @ bytes_at b 30 4 @ bytes_at b 34 4 @ bytes_at b 38 4 @
      bytes_at b 42 2 @ bytes_at b 44 1 @ bytes_at b 45 1"
    using len d by (simp add: gcd_encode_def g le32_u32le u16le_def le16_from_le length_bytes_at bytes_at_1 [unfolded One_nat_def])
  also have "\<dots> = take 46 b"
    using bytes_at_add [of b 0 30 16] bytes_at_add [of b 30 4 12] bytes_at_add [of b 34 4 8]
      bytes_at_add [of b 38 4 4] bytes_at_add [of b 42 2 2] two
    by (simp add: bytes_at_def)
  finally show ?thesis .
qed

section \<open>Scenario preview\<close>

record scen_file_preview_data =
  sp_num_leaders :: u8
  sp_num_human_players :: u8
  sp_team_style :: u8
  sp_map_size :: u8
  sp_scenario_flags :: u8
  sp_leader_active :: "u8 list"
  sp_leader_tribe :: "u8 list"
  sp_leader_team :: "u8 list"
  sp_leader_diff :: "u8 list"
  sp_player_type :: "u8 list"

definition SCEN_WIRE_LEN :: nat where "SCEN_WIRE_LEN = 45"

definition scen_default :: scen_file_preview_data where
  "scen_default =
     \<lparr>sp_num_leaders = 0, sp_num_human_players = 0, sp_team_style = 0, sp_map_size = 0, sp_scenario_flags = 0,
      sp_leader_active = replicate 8 0, sp_leader_tribe = replicate 8 0, sp_leader_team = replicate 8 0,
      sp_leader_diff = replicate 8 0, sp_player_type = replicate 8 0\<rparr>"

definition scen_decode :: "u8 list \<Rightarrow> scen_file_preview_data option" where
  "scen_decode b =
     (if length b < SCEN_WIRE_LEN then None
      else Some \<lparr>sp_num_leaders = b ! 0, sp_num_human_players = b ! 1, sp_team_style = b ! 2,
        sp_map_size = b ! 3, sp_scenario_flags = b ! 4, sp_leader_active = bytes_at b 5 8,
        sp_leader_tribe = bytes_at b 13 8, sp_leader_team = bytes_at b 21 8,
        sp_leader_diff = bytes_at b 29 8, sp_player_type = bytes_at b 37 8\<rparr>)"

definition scen_encode :: "scen_file_preview_data \<Rightarrow> u8 list" where
  "scen_encode s =
     [sp_num_leaders s, sp_num_human_players s, sp_team_style s, sp_map_size s, sp_scenario_flags s] @
     sp_leader_active s @ sp_leader_tribe s @ sp_leader_team s @ sp_leader_diff s @ sp_player_type s"

text \<open>The five arrays have eight entries, as their Rust types say.\<close>

definition scen_ok :: "scen_file_preview_data \<Rightarrow> bool" where
  "scen_ok s \<longleftrightarrow> list_all (\<lambda>xs. length xs = 8)
     [sp_leader_active s, sp_leader_tribe s, sp_leader_team s, sp_leader_diff s, sp_player_type s]"

lemma length_scen_encode: "scen_ok s \<Longrightarrow> length (scen_encode s) = 45"
  by (simp add: scen_ok_def scen_encode_def)

lemma scen_decode_encode: "scen_ok s \<Longrightarrow> scen_decode (scen_encode s @ rest) = Some s"
  by (simp add: scen_ok_def scen_encode_def scen_decode_def SCEN_WIRE_LEN_def)

section \<open>The full record\<close>

record game_connection_data_full =
  f_data :: game_connection_data
  f_scenario_or_script_name :: rust_string
  f_save_name :: rust_string
  f_desc :: rust_string
  f_mod_name :: rust_string
  f_mod_desc :: rust_string
  f_mod_size :: u32
  f_mod_checksum :: u32
  f_mod_workshop_id :: u64
  f_scenario_data :: scen_file_preview_data
  f_scenario_size :: u32
  f_scenario_checksum :: u32
  f_scenario_num_files :: u32
  f_scenario_workshop_id :: u64

definition FULL_WIRE_LEN :: nat where "FULL_WIRE_LEN = 0x7EF"

definition full_decode :: "u8 list \<Rightarrow> game_connection_data_full option" where
  "full_decode b =
     (if length b < FULL_WIRE_LEN then None
      else case gcd_decode (drop 0 b) of
        None \<Rightarrow> None
      | Some settings \<Rightarrow>
          (case scen_decode (drop 0x7AE b) of
             None \<Rightarrow> None
           | Some preview \<Rightarrow>
               Some \<lparr>f_data = settings, f_scenario_or_script_name = read_narrow b 0x2E 180,
                 f_save_name = read_wide b 0xE2 260, f_desc = read_narrow b 0x2EA 512,
                 f_mod_name = read_narrow b 0x4EA 180, f_mod_desc = read_narrow b 0x59E 512,
                 f_mod_size = u32le b 0x79E, f_mod_checksum = u32le b 0x7A2,
                 f_mod_workshop_id = u64le b 0x7A6, f_scenario_data = preview,
                 f_scenario_size = u32le b 0x7DB, f_scenario_checksum = u32le b 0x7DF,
                 f_scenario_num_files = u32le b 0x7E3, f_scenario_workshop_id = u64le b 0x7E7\<rparr>))"

definition full_encode :: "game_connection_data_full \<Rightarrow> u8 list" where
  "full_encode f =
     gcd_encode (f_data f) @ write_narrow (f_scenario_or_script_name f) 180 @
     write_wide (f_save_name f) 260 @ write_narrow (f_desc f) 512 @ write_narrow (f_mod_name f) 180 @
     write_narrow (f_mod_desc f) 512 @ le32 (f_mod_size f) @ le32 (f_mod_checksum f) @
     le64 (f_mod_workshop_id f) @ scen_encode (f_scenario_data f) @ le32 (f_scenario_size f) @
     le32 (f_scenario_checksum f) @ le32 (f_scenario_num_files f) @ le64 (f_scenario_workshop_id f)"

text \<open>The values whose texts fit their fields.\<close>

definition full_ok :: "game_connection_data_full \<Rightarrow> bool" where
  "full_ok f \<longleftrightarrow> narrow_ok 180 (f_scenario_or_script_name f) \<and> wide_ok 260 (f_save_name f) \<and>
     narrow_ok 512 (f_desc f) \<and> narrow_ok 180 (f_mod_name f) \<and> narrow_ok 512 (f_mod_desc f) \<and>
     scen_ok (f_scenario_data f)"

text \<open>Reading a text field looks past the fields before it.\<close>

lemma read_narrow_skip: "length xs \<le> off \<Longrightarrow> read_narrow (xs @ ys) off n = read_narrow ys (off - length xs) n"
proof -
  assume le: "length xs \<le> off"
  have "min off (length xs + length ys) - length xs = min (off - length xs) (length ys)"
    "min (off + n) (length xs + length ys) - min off (length xs + length ys) =
     min (off - length xs + n) (length ys) - min (off - length xs) (length ys)"
    "length xs \<le> min off (length xs + length ys)"
    using le by (auto simp: min_def)
  then show ?thesis by (simp add: read_narrow_def Let_def)
qed

lemma u16le_skip: "length xs \<le> off \<Longrightarrow> u16le (xs @ ys) off = u16le ys (off - length xs)"
  by (simp add: u16le_def)

lemma read_wide_skip: "length xs \<le> off \<Longrightarrow> read_wide (xs @ ys) off n = read_wide ys (off - length xs) n"
proof (induction n arbitrary: off)
  case (Suc n)
  have "read_wide (xs @ ys) (off + 2) n = read_wide ys (off - length xs + 2) n"
    using Suc.IH [of "off + 2"] Suc.prems by (simp add: Suc_diff_le)
  moreover have "length xs + length ys \<le> off + 1 \<longleftrightarrow> length ys \<le> off - length xs + 1" using Suc.prems by auto
  ultimately show ?case using Suc.prems by (simp add: Let_def u16le_skip)
qed simp

lemma length_gcd_encode [simp]: "length (gcd_encode g) = 46"
  by (simp add: gcd_encode_def)

lemma read_narrow_first: "narrow_ok n s \<Longrightarrow> read_narrow (write_narrow s n @ ys) 0 n = s"
  using read_write_narrow [of n s "[]"] by simp

lemma read_wide_first: "wide_ok n s \<Longrightarrow> read_wide (write_wide s n @ ys) 0 n = s"
  using read_write_wide [of n s "[]"] by simp

lemma length_full_encode: "scen_ok (f_scenario_data f) \<Longrightarrow> length (full_encode f) = 2031"
  by (simp add: full_encode_def length_scen_encode)

lemma full_decode_encode:
  assumes "full_ok f"
  shows "full_decode (full_encode f @ rest) = Some f"
  using assms gcd_decode_encode [of "f_data f"] scen_decode_encode [of "f_scenario_data f"]
    length_full_encode [of f]
  unfolding full_ok_def full_decode_def full_encode_def
  by (simp add: FULL_WIRE_LEN_def read_narrow_skip read_wide_skip read_narrow_first read_wide_first
      length_scen_encode u32le_def u64le_def)

section \<open>Player slots\<close>

record player_slot_pod =
  pp_elo :: i32
  pp_slot_type :: u8
  pp_tribe :: u8
  pp_who :: u8
  pp_team :: u8
  pp_handicap :: u8
  pp_diff :: u8
  pp_ready :: u8

definition POD_WIRE_LEN :: nat where "POD_WIRE_LEN = 11"

definition player_slot_pod_default :: player_slot_pod where
  "player_slot_pod_default = \<lparr>pp_elo = 0, pp_slot_type = 0, pp_tribe = 0, pp_who = 0, pp_team = 0,
     pp_handicap = 0, pp_diff = 0, pp_ready = 0\<rparr>"

definition pod_decode :: "u8 list \<Rightarrow> player_slot_pod option" where
  "pod_decode b =
     (if length b < POD_WIRE_LEN then None
      else Some \<lparr>pp_elo = u32le b 0, pp_slot_type = b ! 4, pp_tribe = b ! 5, pp_who = b ! 6,
        pp_team = b ! 7, pp_handicap = b ! 8, pp_diff = b ! 9, pp_ready = b ! 10\<rparr>)"

definition pod_encode :: "player_slot_pod \<Rightarrow> u8 list" where
  "pod_encode p = le32 (pp_elo p) @
     [pp_slot_type p, pp_tribe p, pp_who p, pp_team p, pp_handicap p, pp_diff p, pp_ready p]"

lemma pod_decode_encode: "pod_decode (pod_encode p @ rest) = Some p"
  by (simp add: pod_decode_def pod_encode_def POD_WIRE_LEN_def u32le_def nth_append)

section \<open>Player records\<close>

record player_connection_data =
  pc_player_id :: rust_string
  pc_platform_player_id :: rust_string
  pc_pod :: player_slot_pod

text \<open>One id: \<^verbatim>\<open>units.len() as u16\<close> keeps the low 16 bits of the count.\<close>

definition encode_id :: "rust_string \<Rightarrow> u8 list" where
  "encode_id s = (let units = encode_utf16 s in le16 (of_nat (length units)) @ concat (map le16 units))"

definition encode_portable :: "player_connection_data \<Rightarrow> u8 list" where
  "encode_portable p = encode_id (pc_player_id p) @ encode_id (pc_platform_player_id p) @ pod_encode (pc_pod p)"

definition decode_id :: "u8 list \<Rightarrow> nat \<Rightarrow> (rust_string \<times> nat) option" where
  "decode_id b off =
     (if length b < off + 2 then None
      else
        let n = unat (u16le b off); off = off + 2 in
        if length b < off + n * 2 then None
        else Some (from_utf16_lossy (map (\<lambda>i. u16le b (off + i * 2)) [0..<n]), off + n * 2))"

definition decode_portable :: "u8 list \<Rightarrow> (player_connection_data \<times> nat) option" where
  "decode_portable b =
     (case decode_id b 0 of
        None \<Rightarrow> None
      | Some (player_id, off) \<Rightarrow>
          (case decode_id b off of
             None \<Rightarrow> None
           | Some (platform_player_id, off) \<Rightarrow>
               (case pod_decode (drop off b) of
                  None \<Rightarrow> None
                | Some pod \<Rightarrow>
                    Some (\<lparr>pc_player_id = player_id, pc_platform_player_id = platform_player_id, pc_pod = pod\<rparr>,
                          off + POD_WIRE_LEN))))"

definition id_ok :: "rust_string \<Rightarrow> bool" where
  "id_ok s \<longleftrightarrow> valid_string s \<and> length (encode_utf16 s) < 2 ^ 16"

lemma u16le_units:
  "i < length us \<Longrightarrow> u16le (concat (map le16 us) @ rest) (i * 2) = us ! i"
proof (induction us arbitrary: i)
  case (Cons u us)
  then show ?case by (cases i) (simp_all add: u16le_skip, simp add: u16le_def)
qed simp

lemma length_concat_le16 [simp]: "length (concat (map le16 us)) = 2 * length us"
  by (induction us) auto

lemma decode_id_encode:
  assumes "id_ok s"
  shows "decode_id (pre @ encode_id s @ rest) (length pre) = Some (s, length pre + length (encode_id s))"
proof -
  define us where "us = encode_utf16 s"
  have n: "unat (of_nat (length us) :: u16) = length us"
    using assms by (simp add: id_ok_def us_def unsigned_of_nat take_bit_nat_eq_self)
  have "u16le (pre @ encode_id s @ rest) (length pre + 2 + i * 2) = us ! i" if "i < length us" for i
    using u16le_units [OF that, of rest] by (simp add: encode_id_def Let_def u16le_skip flip: us_def)
  then have "map (\<lambda>i. u16le (pre @ encode_id s @ rest) (length pre + 2 + i * 2)) [0..<length us] = us"
    by (intro nth_equalityI) auto
  moreover have "u16le (pre @ encode_id s @ rest) (length pre) = of_nat (length us)"
    by (simp add: encode_id_def Let_def u16le_skip us_def) (simp add: u16le_def)
  moreover have "length (encode_id s) = 2 + length us * 2" by (simp add: encode_id_def Let_def us_def)
  ultimately show ?thesis
    using assms n from_utf16_lossy_encode [of s]
    by (simp add: decode_id_def Let_def id_ok_def us_def)
qed

lemma length_pod_encode [simp]: "length (pod_encode p) = 11"
  by (simp add: pod_encode_def)

lemma decode_portable_encode:
  assumes "id_ok (pc_player_id p)" "id_ok (pc_platform_player_id p)"
  shows "decode_portable (encode_portable p @ rest) = Some (p, length (encode_portable p))"
  using decode_id_encode [of "pc_player_id p" "[]" "encode_id (pc_platform_player_id p) @ pod_encode (pc_pod p) @ rest"]
    decode_id_encode [of "pc_platform_player_id p" "encode_id (pc_player_id p)" "pod_encode (pc_pod p) @ rest"] assms
  by (simp add: decode_portable_def encode_portable_def pod_decode_encode POD_WIRE_LEN_def)

interpretation player_record: prefix_codec encode_portable decode_portable
  "\<lambda>p. id_ok (pc_player_id p) \<and> id_ok (pc_platform_player_id p)"
proof
  show "encode_portable p \<noteq> []" for p by (simp add: encode_portable_def pod_encode_def)
qed (simp add: decode_portable_encode)

text \<open>An id that is read back has a length that fits 16 bits: decoded text never has more units.\<close>

lemma length_utf16_lossy: "length (encode_utf16 (from_utf16_lossy us)) \<le> length us"
proof (induction us rule: from_utf16_lossy.induct)
  case (2 u)
  have "unat u < 0x10000" using unsigned_less [of u] by simp
  then show ?case by (simp add: encode_utf16_def utf16_char_def)
next
  case (3 u v us)
  have "unat u < 0x10000" using unsigned_less [of u] by simp
  then show ?case using 3 by (auto simp: encode_utf16_def utf16_char_def)
qed (simp add: encode_utf16_def)

lemma decode_id_short:
  assumes "decode_id b off = Some (s, k)"
  shows "length (encode_utf16 s) < 2 ^ 16"
proof -
  have "unat (u16le b off) < 2 ^ 16" using unsigned_less [of "u16le b off"] by simp
  then show ?thesis
    using assms length_utf16_lossy [of "map (\<lambda>i. u16le b (off + 2 + i * 2)) [0..<unat (u16le b off)]"]
    by (auto simp: decode_id_def Let_def split: if_splits)
qed

lemma decode_portable_ids:
  "decode_portable b = Some (p, n) \<Longrightarrow>
   length (encode_utf16 (pc_player_id p)) < 2 ^ 16 \<and> length (encode_utf16 (pc_platform_player_id p)) < 2 ^ 16"
  by (auto simp: decode_portable_def dest!: decode_id_short split: option.splits prod.splits)

section \<open>Properties\<close>

text \<open>
  C29: The setup records survive their byte images. The settings decoder accepts exactly the buffers
  that begin with the image of the settings it returns; a full record whose texts fit their fields is
  2031 bytes and is read back whole, whatever follows it.
\<close>

theorem setup_records_exact:
  "(gcd_decode b = Some g \<longleftrightarrow> (\<exists>rest. b = gcd_encode g @ rest)) \<and>
   (full_ok f \<longrightarrow> length (full_encode f) = 2031 \<and> full_decode (full_encode f @ rest) = Some f)"
proof -
  have "gcd_decode b = Some g \<Longrightarrow> \<exists>rest. b = gcd_encode g @ rest"
    using gcd_encode_decode by (metis append_take_drop_id)
  then show ?thesis
    using gcd_decode_encode full_decode_encode length_full_encode by (auto simp: full_ok_def)
qed

definition sample_full :: game_connection_data_full where
  "sample_full =
     \<lparr>f_data = game_connection_data_default\<lparr>g_seed := 7\<rparr>, f_scenario_or_script_name = to_rust_string ''alpine'',
      f_save_name = to_rust_string ''autosave'', f_desc = [], f_mod_name = [0xE9], f_mod_desc = [],
      f_mod_size = 1234, f_mod_checksum = 0xdeadbeef, f_mod_workshop_id = 0x1122334455667788,
      f_scenario_data = scen_default\<lparr>sp_num_leaders := 6\<rparr>, f_scenario_size = 11, f_scenario_checksum = 22,
      f_scenario_num_files = 33, f_scenario_workshop_id = 44\<rparr>"

theorem setup_records_exact_witness:
  "gcd_decode (gcd_encode (f_data sample_full)) = Some (f_data sample_full) \<and>
   full_decode (full_encode sample_full) = Some sample_full"
proof -
  have "full_ok sample_full"
    by (simp add: full_ok_def sample_full_def narrow_ok_def wide_ok_def scen_ok_def scen_default_def
        valid_string_def is_scalar_def to_rust_string_def as_bytes_def utf8_char_def)
  then show ?thesis
    using setup_records_exact [of "gcd_encode (f_data sample_full)" "f_data sample_full" sample_full "[]"] by simp
qed

text \<open>
  C30: A player record is read back from its portable form, with the rest of the buffer untouched,
  exactly when both ids have fewer than 65536 UTF-16 units; so does a list of them. The length of a
  longer id is cut to 16 bits, and the record is then lost without an error on the writing side.
\<close>

theorem player_records_roundtrip:
  assumes "valid_string (pc_player_id p)" "valid_string (pc_platform_player_id p)"
  shows "(decode_portable (encode_portable p @ rest) = Some (p, length (encode_portable p)) \<longleftrightarrow>
      length (encode_utf16 (pc_player_id p)) < 2 ^ 16 \<and> length (encode_utf16 (pc_platform_player_id p)) < 2 ^ 16) \<and>
    ((\<forall>q\<in>set ps. id_ok (pc_player_id q) \<and> id_ok (pc_platform_player_id q)) \<longrightarrow>
      read_stream decode_portable (concat (map encode_portable ps)) = (ps, []))"
  using assms decode_portable_encode [of p rest] decode_portable_ids [of "encode_portable p @ rest" p]
    player_record.read_stream_concat [of ps]
  by (auto simp: id_ok_def)

definition sample_player :: player_connection_data where
  "sample_player =
     \<lparr>pc_player_id = to_rust_string ''A1B2C3D4E5F60718'', pc_platform_player_id = [0x1F600],
      pc_pod = player_slot_pod_default\<lparr>pp_elo := 1500, pp_ready := 1\<rparr>\<rparr>"

theorem player_records_roundtrip_witness:
  "read_stream decode_portable (concat (map encode_portable [sample_player, sample_player])) =
     ([sample_player, sample_player], [])"
proof -
  have "valid_string (pc_player_id sample_player)" "valid_string (pc_platform_player_id sample_player)"
    "length (encode_utf16 (pc_player_id sample_player)) < 2 ^ 16"
    "length (encode_utf16 (pc_platform_player_id sample_player)) < 2 ^ 16"
    by (simp_all add: sample_player_def valid_to_rust_string valid_string_def is_scalar_def to_rust_string_def
        encode_utf16_def utf16_char_def)
  then show ?thesis
    using player_records_roundtrip [of sample_player "[]" "[sample_player, sample_player]"] by (simp add: id_ok_def)
qed

end
