(* ===== verification/Rust_Numbers.thy ===== *)
theory Rust_Numbers
  imports Rust_Text
begin

text \<open>
  Integers as decimal text: \<^verbatim>\<open>to_string\<close> and \<^verbatim>\<open>str::parse\<close> of the standard library, with their signs and
  bounds, and the round trip between them.
\<close>

section \<open>Decimal text\<close>

definition to_string :: "nat \<Rightarrow> rust_string" where "to_string n = to_rust_string (show_nat n)"
definition to_string_i32 :: "i32 \<Rightarrow> rust_string" where "to_string_i32 w = to_rust_string (show_int (sint w))"

text \<open>The digits of a number that must not exceed a bound.\<close>

fun parse_digits :: "nat \<Rightarrow> nat \<Rightarrow> rust_string \<Rightarrow> nat option" where
  "parse_digits bound acc [] = Some acc"
| "parse_digits bound acc (c # cs) =
     (if 48 \<le> c \<and> c \<le> 57
      then let acc' = acc * 10 + (c - 48) in if bound < acc' then None else parse_digits bound acc' cs
      else None)"

text \<open>\<^verbatim>\<open>parse\<close> of an unsigned type: a leading plus is allowed, a sign alone is not.\<close>

definition parse_unsigned :: "nat \<Rightarrow> rust_string \<Rightarrow> nat option" where
  "parse_unsigned bound s =
     (if s = [] \<or> s = [0x2B] \<or> s = [0x2D] then None
      else parse_digits bound 0 (if hd s = 0x2B then tl s else s))"

definition parse_u8 :: "rust_string \<Rightarrow> u8 option" where
  "parse_u8 s = map_option of_nat (parse_unsigned (2 ^ 8 - 1) s)"

definition parse_u32 :: "rust_string \<Rightarrow> u32 option" where
  "parse_u32 s = map_option of_nat (parse_unsigned (2 ^ 32 - 1) s)"

definition parse_i32 :: "rust_string \<Rightarrow> i32 option" where
  "parse_i32 s =
     (if s = [] \<or> s = [0x2B] \<or> s = [0x2D] then None
      else if hd s = 0x2D then map_option (\<lambda>n. - of_nat n) (parse_digits (2 ^ 31) 0 (tl s))
      else map_option of_nat (parse_digits (2 ^ 31 - 1) 0 (if hd s = 0x2B then tl s else s)))"

section \<open>Printing and parsing\<close>

lemma to_rust_string_append [simp]: "to_rust_string (xs @ ys) = to_rust_string xs @ to_rust_string ys"
  by (simp add: to_rust_string_def)

lemma to_rust_string_inject [simp]: "to_rust_string xs = to_rust_string ys \<longleftrightarrow> xs = ys"
  unfolding to_rust_string_def by (rule inj_eq) (simp add: inj_on_def)

lemma digit_code: "d < 10 \<Longrightarrow> to_rust_string [digit_char d] = [48 + d]"
  by (simp add: to_rust_string_def digit_char_def)

lemma parse_digits_show:
  "n \<le> bound \<Longrightarrow> parse_digits bound 0 (to_rust_string (show_nat n) @ cs) = parse_digits bound n cs"
proof (induction n arbitrary: cs rule: show_nat.induct)
  case (1 n)
  show ?case
  proof (cases "n < 10")
    case True
    then show ?thesis using 1 digit_code [of n] by (subst show_nat.simps) simp
  next
    case False
    have "n mod 10 \<le> 9" by simp
    then show ?thesis
      using False 1(1) [of "[48 + n mod 10] @ cs"] 1(2) digit_code [of "n mod 10"]
      by (subst show_nat.simps) (simp add: Let_def)
  qed
qed

lemma show_nat_nonempty [simp]: "show_nat n \<noteq> []"
  by (subst show_nat.simps) simp

lemma show_nat_digits: "set (to_rust_string (show_nat n)) \<subseteq> {48..57}"
proof (induction n rule: show_nat.induct)
  case (1 n)
  then show ?case
    using digit_code [of n] digit_code [of "n mod 10"] by (subst show_nat.simps) auto
qed

lemma hd_to_string: "hd (to_rust_string (show_nat n)) \<in> {48..57}" "to_rust_string (show_nat n) \<noteq> []"
  using show_nat_digits [of n] hd_in_set [of "to_rust_string (show_nat n)"]
  by (auto simp: to_rust_string_def)

lemma not_sign: "to_rust_string (show_nat n) \<noteq> [0x2B]" "to_rust_string (show_nat n) \<noteq> [0x2D]"
  using hd_to_string [of n] by auto

lemma parse_unsigned_show: "n \<le> bound \<Longrightarrow> parse_unsigned bound (to_string n) = Some n"
  using parse_digits_show [of n bound "[]"] hd_to_string [of n] not_sign [of n]
  by (auto simp: parse_unsigned_def to_string_def)

lemma parse_u8_show [simp]: "parse_u8 (to_string (unat w)) = Some w"
  using unsigned_less [of w, where ?'a = nat] parse_unsigned_show [of "unat w" 255] by (simp add: parse_u8_def)

lemma parse_u32_show [simp]: "parse_u32 (to_string (unat w)) = Some w"
  using unsigned_less [of w, where ?'a = nat] parse_unsigned_show [of "unat w" 4294967295] by (simp add: parse_u32_def)

lemma parse_i32_show [simp]: "parse_i32 (to_string_i32 w) = Some w"
proof (cases "sint w < 0")
  case True
  define n where "n = nat (- sint w)"
  have "- (2 ^ 31) \<le> sint w" using sint_greater_eq [of w] by simp
  then have "n \<le> 2 ^ 31" by (simp add: n_def)
  moreover have "to_string_i32 w = 0x2D # to_rust_string (show_nat n)"
    using True by (simp add: to_string_i32_def show_int_def n_def to_rust_string_def)
  moreover have "- of_nat n = w" using True by (simp add: n_def)
  ultimately show ?thesis
    using parse_digits_show [of n "2 ^ 31" "[]"] hd_to_string(2) [of n] by (simp add: parse_i32_def)
next
  case False
  define n where "n = nat (sint w)"
  have "sint w < 2 ^ 31" using sint_less [of w] by simp
  then have "n \<le> 2 ^ 31 - 1" using False by (simp add: n_def)
  moreover have "to_string_i32 w = to_rust_string (show_nat n)"
    using False by (simp add: to_string_i32_def show_int_def n_def)
  moreover have "of_nat n = w" using False by (simp add: n_def)
  ultimately show ?thesis
    using parse_digits_show [of n "2 ^ 31 - 1" "[]"] hd_to_string [of n] not_sign [of n]
    by (simp add: parse_i32_def)
qed

lemma to_string_inject: "to_string m = to_string n \<longleftrightarrow> m = n"
  by (metis max.cobounded1 max.cobounded2 option.inject parse_unsigned_show)

lemma to_string_unat_inject [simp]: "to_string (unat v) = to_string (unat w) \<longleftrightarrow> v = (w :: 'a::len word)"
  by (metis to_string_inject unsigned_word_eqI)

lemma to_string_i32_inject [simp]: "to_string_i32 v = to_string_i32 w \<longleftrightarrow> v = w"
  by (metis option.inject parse_i32_show)

end
