(* ===== verification/Lobby.thy ===== *)
theory Lobby
  imports Setup Rust_Numbers "HOL-Library.List_Lexorder"
begin

text \<open>
  The lobby attributes of \<^verbatim>\<open>src/crates/don-net/src/lobby.rs\<close>: game settings and player slots as a map
  from text to text, the reverse direction, and the delta that a host publishes. The properties are
  that the settings with a key survive, and that peers who apply every published delta hold the
  host's slots.
\<close>

section \<open>Keys\<close>

datatype setting_field =
  TeamStyle | MapStyle | MapSize | GameSpeed | GameRules | StartingTown | StartingResources |
  StartingResources2 | TechCost | RevealMap | PopLimit | RushRules | CannonTimes |
  StartingTechnology | StartingTechnology2 | EndingTechnology | Elimination | Victory | WonderWin |
  ScoreGoal | PopWin | TimeLimit | Chairs | EconWin | ScenarioType | ScriptType

definition SETTING_KEYS :: "(rust_string \<times> setting_field) list" where
  "SETTING_KEYS = map (\<lambda>(k, f). (to_rust_string k, f))
    [(''teamstyle'', TeamStyle), (''map_style'', MapStyle), (''map_size'', MapSize),
     (''gamespeed'', GameSpeed), (''gamerules'', GameRules), (''starting_town'', StartingTown),
     (''starting_resources'', StartingResources), (''starting_resources2'', StartingResources2),
     (''tech_cost'', TechCost), (''reveal_map'', RevealMap), (''pop_limit'', PopLimit),
     (''rush_rules'', RushRules), (''cannontime'', CannonTimes),
     (''starting_technology'', StartingTechnology),
     (''starting_technology2'', StartingTechnology2), (''ending_technology'', EndingTechnology),
     (''elimination'', Elimination), (''victory'', Victory), (''wonderwin'', WonderWin),
     (''score_goal'', ScoreGoal), (''popwin'', PopWin), (''time_limit'', TimeLimit),
     (''chairs'', Chairs), (''echowin'', EconWin), (''scenario_type'', ScenarioType),
     (''script_type'', ScriptType)]"

fun setting_get :: "setting_field \<Rightarrow> game_connection_data \<Rightarrow> u8" where
  "setting_get TeamStyle g = g_team_style g"
| "setting_get MapStyle g = g_map_style g"
| "setting_get MapSize g = g_map_size g"
| "setting_get GameSpeed g = g_game_speed g"
| "setting_get GameRules g = g_game_rules g"
| "setting_get StartingTown g = g_starting_town g"
| "setting_get StartingResources g = g_starting_resources g"
| "setting_get StartingResources2 g = g_starting_resources2 g"
| "setting_get TechCost g = g_tech_cost g"
| "setting_get RevealMap g = g_reveal_map g"
| "setting_get PopLimit g = g_pop_limit g"
| "setting_get RushRules g = g_rush_rules g"
| "setting_get CannonTimes g = g_cannon_times g"
| "setting_get StartingTechnology g = g_starting_technology g"
| "setting_get StartingTechnology2 g = g_starting_technology2 g"
| "setting_get EndingTechnology g = g_ending_technology g"
| "setting_get Elimination g = g_elimination g"
| "setting_get Victory g = g_victory g"
| "setting_get WonderWin g = g_wonderwin g"
| "setting_get ScoreGoal g = g_score_goal g"
| "setting_get PopWin g = g_popwin g"
| "setting_get TimeLimit g = g_time_limit g"
| "setting_get Chairs g = g_chairs g"
| "setting_get EconWin g = g_econwin g"
| "setting_get ScenarioType g = g_scenario_type g"
| "setting_get ScriptType g = g_script_type g"

fun setting_set :: "setting_field \<Rightarrow> u8 \<Rightarrow> game_connection_data \<Rightarrow> game_connection_data" where
  "setting_set TeamStyle v g = g\<lparr>g_team_style := v\<rparr>"
| "setting_set MapStyle v g = g\<lparr>g_map_style := v\<rparr>"
| "setting_set MapSize v g = g\<lparr>g_map_size := v\<rparr>"
| "setting_set GameSpeed v g = g\<lparr>g_game_speed := v\<rparr>"
| "setting_set GameRules v g = g\<lparr>g_game_rules := v\<rparr>"
| "setting_set StartingTown v g = g\<lparr>g_starting_town := v\<rparr>"
| "setting_set StartingResources v g = g\<lparr>g_starting_resources := v\<rparr>"
| "setting_set StartingResources2 v g = g\<lparr>g_starting_resources2 := v\<rparr>"
| "setting_set TechCost v g = g\<lparr>g_tech_cost := v\<rparr>"
| "setting_set RevealMap v g = g\<lparr>g_reveal_map := v\<rparr>"
| "setting_set PopLimit v g = g\<lparr>g_pop_limit := v\<rparr>"
| "setting_set RushRules v g = g\<lparr>g_rush_rules := v\<rparr>"
| "setting_set CannonTimes v g = g\<lparr>g_cannon_times := v\<rparr>"
| "setting_set StartingTechnology v g = g\<lparr>g_starting_technology := v\<rparr>"
| "setting_set StartingTechnology2 v g = g\<lparr>g_starting_technology2 := v\<rparr>"
| "setting_set EndingTechnology v g = g\<lparr>g_ending_technology := v\<rparr>"
| "setting_set Elimination v g = g\<lparr>g_elimination := v\<rparr>"
| "setting_set Victory v g = g\<lparr>g_victory := v\<rparr>"
| "setting_set WonderWin v g = g\<lparr>g_wonderwin := v\<rparr>"
| "setting_set ScoreGoal v g = g\<lparr>g_score_goal := v\<rparr>"
| "setting_set PopWin v g = g\<lparr>g_popwin := v\<rparr>"
| "setting_set TimeLimit v g = g\<lparr>g_time_limit := v\<rparr>"
| "setting_set Chairs v g = g\<lparr>g_chairs := v\<rparr>"
| "setting_set EconWin v g = g\<lparr>g_econwin := v\<rparr>"
| "setting_set ScenarioType v g = g\<lparr>g_scenario_type := v\<rparr>"
| "setting_set ScriptType v g = g\<lparr>g_script_type := v\<rparr>"

definition player_key :: "string \<Rightarrow> nat \<Rightarrow> rust_string" where
  "player_key prefix slot = to_rust_string (prefix @ show_nat slot)"

definition GAME_SEED :: rust_string where "GAME_SEED = to_rust_string ''game_seed''"
definition LOBBY_FLAGS :: rust_string where "LOBBY_FLAGS = to_rust_string ''lobby_flags''"
definition ELORANK :: rust_string where "ELORANK = to_rust_string ''elorank''"

section \<open>Settings as attributes\<close>

type_synonym attributes = "(rust_string, rust_string) btree"

definition game_to_attributes :: "game_connection_data \<Rightarrow> attributes" where
  "game_to_attributes g =
     (let a = fold (\<lambda>(k, f). bt_insert k (to_string (unat (setting_get f g)))) SETTING_KEYS [];
          a = bt_insert GAME_SEED (to_string (unat (g_seed g))) a;
          a = bt_insert LOBBY_FLAGS (to_string_i32 (g_flags g)) a
      in bt_insert ELORANK (to_string_i32 (g_lobby_elo g)) a)"

text \<open>\<^verbatim>\<open>if let Some(v) = a.get(k).and_then(|v| v.parse().ok()) { ... }\<close>\<close>

definition apply_attribute ::
    "attributes \<Rightarrow> rust_string \<Rightarrow> (rust_string \<Rightarrow> 'v option) \<Rightarrow> ('v \<Rightarrow> 's \<Rightarrow> 's) \<Rightarrow> 's \<Rightarrow> 's" where
  "apply_attribute a k parse upd s =
     (case Option.bind (bt_get a k) parse of Some v \<Rightarrow> upd v s | None \<Rightarrow> s)"

definition attributes_to_game :: "attributes \<Rightarrow> game_connection_data \<Rightarrow> game_connection_data" where
  "attributes_to_game a g =
     (let g = fold (\<lambda>(k, f). apply_attribute a k parse_u8 (setting_set f)) SETTING_KEYS g;
          g = apply_attribute a GAME_SEED parse_u32 (\<lambda>v g. g\<lparr>g_seed := v\<rparr>) g;
          g = apply_attribute a LOBBY_FLAGS parse_i32 (\<lambda>v g. g\<lparr>g_flags := v\<rparr>) g
      in apply_attribute a ELORANK parse_i32 (\<lambda>v g. g\<lparr>g_lobby_elo := v\<rparr>) g)"

section \<open>Player slots as attributes\<close>

definition player_to_attributes :: "nat \<Rightarrow> player_slot_pod \<Rightarrow> attributes" where
  "player_to_attributes slot p =
     fold (\<lambda>(k, v). bt_insert k v)
       [(player_key ''elo_'' slot, to_string_i32 (pp_elo p)),
        (player_key ''slot_type_'' slot, to_string (unat (pp_slot_type p))),
        (player_key ''tribe_'' slot, to_string (unat (pp_tribe p))),
        (player_key ''who_'' slot, to_string (unat (pp_who p))),
        (player_key ''team_'' slot, to_string (unat (pp_team p))),
        (player_key ''handicap_'' slot, to_string (unat (pp_handicap p))),
        (player_key ''diff_'' slot, to_string (unat (pp_diff p))),
        (player_key ''steam_ready_'' slot, to_string (unat (pp_ready p)))] []"

definition attributes_to_player :: "attributes \<Rightarrow> nat \<Rightarrow> player_slot_pod \<Rightarrow> player_slot_pod" where
  "attributes_to_player a slot p =
     (let p = apply_attribute a (player_key ''elo_'' slot) parse_i32 (\<lambda>v p. p\<lparr>pp_elo := v\<rparr>) p;
          p = apply_attribute a (player_key ''slot_type_'' slot) parse_u8 (\<lambda>v p. p\<lparr>pp_slot_type := v\<rparr>) p;
          p = apply_attribute a (player_key ''tribe_'' slot) parse_u8 (\<lambda>v p. p\<lparr>pp_tribe := v\<rparr>) p;
          p = apply_attribute a (player_key ''who_'' slot) parse_u8 (\<lambda>v p. p\<lparr>pp_who := v\<rparr>) p;
          p = apply_attribute a (player_key ''team_'' slot) parse_u8 (\<lambda>v p. p\<lparr>pp_team := v\<rparr>) p;
          p = apply_attribute a (player_key ''handicap_'' slot) parse_u8 (\<lambda>v p. p\<lparr>pp_handicap := v\<rparr>) p;
          p = apply_attribute a (player_key ''diff_'' slot) parse_u8 (\<lambda>v p. p\<lparr>pp_diff := v\<rparr>) p
      in apply_attribute a (player_key ''steam_ready_'' slot) parse_u8 (\<lambda>v p. p\<lparr>pp_ready := v\<rparr>) p)"

definition player_delta :: "nat \<Rightarrow> player_slot_pod \<Rightarrow> player_slot_pod \<Rightarrow> bool \<Rightarrow> attributes" where
  "player_delta slot prev next force =
     (let a = player_to_attributes slot next in
      if force then a
      else let b = player_to_attributes slot prev in filter (\<lambda>(k, v). bt_get b k \<noteq> Some v) a)"

section \<open>Attributes of a list of pairs\<close>

lemma bt_wf_fold_insert: "bt_wf m \<Longrightarrow> bt_wf (fold (\<lambda>(k, v). bt_insert k v) kvs m)"
  by (induction kvs arbitrary: m) (auto simp: bt_wf_insert)

lemma bt_get_fold_insert:
  "\<lbrakk>bt_wf m; distinct (map fst kvs)\<rbrakk> \<Longrightarrow>
   bt_get (fold (\<lambda>(k, v). bt_insert k v) kvs m) k = (case map_of kvs k of Some v \<Rightarrow> Some v | None \<Rightarrow> bt_get m k)"
proof (induction kvs arbitrary: m)
  case (Cons kv kvs)
  have "map_of kvs (fst kv) = None" using Cons.prems(2) by (auto simp: map_of_eq_None_iff)
  then show ?case
    using Cons.IH [OF bt_wf_insert [OF Cons.prems(1)]] Cons.prems
    by (cases kv) (auto simp: bt.get_insert split: option.splits)
qed simp

section \<open>Settings survive\<close>

text \<open>All attributes of a game as one list of pairs.\<close>

definition game_pairs :: "game_connection_data \<Rightarrow> (rust_string \<times> rust_string) list" where
  "game_pairs g =
     map (\<lambda>(k, f). (k, to_string (unat (setting_get f g)))) SETTING_KEYS @
     [(GAME_SEED, to_string (unat (g_seed g))), (LOBBY_FLAGS, to_string_i32 (g_flags g)),
      (ELORANK, to_string_i32 (g_lobby_elo g))]"

lemma game_to_attributes_pairs: "game_to_attributes g = fold (\<lambda>(k, v). bt_insert k v) (game_pairs g) []"
  by (simp add: game_to_attributes_def game_pairs_def fold_map comp_def case_prod_unfold Let_def)

lemma distinct_game_keys: "distinct (map fst (game_pairs g))"
  by (simp add: game_pairs_def SETTING_KEYS_def GAME_SEED_def LOBBY_FLAGS_def ELORANK_def to_rust_string_def)

lemma game_attribute: "(k, v) \<in> set (game_pairs g) \<Longrightarrow> bt_get (game_to_attributes g) k = Some v"
  using distinct_game_keys [of g]
  by (simp add: game_to_attributes_pairs bt_get_fold_insert)

lemma game_setting:
  "(k, f) \<in> set SETTING_KEYS \<Longrightarrow> apply_attribute (game_to_attributes g) k parse_u8 (setting_set f) h =
     setting_set f (setting_get f g) h"
  using game_attribute [of k "to_string (unat (setting_get f g))" g]
  by (force simp: apply_attribute_def game_pairs_def)

lemma game_settings:
  "set kfs \<subseteq> set SETTING_KEYS \<Longrightarrow>
   fold (\<lambda>(k, f). apply_attribute (game_to_attributes g) k parse_u8 (setting_set f)) kfs h =
   fold (\<lambda>(k, f). setting_set f (setting_get f g)) kfs h"
  by (induction kfs arbitrary: h) (auto simp: game_setting)

text \<open>The settings that have no key in the schema.\<close>

definition keep_unpublished :: "game_connection_data \<Rightarrow> game_connection_data \<Rightarrow> game_connection_data" where
  "keep_unpublished h g = g
     \<lparr>g_players := g_players h, g_max_observers := g_max_observers h, g_difficulty := g_difficulty h,
      g_mods := g_mods h, g_checksum_window_size := g_checksum_window_size h,
      g_checksum_deep := g_checksum_deep h, g_checksum_failure_threshold := g_checksum_failure_threshold h\<rparr>"

lemma fold_setting_keys:
  "fold (\<lambda>(k, f). setting_set f (setting_get f g)) SETTING_KEYS h =
     (keep_unpublished h g)\<lparr>g_seed := g_seed h, g_flags := g_flags h, g_lobby_elo := g_lobby_elo h\<rparr>"
  by (cases g; cases h) (simp add: SETTING_KEYS_def keep_unpublished_def)

lemma lobby_settings: "attributes_to_game (game_to_attributes g) h = keep_unpublished h g"
proof -
  have "bt_get (game_to_attributes g) GAME_SEED = Some (to_string (unat (g_seed g)))"
    "bt_get (game_to_attributes g) LOBBY_FLAGS = Some (to_string_i32 (g_flags g))"
    "bt_get (game_to_attributes g) ELORANK = Some (to_string_i32 (g_lobby_elo g))"
    by (rule game_attribute, simp add: game_pairs_def)+
  then show ?thesis
    by (simp add: attributes_to_game_def game_settings fold_setting_keys apply_attribute_def keep_unpublished_def)
qed

section \<open>Slots survive\<close>

text \<open>A slot key determines its prefix and its slot: a prefix does not end in a digit.\<close>

lemma digits_split:
  assumes "xs @ ds = ys @ es" "set ds \<subseteq> D" "set es \<subseteq> D" "xs \<noteq> []" "ys \<noteq> []" "last xs \<notin> D" "last ys \<notin> D"
  shows "xs = ys \<and> ds = es"
proof -
  have "takeWhile (\<lambda>c. c \<in> D) (rev (zs @ fs)) = rev fs"
    if fs: "set fs \<subseteq> D" and zs: "zs \<noteq> []" "last zs \<notin> D" for zs fs
  proof -
    obtain zs' z where "zs = zs' @ [z]" using zs(1) by (metis rev_exhaust)
    then show ?thesis using fs zs by (simp add: takeWhile_append subset_iff)
  qed
  from this [of ds xs] this [of es ys] show ?thesis using assms by (metis append_same_eq rev_rev_ident)
qed

definition slot_prefixes :: "string list" where
  "slot_prefixes = [''elo_'', ''slot_type_'', ''tribe_'', ''who_'', ''team_'', ''handicap_'', ''diff_'', ''steam_ready_'']"

lemma player_key_inject:
  assumes "p \<in> set slot_prefixes" "q \<in> set slot_prefixes"
  shows "player_key p s = player_key q t \<longleftrightarrow> p = q \<and> s = t"
proof
  have pre: "to_rust_string x \<noteq> [] \<and> last (to_rust_string x) \<notin> {48..57}" if "x \<in> set slot_prefixes" for x
    using that by (auto simp: slot_prefixes_def to_rust_string_def)
  assume "player_key p s = player_key q t"
  then have "to_rust_string p = to_rust_string q \<and> to_rust_string (show_nat s) = to_rust_string (show_nat t)"
    using pre assms show_nat_digits by (intro digits_split [where D = "{48..57}"]) (auto simp: player_key_def)
  then show "p = q \<and> s = t"
    using to_string_inject [of s t] by (simp add: to_string_def)
qed simp

text \<open>The text that a slot publishes under each prefix.\<close>

definition slot_texts :: "player_slot_pod \<Rightarrow> (string \<times> rust_string) list" where
  "slot_texts p =
     [(''elo_'', to_string_i32 (pp_elo p)), (''slot_type_'', to_string (unat (pp_slot_type p))),
      (''tribe_'', to_string (unat (pp_tribe p))), (''who_'', to_string (unat (pp_who p))),
      (''team_'', to_string (unat (pp_team p))), (''handicap_'', to_string (unat (pp_handicap p))),
      (''diff_'', to_string (unat (pp_diff p))), (''steam_ready_'', to_string (unat (pp_ready p)))]"

lemma keys_slot_texts: "map fst (slot_texts p) = slot_prefixes"
  by (simp add: slot_texts_def slot_prefixes_def)

lemma player_to_attributes_pairs:
  "player_to_attributes s p = fold (\<lambda>(k, v). bt_insert k v) (map (\<lambda>(q, v). (player_key q s, v)) (slot_texts p)) []"
  by (simp add: player_to_attributes_def slot_texts_def)

lemma map_of_slot_keys:
  "\<lbrakk>set (map fst kvs) \<subseteq> set slot_prefixes; q \<in> set slot_prefixes\<rbrakk> \<Longrightarrow>
   map_of (map (\<lambda>(p, v). (player_key p s, v)) kvs) (player_key q t) = (if s = t then map_of kvs q else None)"
  by (induction kvs) (auto simp: player_key_inject)

lemma bt_wf_player_to_attributes: "bt_wf (player_to_attributes s p)"
  by (simp add: player_to_attributes_pairs bt_wf_fold_insert)

lemma distinct_slot_keys: "distinct (map (\<lambda>q. player_key q s) slot_prefixes)"
  by (auto simp: distinct_map inj_on_def player_key_inject) (simp add: slot_prefixes_def)

lemma bt_get_player_to_attributes:
  assumes "q \<in> set slot_prefixes"
  shows "bt_get (player_to_attributes s p) (player_key q t) = (if s = t then map_of (slot_texts p) q else None)"
proof -
  have "map fst (map (\<lambda>(q, v). (player_key q s, v)) (slot_texts p)) = map (\<lambda>q. player_key q s) (map fst (slot_texts p))"
    by (simp add: comp_def case_prod_unfold)
  then have "distinct (map fst (map (\<lambda>(q, v). (player_key q s, v)) (slot_texts p)))"
    using distinct_slot_keys [of s] keys_slot_texts [of p] by simp
  then show ?thesis
    using assms keys_slot_texts [of p] map_of_slot_keys [of "slot_texts p" q s t]
    by (simp add: player_to_attributes_pairs bt_get_fold_insert split: option.splits)
qed

lemma map_of_filter:
  "distinct (map fst m) \<Longrightarrow>
   map_of (filter (\<lambda>(k, v). P k v) m) k = (case map_of m k of Some v \<Rightarrow> if P k v then Some v else None | None \<Rightarrow> None)"
  by (induction m) (auto simp: map_of_eq_None_iff split: option.splits)

lemma bt_get_player_delta:
  assumes "q \<in> set slot_prefixes"
  shows "bt_get (player_delta s prev pod force) (player_key q t) =
    (if s = t \<and> (force \<or> map_of (slot_texts prev) q \<noteq> map_of (slot_texts pod) q)
     then map_of (slot_texts pod) q else None)"
proof -
  have "distinct (map fst (player_to_attributes s pod))"
    using bt_wf_player_to_attributes [of s pod] by (simp add: bt_wf_def strict_sorted_iff)
  then show ?thesis
    using bt_get_player_to_attributes [OF assms]
    by (auto simp: player_delta_def Let_def bt_get_def map_of_filter split: option.splits)
qed

lemma slot_prefix_simps [simp]:
  "''elo_'' \<in> set slot_prefixes" "''slot_type_'' \<in> set slot_prefixes" "''tribe_'' \<in> set slot_prefixes"
  "''who_'' \<in> set slot_prefixes" "''team_'' \<in> set slot_prefixes" "''handicap_'' \<in> set slot_prefixes"
  "''diff_'' \<in> set slot_prefixes" "''steam_ready_'' \<in> set slot_prefixes"
  by (simp_all add: slot_prefixes_def)

text \<open>
  A field that a delta carries is set; one that it leaves out was the same before.
\<close>

lemma delta_fields:
  "pp_elo p = pp_elo prev \<Longrightarrow> apply_attribute (player_delta s prev pod force) (player_key ''elo_'' s) parse_i32
     (\<lambda>v p. p\<lparr>pp_elo := v\<rparr>) p = p\<lparr>pp_elo := pp_elo pod\<rparr>"
  "pp_slot_type p = pp_slot_type prev \<Longrightarrow> apply_attribute (player_delta s prev pod force) (player_key ''slot_type_'' s) parse_u8
     (\<lambda>v p. p\<lparr>pp_slot_type := v\<rparr>) p = p\<lparr>pp_slot_type := pp_slot_type pod\<rparr>"
  "pp_tribe p = pp_tribe prev \<Longrightarrow> apply_attribute (player_delta s prev pod force) (player_key ''tribe_'' s) parse_u8
     (\<lambda>v p. p\<lparr>pp_tribe := v\<rparr>) p = p\<lparr>pp_tribe := pp_tribe pod\<rparr>"
  "pp_who p = pp_who prev \<Longrightarrow> apply_attribute (player_delta s prev pod force) (player_key ''who_'' s) parse_u8
     (\<lambda>v p. p\<lparr>pp_who := v\<rparr>) p = p\<lparr>pp_who := pp_who pod\<rparr>"
  "pp_team p = pp_team prev \<Longrightarrow> apply_attribute (player_delta s prev pod force) (player_key ''team_'' s) parse_u8
     (\<lambda>v p. p\<lparr>pp_team := v\<rparr>) p = p\<lparr>pp_team := pp_team pod\<rparr>"
  "pp_handicap p = pp_handicap prev \<Longrightarrow> apply_attribute (player_delta s prev pod force) (player_key ''handicap_'' s) parse_u8
     (\<lambda>v p. p\<lparr>pp_handicap := v\<rparr>) p = p\<lparr>pp_handicap := pp_handicap pod\<rparr>"
  "pp_diff p = pp_diff prev \<Longrightarrow> apply_attribute (player_delta s prev pod force) (player_key ''diff_'' s) parse_u8
     (\<lambda>v p. p\<lparr>pp_diff := v\<rparr>) p = p\<lparr>pp_diff := pp_diff pod\<rparr>"
  "pp_ready p = pp_ready prev \<Longrightarrow> apply_attribute (player_delta s prev pod force) (player_key ''steam_ready_'' s) parse_u8
     (\<lambda>v p. p\<lparr>pp_ready := v\<rparr>) p = p\<lparr>pp_ready := pp_ready pod\<rparr>"
  by (cases p; simp add: apply_attribute_def bt_get_player_delta slot_texts_def)+

lemma delta_same_slot: "attributes_to_player (player_delta s prev pod force) s prev = pod"
  by (simp add: attributes_to_player_def Let_def delta_fields)

lemma delta_other_slot: "s \<noteq> t \<Longrightarrow> attributes_to_player (player_delta s prev pod force) t p = p"
  by (simp add: attributes_to_player_def apply_attribute_def bt_get_player_delta)

section \<open>Properties\<close>

text \<open>
  A host that publishes slot changes one after the other, each as the delta to its own table, and a
  peer that applies every published map to every slot of its table.
\<close>

fun publish :: "(nat \<times> player_slot_pod \<times> bool) list \<Rightarrow> (nat \<Rightarrow> player_slot_pod) \<Rightarrow>
    attributes list \<times> (nat \<Rightarrow> player_slot_pod)" where
  "publish [] table = ([], table)"
| "publish ((slot, pod, force) # changes) table =
     (let (published, table') = publish changes (table(slot := pod))
      in (player_delta slot (table slot) pod force # published, table'))"

definition receive :: "attributes list \<Rightarrow> (nat \<Rightarrow> player_slot_pod) \<Rightarrow> nat \<Rightarrow> player_slot_pod" where
  "receive = fold (\<lambda>a table slot. attributes_to_player a slot (table slot))"

text \<open>
  C28: Peers follow the host. Whatever slots the host changes in whatever order, with or without
  \<^verbatim>\<open>force\<close>, a peer that starts from the host's table and applies the published deltas ends with the
  host's table: deltas carry all that changed, and the keys of one slot never touch another.
\<close>

theorem peers_follow_host: "receive (fst (publish changes table)) table = snd (publish changes table)"
proof (induction changes table rule: publish.induct)
  case (2 slot pod force changes table)
  have "(\<lambda>i. attributes_to_player (player_delta slot (table slot) pod force) i (table i)) = table(slot := pod)"
    by (simp add: fun_eq_iff delta_same_slot delta_other_slot)
  then show ?case using 2 by (simp add: receive_def case_prod_unfold Let_def fun_upd_def)
qed (simp add: receive_def)

text \<open>
  Settings published as lobby attributes come back: a peer that reads them takes over every
  setting of the host except the seven that have no key (player and observer counts, difficulty,
  mods and the checksum parameters), which stay what the peer had.
\<close>

lemma settings_survive_lobby:
  "attributes_to_game (game_to_attributes g) h = keep_unpublished h g"
  by (rule lobby_settings)

end
