(* ===== verification/Float32.thy ===== *)
theory Float32
  imports Rust_Numbers
begin

text \<open>
  The type \<^verbatim>\<open>f32\<close> as the script machine uses it: IEEE 754 binary32 on bit patterns, with rounding to
  nearest, ties to even. A finite number is a sign, an integer significand and a power of two; the
  operations compute the exact result on integers (division and decimal parsing keep a sticky bit)
  and round once. Results that are not a number are the canonical quiet one, since the language
  leaves the payload open. \<^verbatim>\<open>powf\<close> is not here: its precision is up to the platform.
\<close>

section \<open>Formats\<close>

type_synonym f32 = "32 word"

definition F32_NAN :: f32 where "F32_NAN = 0x7FC00000"
definition F32_INFINITY :: f32 where "F32_INFINITY = 0x7F800000"
definition F32_ONE :: f32 where "F32_ONE = 0x3F800000"

definition f32_sign :: "f32 \<Rightarrow> bool" where "f32_sign b = bit b 31"
definition f32_exponent :: "f32 \<Rightarrow> nat" where "f32_exponent b = unat b div 2 ^ 23 mod 256"
definition f32_fraction :: "f32 \<Rightarrow> nat" where "f32_fraction b = unat b mod 2 ^ 23"
definition f32_is_nan :: "f32 \<Rightarrow> bool" where "f32_is_nan b \<longleftrightarrow> f32_exponent b = 255 \<and> f32_fraction b \<noteq> 0"
definition f32_is_inf :: "f32 \<Rightarrow> bool" where "f32_is_inf b \<longleftrightarrow> f32_exponent b = 255 \<and> f32_fraction b = 0"

text \<open>A finite number is \<open>f32_mant b * 2 powr f32_scale b\<close>, with its sign.\<close>

definition f32_mant :: "f32 \<Rightarrow> nat" where
  "f32_mant b = (if f32_exponent b = 0 then f32_fraction b else 2 ^ 23 + f32_fraction b)"

definition f32_scale :: "f32 \<Rightarrow> int" where
  "f32_scale b = (if f32_exponent b = 0 then -149 else int (f32_exponent b) - 150)"

section \<open>Rounding\<close>

fun bit_length :: "nat \<Rightarrow> nat" where
  "bit_length n = (if n = 0 then 0 else Suc (bit_length (n div 2)))"

declare bit_length.simps [simp del]

definition with_sign :: "bool \<Rightarrow> f32 \<Rightarrow> f32" where
  "with_sign s b = (if s then b OR 0x80000000 else b)"

text \<open>
  The nearest number to \<open>m * 2 powr e\<close>: at most 24 bits are kept, and the last one is worth at least
  \<open>2 powr -149\<close>. In the encoding a carry out of the significand moves the exponent by itself.
\<close>

definition f32_pack :: "bool \<Rightarrow> nat \<Rightarrow> int \<Rightarrow> f32" where
  "f32_pack s m e =
     (if m = 0 then with_sign s 0
      else
        let shift = max (int (bit_length m) - 24) (-149 - e);
            r = (if shift \<le> 0 then m * 2 ^ nat (- shift)
                 else
                   let q = m div 2 ^ nat shift; rem = m mod 2 ^ nat shift; half = 2 ^ (nat shift - 1) in
                   if half < rem \<or> rem = half \<and> odd q then q + 1 else q);
            code = nat (e + shift + 149) * 2 ^ 23 + r
        in with_sign s (if 0x7F800000 \<le> code then F32_INFINITY else of_nat code))"

text \<open>A quotient with its remainder as a sticky last bit.\<close>

definition jam_div :: "nat \<Rightarrow> nat \<Rightarrow> nat" where
  "jam_div m d = 2 * (m div d) + (if m mod d = 0 then 0 else 1)"

section \<open>Arithmetic\<close>

definition f32_neg :: "f32 \<Rightarrow> f32" where "f32_neg a = a XOR 0x80000000"

definition f32_signed_mant :: "int \<Rightarrow> f32 \<Rightarrow> int" where
  "f32_signed_mant e b =
     (let m = int (f32_mant b) * 2 ^ nat (f32_scale b - e) in if f32_sign b then - m else m)"

definition f32_add :: "f32 \<Rightarrow> f32 \<Rightarrow> f32" where
  "f32_add a b =
     (if f32_is_nan a \<or> f32_is_nan b then F32_NAN
      else if f32_is_inf a then (if f32_is_inf b \<and> f32_sign a \<noteq> f32_sign b then F32_NAN else a)
      else if f32_is_inf b then b
      else
        let e = min (f32_scale a) (f32_scale b);
            v = f32_signed_mant e a + f32_signed_mant e b
        in if v = 0 then with_sign (f32_sign a \<and> f32_sign b) 0 else f32_pack (v < 0) (nat \<bar>v\<bar>) e)"

definition f32_sub :: "f32 \<Rightarrow> f32 \<Rightarrow> f32" where "f32_sub a b = f32_add a (f32_neg b)"

definition f32_mul :: "f32 \<Rightarrow> f32 \<Rightarrow> f32" where
  "f32_mul a b =
     (let s = (f32_sign a \<noteq> f32_sign b) in
      if f32_is_nan a \<or> f32_is_nan b then F32_NAN
      else if f32_is_inf a \<or> f32_is_inf b
      then (if f32_mant a = 0 \<or> f32_mant b = 0 then F32_NAN else with_sign s F32_INFINITY)
      else f32_pack s (f32_mant a * f32_mant b) (f32_scale a + f32_scale b))"

definition f32_div :: "f32 \<Rightarrow> f32 \<Rightarrow> f32" where
  "f32_div a b =
     (let s = (f32_sign a \<noteq> f32_sign b) in
      if f32_is_nan a \<or> f32_is_nan b then F32_NAN
      else if f32_is_inf a then (if f32_is_inf b then F32_NAN else with_sign s F32_INFINITY)
      else if f32_is_inf b then with_sign s 0
      else if f32_mant b = 0 then (if f32_mant a = 0 then F32_NAN else with_sign s F32_INFINITY)
      else f32_pack s (jam_div (f32_mant a * 2 ^ 50) (f32_mant b)) (f32_scale a - f32_scale b - 51))"

text \<open>\<^verbatim>\<open>trunc\<close> drops the fraction.\<close>

definition f32_trunc :: "f32 \<Rightarrow> f32" where
  "f32_trunc a =
     (if f32_is_nan a then F32_NAN
      else if f32_is_inf a \<or> 0 \<le> f32_scale a then a
      else f32_pack (f32_sign a) (f32_mant a div 2 ^ nat (- f32_scale a)) 0)"

text \<open>Numbers compare by their bits as sign and magnitude; both zeros are equal.\<close>

definition f32_key :: "f32 \<Rightarrow> int" where
  "f32_key b = (let m = int (unat (b AND 0x7FFFFFFF)) in if f32_sign b then - m else m)"

definition f32_lt :: "f32 \<Rightarrow> f32 \<Rightarrow> bool" where
  "f32_lt a b \<longleftrightarrow> \<not> f32_is_nan a \<and> \<not> f32_is_nan b \<and> f32_key a < f32_key b"

definition f32_le :: "f32 \<Rightarrow> f32 \<Rightarrow> bool" where
  "f32_le a b \<longleftrightarrow> \<not> f32_is_nan a \<and> \<not> f32_is_nan b \<and> f32_key a \<le> f32_key b"

definition f32_eq :: "f32 \<Rightarrow> f32 \<Rightarrow> bool" where
  "f32_eq a b \<longleftrightarrow> \<not> f32_is_nan a \<and> \<not> f32_is_nan b \<and> f32_key a = f32_key b"

section \<open>Conversions\<close>

text \<open>\<^verbatim>\<open>i as f32\<close> rounds; \<^verbatim>\<open>f as i32\<close> truncates and saturates, and is 0 for what is not a number.\<close>

definition f32_of_int :: "int \<Rightarrow> f32" where
  "f32_of_int i = f32_pack (i < 0) (nat \<bar>i\<bar>) 0"

definition f32_of_i32 :: "i32 \<Rightarrow> f32" where "f32_of_i32 w = f32_of_int (sint w)"

definition i32_saturate :: "int \<Rightarrow> i32" where
  "i32_saturate i = of_int (max (- (2 ^ 31)) (min (2 ^ 31 - 1) i))"

definition i32_of_f32 :: "f32 \<Rightarrow> i32" where
  "i32_of_f32 a =
     (if f32_is_nan a then 0
      else
        let m = (if 0 \<le> f32_scale a then f32_mant a * 2 ^ nat (f32_scale a)
                 else f32_mant a div 2 ^ nat (- f32_scale a))
        in i32_saturate (if f32_sign a then - int m else int m))"

text \<open>The nearest number to \<open>d * 10 powr k\<close>.\<close>

definition f32_of_decimal :: "bool \<Rightarrow> nat \<Rightarrow> int \<Rightarrow> f32" where
  "f32_of_decimal s d k =
     (if 0 \<le> k then f32_pack s (d * 10 ^ nat k) 0
      else
        let den = 10 ^ nat (- k); n = bit_length den + 27
        in f32_pack s (jam_div (d * 2 ^ n) den) (- int n - 1))"

section \<open>Decimal text\<close>

definition is_digit :: "nat \<Rightarrow> bool" where "is_digit c \<longleftrightarrow> 48 \<le> c \<and> c \<le> 57"

definition ascii_lower :: "nat \<Rightarrow> nat" where
  "ascii_lower c = (if 65 \<le> c \<and> c \<le> 90 then c + 32 else c)"

definition eq_ignore_ascii_case :: "rust_string \<Rightarrow> rust_string \<Rightarrow> bool" where
  "eq_ignore_ascii_case s t \<longleftrightarrow> map ascii_lower s = map ascii_lower t"

definition digits_value :: "rust_string \<Rightarrow> nat" where
  "digits_value ds = foldl (\<lambda>n c. n * 10 + (c - 48)) 0 ds"

text \<open>An exponent part: nothing, or \<^verbatim>\<open>e\<close> with an optional sign and at least one digit.\<close>

definition parse_exponent :: "rust_string \<Rightarrow> int option" where
  "parse_exponent s =
     (case s of
        [] \<Rightarrow> Some 0
      | c # cs \<Rightarrow>
          if c \<noteq> 0x65 \<and> c \<noteq> 0x45 then None
          else
            let neg = (cs \<noteq> [] \<and> hd cs = 0x2D);
                ds = (if cs \<noteq> [] \<and> (hd cs = 0x2D \<or> hd cs = 0x2B) then tl cs else cs)
            in if ds = [] \<or> \<not> list_all is_digit ds then None
               else Some (if neg then - int (digits_value ds) else int (digits_value ds)))"

text \<open>\<^verbatim>\<open>str::parse::<f32>\<close>.\<close>

definition parse_f32 :: "rust_string \<Rightarrow> f32 option" where
  "parse_f32 s =
     (let neg = (s \<noteq> [] \<and> hd s = 0x2D);
          t = (if s \<noteq> [] \<and> (hd s = 0x2D \<or> hd s = 0x2B) then tl s else s);
          whole = takeWhile is_digit t; u = dropWhile is_digit t;
          frac = (if u \<noteq> [] \<and> hd u = 0x2E then takeWhile is_digit (tl u) else []);
          v = (if u \<noteq> [] \<and> hd u = 0x2E then dropWhile is_digit (tl u) else u)
      in if eq_ignore_ascii_case t (to_rust_string ''inf'') \<or> eq_ignore_ascii_case t (to_rust_string ''infinity'')
         then Some (with_sign neg F32_INFINITY)
         else if eq_ignore_ascii_case t (to_rust_string ''nan'') then Some (with_sign neg F32_NAN)
         else if whole = [] \<and> frac = [] then None
         else map_option (\<lambda>e. f32_of_decimal neg (digits_value (whole @ frac)) (e - int (length frac)))
                (parse_exponent v))"

text \<open>
  \<^verbatim>\<open>f32::to_string\<close>: the fewest digits that read back as the same number, the nearest of them (the
  larger one of two equally near), written without an exponent. Nine digits always suffice.
\<close>

text \<open>\<open>floor\<close> and exactness of \<open>m * 2 powr e * 10 powr k\<close>.\<close>

definition scaled_floor :: "nat \<Rightarrow> int \<Rightarrow> int \<Rightarrow> nat \<times> nat \<times> nat" where
  "scaled_floor m e k =
     (let num = m * 2 ^ nat e * 10 ^ nat k; den = 2 ^ nat (- e) * 10 ^ nat (- k)
      in (num div den, num mod den, den))"

fun shortest_digits :: "f32 \<Rightarrow> nat \<Rightarrow> int \<Rightarrow> nat \<times> int" where
  "shortest_digits a 0 k = (fst (scaled_floor (f32_mant a) (f32_scale a) k), - k)"
| "shortest_digits a (Suc more) k =
     (let (d, rem, den) = scaled_floor (f32_mant a) (f32_scale a) k;
          a' = a AND 0x7FFFFFFF;
          down = (f32_of_decimal False d (- k) = a'); up = (f32_of_decimal False (d + 1) (- k) = a')
      in if up \<and> (\<not> down \<or> den \<le> 2 * rem) \<and> rem \<noteq> 0 then (d + 1, - k)
         else if down then (d, - k)
         else shortest_digits a more (k + 1))"

text \<open>The power of ten that leaves one digit before the point: counted up or down.\<close>

fun lead_digit :: "nat \<Rightarrow> nat \<Rightarrow> int \<Rightarrow> int \<Rightarrow> int" where
  "lead_digit 0 m e k = k"
| "lead_digit (Suc more) m e k =
     (let d = fst (scaled_floor m e k) in
      if d = 0 then lead_digit more m e (k + 1)
      else if 10 \<le> d then lead_digit more m e (k - 1) else k)"

definition show_decimal :: "nat \<Rightarrow> int \<Rightarrow> string" where
  "show_decimal d k =
     (let ds = show_nat d in
      if 0 \<le> k then ds @ replicate (nat k) (CHR ''0'')
      else
        let n = nat (- k); padded = replicate (Suc n - length ds) (CHR ''0'') @ ds;
            whole = take (length padded - n) padded;
            frac = rev (dropWhile (\<lambda>c. c = CHR ''0'') (rev (drop (length padded - n) padded)))
        in if frac = [] then whole else whole @ ''.'' @ frac)"

definition show_f32 :: "f32 \<Rightarrow> string" where
  "show_f32 a =
     (if f32_is_nan a then ''NaN''
      else (if f32_sign a then ''-'' else []) @
        (if f32_is_inf a then ''inf''
         else if f32_mant a = 0 then ''0''
         else
           let k = lead_digit 50 (f32_mant a) (f32_scale a) 0;
               (d, k') = shortest_digits a 8 k
           in show_decimal d k'))"

end
