(* ===== verification/Script_Values.thy ===== *)
theory Script_Values
  imports Float32
begin

text \<open>
  The runtime values of the script machine (\<^verbatim>\<open>src/crates/don-bhs/src/value.rs\<close>). A \<^verbatim>\<open>Cell\<close> and an \<^verbatim>\<open>ObjRef\<close>
  are shared, mutable storage, so they are addresses into an explicit heap: a list of cells, each
  holding a value, and a list of aggregates, each holding the addresses of its cells. Addresses are
  handed out in order and never taken back; what reference counting frees cannot be reached. Copying
  an aggregate follows its cells and would not return on a cyclic one: such functions are partial,
  with \<^const>\<open>None\<close> for not returning.
\<close>

section \<open>Types\<close>

datatype script_ty =
  TyInt | TyReal | TyStr | TyVoid | TyAny | TyParams | TyGroup | TyArray | TyStringArray | TyOffer

fun ty_tag :: "script_ty \<Rightarrow> u32" where
  "ty_tag TyInt = 0x57bad"
| "ty_tag TyReal = 0x12f35f"
| "ty_tag TyStr = 0x168174"
| "ty_tag TyVoid = 0x84048"
| "ty_tag TyAny = 0x27b2c1"
| "ty_tag TyParams = 0x64ea2a"
| "ty_tag TyGroup = 0x139fd8d"
| "ty_tag TyArray = 0x153c88"
| "ty_tag TyStringArray = 0x20d693"
| "ty_tag TyOffer = 0x1d0655f3"

definition ty_from_tag :: "u32 \<Rightarrow> script_ty option" where
  "ty_from_tag t =
     (if t = 0x57bad then Some TyInt
      else if t = 0x12f35f then Some TyReal
      else if t = 0x168174 then Some TyStr
      else if t = 0x84048 then Some TyVoid
      else if t = 0x27b2c1 then Some TyAny
      else if t = 0x64ea2a then Some TyParams
      else if t = 0x139fd8d then Some TyGroup
      else if t = 0x153c88 then Some TyArray
      else if t = 0x20d693 then Some TyStringArray
      else if t = 0x1d0655f3 then Some TyOffer
      else None)"

lemma ty_from_tag_tag: "ty_from_tag (ty_tag t) = Some t"
  by (cases t) (simp_all add: ty_from_tag_def)

section \<open>Values and the heap\<close>

datatype script_value = VInt i32 | VReal f32 | VStr rust_string | VObj nat | VNull

record obj =
  ob_data_type :: u32
  ob_values :: "nat list"
  ob_blank_base :: "script_value option"
  ob_is_array :: bool

record heap =
  h_cells :: "script_value list"
  h_objs :: "obj list"

definition cell_at :: "heap \<Rightarrow> nat \<Rightarrow> script_value" where "cell_at h c = h_cells h ! c"
definition obj_at :: "heap \<Rightarrow> nat \<Rightarrow> obj" where "obj_at h a = h_objs h ! a"

definition alloc_cell :: "script_value \<Rightarrow> heap \<Rightarrow> nat \<times> heap" where
  "alloc_cell v h = (length (h_cells h), h\<lparr>h_cells := h_cells h @ [v]\<rparr>)"

definition alloc_obj :: "obj \<Rightarrow> heap \<Rightarrow> nat \<times> heap" where
  "alloc_obj x h = (length (h_objs h), h\<lparr>h_objs := h_objs h @ [x]\<rparr>)"

fun alloc_cells :: "script_value list \<Rightarrow> heap \<Rightarrow> nat list \<times> heap" where
  "alloc_cells [] h = ([], h)"
| "alloc_cells (v # vs) h =
     (let (c, h) = alloc_cell v h; (cs, h) = alloc_cells vs h in (c # cs, h))"

definition set_cell :: "nat \<Rightarrow> script_value \<Rightarrow> heap \<Rightarrow> heap" where
  "set_cell c v h = h\<lparr>h_cells := (h_cells h)[c := v]\<rparr>"

definition set_obj :: "nat \<Rightarrow> obj \<Rightarrow> heap \<Rightarrow> heap" where
  "set_obj a x h = h\<lparr>h_objs := (h_objs h)[a := x]\<rparr>"

datatype op_error =
  DivideByZero
| TypeMismatch u32 u32
| BadOperand string
| NotAnArray
| IndexOutOfRange i32

section \<open>Aggregates\<close>

definition value_array :: "u32 \<Rightarrow> script_value \<Rightarrow> nat \<Rightarrow> heap \<Rightarrow> script_value \<times> heap" where
  "value_array data_type base n h =
     (let (cs, h) = alloc_cells (replicate n base) h;
          (a, h) = alloc_obj \<lparr>ob_data_type = data_type, ob_values = cs, ob_blank_base = Some base,
            ob_is_array = True\<rparr> h
      in (VObj a, h))"

definition value_strukt :: "u32 \<Rightarrow> script_value list \<Rightarrow> heap \<Rightarrow> script_value \<times> heap" where
  "value_strukt data_type flds h =
     (let (cs, h) = alloc_cells flds h;
          (a, h) = alloc_obj \<lparr>ob_data_type = data_type, ob_values = cs, ob_blank_base = None,
            ob_is_array = False\<rparr> h
      in (VObj a, h))"

definition obj_resize :: "nat \<Rightarrow> nat \<Rightarrow> bool \<Rightarrow> heap \<Rightarrow> (unit, op_error) result \<times> heap" where
  "obj_resize a n grow_only h =
     (case ob_blank_base (obj_at h a) of
        None \<Rightarrow> (Inl NotAnArray, h)
      | Some base \<Rightarrow>
          let vs = ob_values (obj_at h a) in
          if length vs < n then
            let (cs, h') = alloc_cells (replicate (n - length vs) base) h
            in (Inr (), set_obj a ((obj_at h a)\<lparr>ob_values := vs @ cs\<rparr>) h')
          else if \<not> grow_only then (Inr (), set_obj a ((obj_at h a)\<lparr>ob_values := take n vs\<rparr>) h)
          else (Inr (), h))"

section \<open>Conversions and tests\<close>

definition value_data_type :: "heap \<Rightarrow> script_value \<Rightarrow> u32" where
  "value_data_type h v =
     (case v of
        VInt _ \<Rightarrow> ty_tag TyInt
      | VReal _ \<Rightarrow> ty_tag TyReal
      | VStr _ \<Rightarrow> ty_tag TyStr
      | VObj a \<Rightarrow> ob_data_type (obj_at h a)
      | VNull \<Rightarrow> 0)"

text \<open>\<^verbatim>\<open>str::trim\<close>: the characters with the property \<^verbatim>\<open>White_Space\<close> are dropped at both ends.\<close>

definition is_whitespace :: "nat \<Rightarrow> bool" where
  "is_whitespace c \<longleftrightarrow>
     9 \<le> c \<and> c \<le> 13 \<or> c \<in> {0x20, 0x85, 0xA0, 0x1680, 0x2028, 0x2029, 0x202F, 0x205F, 0x3000} \<or>
     0x2000 \<le> c \<and> c \<le> 0x200A"

definition trim :: "rust_string \<Rightarrow> rust_string" where
  "trim s = rev (dropWhile is_whitespace (rev (dropWhile is_whitespace s)))"

definition unwrap_or :: "'a \<Rightarrow> 'a option \<Rightarrow> 'a" where
  "unwrap_or d x = (case x of Some v \<Rightarrow> v | None \<Rightarrow> d)"

fun as_int :: "script_value \<Rightarrow> i32" where
  "as_int (VInt i) = i"
| "as_int (VReal f) = i32_of_f32 f"
| "as_int (VStr s) = unwrap_or 0 (parse_i32 (trim s))"
| "as_int (VObj _) = 0"
| "as_int VNull = 0"

fun as_real :: "script_value \<Rightarrow> f32" where
  "as_real (VInt i) = f32_of_i32 i"
| "as_real (VReal f) = f"
| "as_real (VStr s) = unwrap_or 0 (parse_f32 (trim s))"
| "as_real (VObj _) = 0"
| "as_real VNull = 0"

fun as_string :: "script_value \<Rightarrow> (rust_string, op_error) result" where
  "as_string (VInt i) = Inr (to_string_i32 i)"
| "as_string (VReal f) = Inr (to_rust_string (show_f32 f))"
| "as_string (VStr s) = Inr s"
| "as_string (VObj _) = Inl (BadOperand ''ScriptObject::get_string is not recovered'')"
| "as_string VNull = Inl (BadOperand ''get_string on a null ScriptType*'')"

fun is_false :: "script_value \<Rightarrow> bool" where
  "is_false (VInt i) \<longleftrightarrow> sint i \<le> 0"
| "is_false (VReal f) \<longleftrightarrow> f32_le f 0"
| "is_false (VStr s) \<longleftrightarrow> s = []"
| "is_false (VObj _) \<longleftrightarrow> False"
| "is_false VNull \<longleftrightarrow> True"

definition is_true :: "script_value \<Rightarrow> bool" where "is_true v \<longleftrightarrow> \<not> is_false v"

section \<open>Deep copies\<close>

text \<open>
  \<^verbatim>\<open>duplicate\<close> of the values behind a list of cells, each into a new cell. The elements of an aggregate
  are copied before its successors in the list.
\<close>

partial_function (option) dup_cells :: "heap \<Rightarrow> nat list \<Rightarrow> (nat list \<times> heap) option" where
  "dup_cells h cs =
     (case cs of
        [] \<Rightarrow> Some ([], h)
      | c # cs' \<Rightarrow>
          (case cell_at h c of
             VObj a \<Rightarrow>
               Option.bind (dup_cells h (ob_values (obj_at h a))) (\<lambda>r.
                 let (a', h2) = alloc_obj ((obj_at h a)\<lparr>ob_values := fst r\<rparr>) (snd r);
                     (c', h3) = alloc_cell (VObj a') h2
                 in Option.bind (dup_cells h3 cs') (\<lambda>r'. Some (c' # fst r', snd r')))
           | v \<Rightarrow>
               let (c', h') = alloc_cell v h
               in Option.bind (dup_cells h' cs') (\<lambda>r'. Some (c' # fst r', snd r'))))"

declare dup_cells.simps [code]

definition duplicate :: "script_value \<Rightarrow> heap \<Rightarrow> (script_value \<times> heap) option" where
  "duplicate v h =
     (case v of
        VObj a \<Rightarrow>
          Option.bind (dup_cells h (ob_values (obj_at h a))) (\<lambda>(cs, h').
            let (a', h'') = alloc_obj ((obj_at h a)\<lparr>ob_values := cs\<rparr>) h' in Some (VObj a', h''))
      | _ \<Rightarrow> Some (v, h))"

end
