(* ===== verification/Script_Program.thy ===== *)
theory Script_Program
  imports Script_Values
begin

text \<open>
  The opcode table (\<^verbatim>\<open>src/crates/don-bhs/src/opcode.rs\<close>), the compiled program
  (\<^verbatim>\<open>program.rs\<close>): files, scripts with their statics and trigger bits, links, the registry of type names
  and the checksum sidecar; and the disassembler with its assembler (\<^verbatim>\<open>disasm.rs\<close>).
\<close>

unbundle bit_operations_syntax

section \<open>Opcodes\<close>

datatype operand_kind =
  OpNone | OpVarRef | OpConstIndex | OpCodeOffset | OpScriptIndex | OpFileIndex | OpBuiltinIndex |
  OpArgCount | OpTriggerIndex | OpTypeTag | OpRaw

record op_def =
  od_code :: u8
  od_name :: string
  od_operands :: "operand_kind list"
  od_handler_va :: u32

definition opdef :: "u8 \<Rightarrow> string \<Rightarrow> operand_kind list \<Rightarrow> u32 \<Rightarrow> op_def" where
  "opdef code name operands va =
     \<lparr>od_code = code, od_name = name, od_operands = operands, od_handler_va = va\<rparr>"

definition NUM_OP_CODES :: nat where "NUM_OP_CODES = 73"

definition OPCODES :: "op_def list" where
  "OPCODES =
     [opdef 0x00 ''OP_ASSIGN'' [] 0x009e10e9,
      opdef 0x01 ''OP_EQ_OP'' [] 0x009e11e5,
      opdef 0x02 ''OP_NE_OP'' [] 0x009e11e5,
      opdef 0x03 ''OP_ADD_ASSIGN'' [] 0x009e10e9,
      opdef 0x04 ''OP_ADD'' [] 0x009e11e5,
      opdef 0x05 ''OP_LESS'' [] 0x009e11e5,
      opdef 0x06 ''OP_GREA'' [] 0x009e11e5,
      opdef 0x07 ''OP_LE_OP'' [] 0x009e11e5,
      opdef 0x08 ''OP_GE_OP'' [] 0x009e11e5,
      opdef 0x09 ''OP_UNA_NOT'' [] 0x009e11bd,
      opdef 0x0a ''OP_AND_OP'' [] 0x009e11e5,
      opdef 0x0b ''OP_OR_OP'' [] 0x009e11e5,
      opdef 0x0c ''OP_MUL_ASSIGN'' [] 0x009e10e9,
      opdef 0x0d ''OP_DIV_ASSIGN'' [] 0x009e10e9,
      opdef 0x0e ''OP_SUB_ASSIGN'' [] 0x009e10e9,
      opdef 0x0f ''OP_MUL'' [] 0x009e11e5,
      opdef 0x10 ''OP_DIV'' [] 0x009e11e5,
      opdef 0x11 ''OP_SUBT'' [] 0x009e11e5,
      opdef 0x12 ''OP_INC_OP'' [] 0x009e1127,
      opdef 0x13 ''OP_DEC_OP'' [] 0x009e1127,
      opdef 0x14 ''OP_INC_OP_POST'' [] 0x009e1159,
      opdef 0x15 ''OP_DEC_OP_POST'' [] 0x009e1159,
      opdef 0x16 ''OP_UNA_NEGA'' [] 0x009e11bd,
      opdef 0x17 ''OP_POW_OP'' [] 0x009e11e5,
      opdef 0x18 ''OP_POW_ASSIGN'' [] 0x009e10e9,
      opdef 0x19 ''OP_MOD_ASSIGN'' [] 0x009e10e9,
      opdef 0x1a ''OP_LEFT_ASSIGN'' [] 0x009e10e9,
      opdef 0x1b ''OP_RIGHT_ASSIGN'' [] 0x009e10e9,
      opdef 0x1c ''OP_AND_ASSIGN'' [] 0x009e10e9,
      opdef 0x1d ''OP_XOR_ASSIGN'' [] 0x009e10e9,
      opdef 0x1e ''OP_OR_ASSIGN'' [] 0x009e10e9,
      opdef 0x1f ''OP_MOD'' [] 0x009e11e5,
      opdef 0x20 ''OP_LEFT_OP'' [] 0x009e11e5,
      opdef 0x21 ''OP_RIGHT_OP'' [] 0x009e11e5,
      opdef 0x22 ''OP_AND_BIT'' [] 0x009e11e5,
      opdef 0x23 ''OP_XOR_BIT'' [] 0x009e11e5,
      opdef 0x24 ''OP_OR_BIT'' [] 0x009e11e5,
      opdef 0x25 ''OP_UNA_TILD'' [] 0x009e11bd,
      opdef 0x26 ''OP_PUSH'' [OpVarRef] 0x009e09e1,
      opdef 0x27 ''OP_POP'' [] 0x009e0a30,
      opdef 0x28 ''OP_CREATE_SIMPLE'' [OpTypeTag] 0x009e0a64,
      opdef 0x29 ''OP_CREATE_ARRAY'' [OpTypeTag] 0x009e0aa4,
      opdef 0x2a ''OP_CREATE_ARRAY_DYN'' [OpTypeTag] 0x009e0ac2,
      opdef 0x2b ''OP_CREATE_ARRAY_INITER'' [OpRaw, OpRaw] 0x009e0b47,
      opdef 0x2c ''OP_CREATE_STRUCT'' [OpRaw, OpRaw] 0x009e0b67,
      opdef 0x2d ''OP_PUSH_ARRAY_INDEX'' [] 0x009e0b87,
      opdef 0x2e ''OP_CREATE_ARRAY_INDEX'' [] 0x009e0cc3,
      opdef 0x2f ''OP_PUSH_STRUCT_FIELD'' [OpRaw] 0x009e0dc5,
      opdef 0x30 ''OP_PUSH_ARRAY_LENGTH'' [] 0x009e0e95,
      opdef 0x31 ''OP_SET_ARRAY_LENGTH'' [] 0x009e0f0c,
      opdef 0x32 ''OP_INIT_COPY'' [OpVarRef] 0x009e0f62,
      opdef 0x33 ''OP_INIT'' [OpVarRef] 0x009e0f99,
      opdef 0x34 ''OP_CAST'' [OpTypeTag] 0x009e1597,
      opdef 0x35 ''OP_CAST_BOOL'' [] 0x009e14e8,
      opdef 0x36 ''OP_CALL'' [OpScriptIndex] 0x009e12e3,
      opdef 0x37 ''OP_CALL_INCLUDE'' [OpScriptIndex, OpFileIndex] 0x009e130f,
      opdef 0x38 ''OP_CALL_GAME'' [OpBuiltinIndex] 0x009e1343,
      opdef 0x39 ''OP_CALL_GAME_VARIED'' [OpBuiltinIndex, OpArgCount] 0x009e136c,
      opdef 0x3a ''OP_CASE'' [OpConstIndex, OpCodeOffset] 0x009e1259,
      opdef 0x3b ''OP_BREAK'' [] 0x009e087e,
      opdef 0x3c ''OP_BIT_SET'' [OpTriggerIndex] 0x009e1022,
      opdef 0x3d ''OP_BIT_UNSET'' [OpTriggerIndex] 0x009e105f,
      opdef 0x3e ''OP_RETURN'' [] 0x009e1545,
      opdef 0x3f ''OP_JUMP'' [OpCodeOffset] 0x009e14c9,
      opdef 0x40 ''OP_JUMP_IF'' [OpCodeOffset] 0x009e139d,
      opdef 0x41 ''OP_JUMP_IF_NOT'' [OpCodeOffset] 0x009e13e5,
      opdef 0x42 ''OP_JUMP_IF_SC_TRUE'' [OpCodeOffset] 0x009e142d,
      opdef 0x43 ''OP_JUMP_IF_SC_FALSE'' [OpCodeOffset] 0x009e1477,
      opdef 0x44 ''OP_JUMP_IF_INITED'' [OpVarRef, OpCodeOffset] 0x009e0fca,
      opdef 0x45 ''OP_JUMP_IF_BITSET'' [OpTriggerIndex, OpCodeOffset] 0x009e109c,
      opdef 0x46 ''OP_MARKER'' [] 0x009e0934,
      opdef 0x47 ''OP_SCRIPT_MARKER'' [OpRaw] 0x009e0f82,
      opdef 0x48 ''OP_ERROR_TOKEN'' [] 0]"


definition OP_POP :: u8 where "OP_POP = 0x27"
definition OP_EQ_OP :: u8 where "OP_EQ_OP = 0x01"
definition OP_ERROR_TOKEN :: u8 where "OP_ERROR_TOKEN = 0x48"

text \<open>\<^verbatim>\<open>slice.get(i)\<close>.\<close>

definition get :: "'a list \<Rightarrow> nat \<Rightarrow> 'a option" where
  "get xs i = (if i < length xs then Some (xs ! i) else None)"

definition opcode_decode :: "u8 \<Rightarrow> op_def option" where
  "opcode_decode b = get OPCODES (unat b)"

definition encoded_len :: "u8 \<Rightarrow> nat option" where
  "encoded_len b = map_option (\<lambda>d. 1 + 4 * length (od_operands d)) (opcode_decode b)"

section \<open>The checksum sidecar\<close>

record array_walk_meta =
  aw_capacity :: i32
  aw_grow :: u16
  aw_flags :: u8

datatype value_walk_meta = ValueWalkMeta (vw_scope: u16) (vw_ref_count: u16) (vw_nested: value_walk_nested)
  and value_walk_nested =
    NestedScalar
  | NestedObject "value_walk_meta option list"
  | NestedArray "value_walk_meta option" "value_walk_meta option list"

definition walk_scalar :: "u16 \<Rightarrow> u16 \<Rightarrow> value_walk_meta" where
  "walk_scalar scope ref_count = ValueWalkMeta scope ref_count NestedScalar"

record script_walk_meta =
  sw_statics :: "value_walk_meta option list"
  sw_params :: array_walk_meta
  sw_refs :: array_walk_meta
  sw_trigger_names :: array_walk_meta
  sw_var_names :: array_walk_meta
  sw_static_var_names :: array_walk_meta

record script_file_walk_meta =
  fw_code :: array_walk_meta
  fw_scripts :: array_walk_meta
  fw_script_meta :: "script_walk_meta list"
  fw_const_pool :: "value_walk_meta option list"
  fw_linked_files :: array_walk_meta
  fw_linked_file_indices :: "i32 list"

record program_walk_meta =
  pw_files :: "script_file_walk_meta list"

section \<open>Scripts\<close>

record script =
  sc_name :: rust_string
  sc_arity :: nat
  sc_params :: "u32 list"
  sc_refs :: "u8 list"
  sc_entry :: u32
  sc_return_type :: u32
  sc_script_type :: u32
  sc_var_names :: "rust_string list"
  sc_static_var_names :: "rust_string list"
  sc_trigger_names :: "rust_string list"
  sc_statics :: "script_value option list"
  sc_trigger_bits :: "u8 list"
  sc_trigger_count :: i32

text \<open>\<^verbatim>\<open>(idx >> 3) as usize\<close> and \<^verbatim>\<open>idx & 7\<close> of a signed index.\<close>

definition trigger_byte :: "i32 \<Rightarrow> nat" where
  "trigger_byte idx = nat ((sint idx div 8) mod 2 ^ 64)"

definition trigger_bit :: "i32 \<Rightarrow> nat" where
  "trigger_bit idx = unat (idx AND 7)"

definition is_trigger_enabled :: "i32 \<Rightarrow> script \<Rightarrow> bool" where
  "is_trigger_enabled idx s =
     (if sint idx < 0 \<or> sint (sc_trigger_count s) < sint idx then False
      else
        case get (sc_trigger_bits s) (trigger_byte idx) of
          Some b \<Rightarrow> drop_bit (trigger_bit idx) b AND 1 \<noteq> 0
        | None \<Rightarrow> False)"

definition trigger_bit_clear :: "i32 \<Rightarrow> script \<Rightarrow> script" where
  "trigger_bit_clear idx s =
     (if sint (sc_trigger_count s) < sint idx then s
      else
        case get (sc_trigger_bits s) (trigger_byte idx) of
          Some b \<Rightarrow>
            s\<lparr>sc_trigger_bits := (sc_trigger_bits s)[trigger_byte idx := b AND NOT (push_bit (trigger_bit idx) 1)]\<rparr>
        | None \<Rightarrow> s)"

definition trigger_bit_set :: "i32 \<Rightarrow> script \<Rightarrow> script" where
  "trigger_bit_set idx s =
     (if sint (sc_trigger_count s) < sint idx then s
      else
        case get (sc_trigger_bits s) (trigger_byte idx) of
          Some b \<Rightarrow>
            s\<lparr>sc_trigger_bits := (sc_trigger_bits s)[trigger_byte idx := b OR push_bit (trigger_bit idx) 1]\<rparr>
        | None \<Rightarrow> s)"

definition enable_all_triggers :: "bool \<Rightarrow> script \<Rightarrow> script" where
  "enable_all_triggers on s =
     s\<lparr>sc_trigger_bits := map (\<lambda>_. if on then 0xff else 0x00) (sc_trigger_bits s)\<rparr>"

text \<open>\<^verbatim>\<open>iter().position(p)\<close>.\<close>

fun position :: "('a \<Rightarrow> bool) \<Rightarrow> 'a list \<Rightarrow> nat option" where
  "position p [] = None"
| "position p (x # xs) = (if p x then Some 0 else map_option Suc (position p xs))"

definition find_trigger :: "rust_string \<Rightarrow> script \<Rightarrow> nat option" where
  "find_trigger name s = position (\<lambda>n. eq_ignore_ascii_case n name) (sc_trigger_names s)"

section \<open>Programs\<close>

record script_file =
  sf_source_file :: rust_string
  sf_code :: "u8 list"
  sf_scripts :: "script list"
  sf_const_pool :: "script_value list"
  sf_linked_file_names :: "rust_string list"
  sf_line_to_op :: "i32 list"

definition file_find_script :: "rust_string \<Rightarrow> script_file \<Rightarrow> nat option" where
  "file_find_script name f = position (\<lambda>s. eq_ignore_ascii_case (sc_name s) name) (sf_scripts f)"

record program =
  pg_files :: "script_file list"
  pg_linked_files :: "nat list list"
  pg_global_type_names :: "rust_string list"
  pg_global_type_name_hashes :: "u32 list"
  pg_walk_meta :: "program_walk_meta option"

datatype program_merge_error = WalkMetaPresent | GlobalTypeNames

definition program_default :: program where
  "program_default =
     \<lparr>pg_files = [], pg_linked_files = [],
      pg_global_type_names = map to_rust_string [''int'', ''float'', ''string'', ''void'', ''bool''],
      pg_global_type_name_hashes = [ty_tag TyInt, ty_tag TyReal, ty_tag TyStr, ty_tag TyVoid, 0xa6192],
      pg_walk_meta = None\<rparr>"

definition program_single :: "script_file \<Rightarrow> program" where
  "program_single f =
     program_default\<lparr>pg_files := pg_files program_default @ [f],
       pg_linked_files := pg_linked_files program_default @ [[]]\<rparr>"

text \<open>\<^verbatim>\<open>usize::MAX\<close>, which marks a link that names no file.\<close>

definition USIZE_MAX :: nat where "USIZE_MAX = 2 ^ 64 - 1"

definition program_append :: "program \<Rightarrow> program \<Rightarrow> (nat, program_merge_error) result \<times> program" where
  "program_append p other =
     (if pg_walk_meta p \<noteq> None \<or> pg_walk_meta other \<noteq> None then (Inl WalkMetaPresent, p)
      else if pg_global_type_names p \<noteq> pg_global_type_names program_default
          \<or> pg_global_type_names other \<noteq> pg_global_type_names program_default
      then (Inl GlobalTypeNames, p)
      else
        let base = length (pg_files p) in
        (Inr base,
         p\<lparr>pg_files := pg_files p @ pg_files other,
           pg_linked_files := pg_linked_files p @
             map (map (\<lambda>i. if i = USIZE_MAX then i else i + base)) (pg_linked_files other)\<rparr>))"

text \<open>The file loop of \<^verbatim>\<open>find_script\<close> runs from the last file to the first: \<open>n\<close> files are left.\<close>

fun find_script_below :: "rust_string \<Rightarrow> script_file list \<Rightarrow> nat \<Rightarrow> (nat \<times> nat) option" where
  "find_script_below name fs 0 = None"
| "find_script_below name fs (Suc n) =
     (case position (\<lambda>s. eq_ignore_ascii_case (sc_name s) name) (sf_scripts (fs ! n)) of
        Some i \<Rightarrow> Some (n, i)
      | None \<Rightarrow> find_script_below name fs n)"

definition find_script :: "rust_string \<Rightarrow> program \<Rightarrow> (nat \<times> nat) option" where
  "find_script name p = find_script_below name (pg_files p) (length (pg_files p))"

definition set_walk_meta :: "program_walk_meta \<Rightarrow> program \<Rightarrow> program" where
  "set_walk_meta walk_meta p =
     p\<lparr>pg_linked_files :=
         map (\<lambda>index.
           case get (pw_files walk_meta) index of
             None \<Rightarrow> []
           | Some meta \<Rightarrow>
               map (\<lambda>i. if sint i < 0 then USIZE_MAX else nat (sint i)) (fw_linked_file_indices meta))
           [0..<length (pg_files p)],
       pg_walk_meta := Some walk_meta\<rparr>"

definition resolved_links :: "nat \<Rightarrow> program \<Rightarrow> nat list option" where
  "resolved_links f p = get (pg_linked_files p) f"

definition type_name :: "u32 \<Rightarrow> program \<Rightarrow> rust_string option" where
  "type_name t p =
     map_option fst
       (find (\<lambda>x. snd x = t) (zip (pg_global_type_names p) (pg_global_type_name_hashes p)))"

definition register_global_type_name :: "rust_string \<Rightarrow> program \<Rightarrow> nat \<times> program" where
  "register_global_type_name name p =
     (case position (\<lambda>r. eq_ignore_ascii_case r name) (pg_global_type_names p) of
        Some index \<Rightarrow> (index, p)
      | None \<Rightarrow>
          (length (pg_global_type_names p),
           p\<lparr>pg_global_type_names := pg_global_type_names p @ [name],
             pg_global_type_name_hashes := pg_global_type_name_hashes p @ [0]\<rparr>))"

section \<open>Variable references\<close>

datatype var_ref = RefConst u32 | RefStatic u32 | RefLocal u32

definition var_ref_decode :: "u32 \<Rightarrow> var_ref" where
  "var_ref_decode raw =
     (if raw AND 0x20000000 \<noteq> 0 then RefConst (raw AND 0xdfffffff)
      else if raw AND 0x40000000 \<noteq> 0 then RefStatic (raw AND 0xbfffffff)
      else RefLocal raw)"

fun var_ref_encode :: "var_ref \<Rightarrow> u32" where
  "var_ref_encode (RefConst i) = i OR 0x20000000"
| "var_ref_encode (RefStatic i) = i OR 0x40000000"
| "var_ref_encode (RefLocal i) = i"

section \<open>Disassembly\<close>

record insn =
  in_offset :: nat
  in_op :: u8
  in_name :: string
  in_operands :: "u32 list"
  in_len :: nat

text \<open>The hexadecimal digits of a number, as \<^verbatim>\<open>{:#x}\<close> writes them; \<^verbatim>\<open>{:#04x}\<close> has at least two.\<close>

fun hex_digits :: "nat \<Rightarrow> string" where
  "hex_digits n = (if n < 16 then [digit_char n] else hex_digits (n div 16) @ [digit_char (n mod 16)])"

declare hex_digits.simps [simp del]

definition show_hex_prefixed :: "nat \<Rightarrow> string" where "show_hex_prefixed n = ''0x'' @ hex_digits n"

function disassemble_from :: "u8 list \<Rightarrow> nat \<Rightarrow> (insn list, string) result" where
  "disassemble_from code pc =
     (if length code \<le> pc then Inr []
      else
        let op = code ! pc in
        case opcode_decode op of
          None \<Rightarrow> Inl (''bad opcode 0x'' @ show_hex 2 (unat op) @ '' at '' @ show_nat pc)
        | Some d \<Rightarrow>
            let n = length (od_operands d) in
            if length code < pc + 1 + 4 * n
            then Inl (''truncated operand for '' @ od_name d @ '' at '' @ show_nat pc)
            else
              case disassemble_from code (pc + 1 + 4 * n) of
                Inl e \<Rightarrow> Inl e
              | Inr rest \<Rightarrow>
                  Inr (\<lparr>in_offset = pc, in_op = op, in_name = od_name d,
                        in_operands = map (\<lambda>i. u32le code (pc + 1 + 4 * i)) [0..<n],
                        in_len = 1 + 4 * n\<rparr> # rest))"
  by pat_completeness auto
termination
  by (relation "measure (\<lambda>(code, pc). length code - pc)") auto

declare disassemble_from.simps [simp del]

definition disassemble :: "u8 list \<Rightarrow> (insn list, string) result" where
  "disassemble code = disassemble_from code 0"

definition asm :: "(u8 \<times> u32 list) list \<Rightarrow> u8 list" where
  "asm items = concat (map (\<lambda>(op, ops). op # concat (map le32 ops)) items)"

definition asm_len :: "(u8 \<times> u32 list) list \<Rightarrow> nat" where
  "asm_len items = sum_list (map (\<lambda>(_, ops). 1 + 4 * length ops) items)"

end
