(* ===== verification/Script_Builtins.thy ===== *)
theory Script_Builtins
  imports Script_Program
begin

text \<open>
  The builtin functions a script can call (\<^verbatim>\<open>src/crates/don-bhs/src/builtin_table.rs\<close>), in the order of their
  registration, and the host boundary (\<^verbatim>\<open>host.rs\<close>): errors, call accounting, and the host that implements
  nothing. The table of 873 rows stands in nine parts.
\<close>

section \<open>Declarations\<close>

record builtin_decl =
  bd_index :: u32
  bd_name :: string
  bd_arity :: u8
  bd_ret :: script_ty
  bd_params :: "script_ty list"
  bd_handler_va :: u32

definition bdecl :: "u32 \<Rightarrow> string \<Rightarrow> u8 \<Rightarrow> script_ty \<Rightarrow> script_ty list \<Rightarrow> u32 \<Rightarrow> builtin_decl" where
  "bdecl index name arity ret params va =
     \<lparr>bd_index = index, bd_name = name, bd_arity = arity, bd_ret = ret, bd_params = params,
      bd_handler_va = va\<rparr>"

definition BUILTINS_0 :: "builtin_decl list" where
  "BUILTINS_0 =
     [bdecl 0 ''sin'' 1 TyReal [TyReal] 0xa04260,
      bdecl 1 ''cos'' 1 TyReal [TyReal] 0xa04290,
      bdecl 2 ''tan'' 1 TyReal [TyReal] 0xa042c0,
      bdecl 3 ''asin'' 1 TyReal [TyReal] 0xa042f0,
      bdecl 4 ''acos'' 1 TyReal [TyReal] 0xa04330,
      bdecl 5 ''atan'' 1 TyReal [TyReal] 0xa04360,
      bdecl 6 ''sqrt'' 1 TyReal [TyReal] 0xa04390,
      bdecl 7 ''absl_float'' 1 TyReal [TyReal] 0xa043b0,
      bdecl 8 ''absl_int'' 1 TyInt [TyInt] 0xa043e0,
      bdecl 9 ''rand_int'' 2 TyInt [TyInt, TyInt] 0x9e1890,
      bdecl 10 ''rand_real'' 0 TyReal [] 0x9e18b0,
      bdecl 11 ''rand_seed'' 1 TyVoid [TyInt] 0x9e1900,
      bdecl 12 ''rand_get_seed'' 0 TyInt [] 0x9e1930,
      bdecl 13 ''min_val'' 2 TyReal [TyReal, TyReal] 0xa04400,
      bdecl 14 ''max_val'' 2 TyReal [TyReal, TyReal] 0xa04420,
      bdecl 15 ''enable_all_triggers'' 0 TyVoid [] 0xa04440,
      bdecl 16 ''disable_all_triggers'' 0 TyVoid [] 0xa04460,
      bdecl 17 ''is_trigger_enabled'' 1 TyInt [TyStr] 0xa04480,
      bdecl 18 ''length'' 1 TyInt [TyStr] 0xa04650,
      bdecl 19 ''char_at'' 2 TyInt [TyStr, TyInt] 0xa04660,
      bdecl 20 ''char_from_int'' 1 TyStr [TyInt] 0xa04690,
      bdecl 21 ''parse'' 2 TyStr [TyStr, TyParams] 0xa04720,
      bdecl 22 ''print'' 1 TyVoid [TyAny] 0xa048d0,
      bdecl 23 ''print_line'' 1 TyVoid [TyAny] 0xa04950,
      bdecl 24 ''add'' 1 TyInt [TyArray] 0xa044a0,
      bdecl 25 ''add'' 2 TyInt [TyArray, TyAny] 0xa044e0,
      bdecl 26 ''remove'' 2 TyInt [TyArray, TyAny] 0xa04540,
      bdecl 27 ''remove_index'' 2 TyInt [TyArray, TyInt] 0xa04580,
      bdecl 28 ''insert'' 3 TyInt [TyArray, TyAny, TyInt] 0xa045b0,
      bdecl 29 ''find'' 2 TyInt [TyArray, TyAny] 0xa04610,
      bdecl 30 ''clear'' 1 TyVoid [TyArray] 0xa04640,
      bdecl 31 ''add_objective'' 3 TyInt [TyStr, TyStr, TyStr] 0x9e34d0,
      bdecl 32 ''add_objective_text'' 3 TyInt [TyStr, TyStr, TyStr] 0x9e3520,
      bdecl 33 ''change_objective_text'' 2 TyInt [TyStr, TyStr] 0x9e3570,
      bdecl 34 ''set_objective_sound'' 2 TyInt [TyStr, TyStr] 0x9e3590,
      bdecl 35 ''set_objective_loc'' 3 TyInt [TyStr, TyInt, TyInt] 0x9e35b0,
      bdecl 36 ''play_objective_sound'' 1 TyInt [TyStr] 0x9e35f0,
      bdecl 37 ''objective_complete'' 1 TyInt [TyStr] 0x9e3610,
      bdecl 38 ''remove_objective'' 1 TyInt [TyStr] 0x9e3630,
      bdecl 39 ''clear_objectives'' 0 TyInt [] 0x9e3650,
      bdecl 40 ''add_goal'' 3 TyInt [TyInt, TyStr, TyStr] 0x9e3670,
      bdecl 41 ''complete_goal'' 2 TyInt [TyInt, TyStr] 0x9e3780,
      bdecl 42 ''reset_goal'' 2 TyInt [TyInt, TyStr] 0x9e3880,
      bdecl 43 ''remove_goal'' 2 TyInt [TyInt, TyStr] 0x9e3980,
      bdecl 44 ''clear_goals'' 1 TyInt [TyInt] 0x9e3a50,
      bdecl 45 ''goal_dialog_shown'' 0 TyInt [] 0x9e3ad0,
      bdecl 46 ''show_goal_dialog'' 0 TyInt [] 0x9e3ae0,
      bdecl 47 ''set_instruction_msg'' 1 TyInt [TyStr] 0x9e3b00,
      bdecl 48 ''set_feedback_msg'' 1 TyInt [TyStr] 0x9e3b80,
      bdecl 49 ''use_basic_menu'' 0 TyVoid [] 0x9e3c00,
      bdecl 50 ''use_advanced_menu'' 0 TyVoid [] 0x9e3c20,
      bdecl 51 ''set_music_volume'' 1 TyVoid [TyInt] 0x9e3c40,
      bdecl 52 ''play_sound'' 1 TyInt [TyStr] 0xa02f50,
      bdecl 53 ''play_sound_to'' 2 TyInt [TyInt, TyStr] 0x9e3c50,
      bdecl 54 ''stop_sound'' 0 TyVoid [] 0x9e3c60,
      bdecl 55 ''sound_finished'' 0 TyInt [] 0x9e3c80,
      bdecl 56 ''set_music_mood'' 2 TyInt [TyStr, TyInt] 0x9e3cc0,
      bdecl 57 ''chat'' 3 TyInt [TyInt, TyInt, TyStr] 0x9e3d80,
      bdecl 58 ''chat_all'' 2 TyInt [TyInt, TyStr] 0x9e3e00,
      bdecl 59 ''ping'' 4 TyInt [TyInt, TyInt, TyInt, TyInt] 0x9e3e70,
      bdecl 60 ''ping_all'' 3 TyInt [TyInt, TyInt, TyInt] 0x9e3f30,
      bdecl 61 ''ping_object'' 4 TyInt [TyInt, TyInt, TyInt, TyInt] 0x9e3fd0,
      bdecl 62 ''ping_object_all'' 3 TyInt [TyInt, TyInt, TyInt] 0x9e4090,
      bdecl 63 ''ping_group'' 2 TyInt [TyInt, TyInt] 0x4cea20,
      bdecl 64 ''ping_group_all'' 2 TyInt [TyInt, TyInt] 0x4ce920,
      bdecl 65 ''ping_constant'' 3 TyInt [TyInt, TyInt, TyInt] 0x9e43f0,
      bdecl 66 ''clear_pings'' 1 TyInt [TyInt] 0x9e4490,
      bdecl 67 ''set_explored'' 4 TyInt [TyInt, TyInt, TyInt, TyInt] 0x9e44b0,
      bdecl 68 ''set_explored'' 1 TyInt [TyInt] 0x9e46f0,
      bdecl 69 ''set_explored_show_buildings'' 1 TyInt [TyInt] 0xa03300,
      bdecl 70 ''add_reveal_point'' 4 TyInt [TyInt, TyInt, TyInt, TyInt] 0x9e4750,
      bdecl 71 ''clear_reveal_points'' 1 TyInt [TyInt] 0x9e4810,
      bdecl 72 ''set_seen'' 3 TyInt [TyInt, TyInt, TyInt] 0x9e4860,
      bdecl 73 ''is_seen'' 3 TyInt [TyInt, TyInt, TyInt] 0x9e49b0,
      bdecl 74 ''show_all_map_enable'' 1 TyInt [TyInt] 0x9e4a30,
      bdecl 75 ''show_all_map_disable'' 1 TyInt [TyInt] 0x9e4a90,
      bdecl 76 ''get_percent_explored'' 1 TyInt [TyInt] 0x9e4af0,
      bdecl 77 ''set_timer'' 2 TyInt [TyStr, TyInt] 0x9e4bc0,
      bdecl 78 ''stop_timer'' 1 TyInt [TyStr] 0x9e4c10,
      bdecl 79 ''timer_expired'' 1 TyInt [TyStr] 0x9e4c80,
      bdecl 80 ''get_map_size'' 0 TyInt [] 0x9e4cb0,
      bdecl 81 ''get_mapstyle'' 0 TyStr [] 0x9e4cc0,
      bdecl 82 ''get_tileset'' 0 TyStr [] 0x9e4d20,
      bdecl 83 ''map_is_land'' 2 TyInt [TyInt, TyInt] 0x9e4d90,
      bdecl 84 ''map_is_passable'' 2 TyInt [TyInt, TyInt] 0x9e4de0,
      bdecl 85 ''map_is_buildable'' 2 TyInt [TyInt, TyInt] 0x9e4e50,
      bdecl 86 ''world_x_size'' 0 TyInt [] 0x9e4ee0,
      bdecl 87 ''world_y_size'' 0 TyInt [] 0x9e4ef0,
      bdecl 88 ''territory_owner'' 2 TyInt [TyInt, TyInt] 0x9e4f00,
      bdecl 89 ''territory_object'' 2 TyInt [TyInt, TyInt] 0x9e4f50,
      bdecl 90 ''find_extra_starting_loc'' 3 TyInt [TyInt, TyInt, TyInt] 0x9e5070,
      bdecl 91 ''get_extra_starting_loc_x'' 0 TyInt [] 0x9e51e0,
      bdecl 92 ''get_extra_starting_loc_y'' 0 TyInt [] 0x9e5200,
      bdecl 93 ''clear_extra_starting_locs'' 0 TyVoid [] 0x9e5220,
      bdecl 94 ''get_is_no_nation_powers'' 0 TyInt [] 0x9e5230,
      bdecl 95 ''get_rush_rules'' 0 TyInt [] 0x9e5240,
      bdecl 96 ''is_victory_standard'' 0 TyInt [] 0x9e5250]"

definition BUILTINS_1 :: "builtin_decl list" where
  "BUILTINS_1 =
     [bdecl 97 ''is_victory_conquest'' 0 TyInt [] 0x9e5260,
      bdecl 98 ''is_victory_economic'' 0 TyInt [] 0x9e5270,
      bdecl 99 ''is_victory_musical_chairs'' 0 TyInt [] 0x9e5280,
      bdecl 100 ''is_victory_score'' 0 TyInt [] 0x9e5290,
      bdecl 101 ''is_victory_sudden_death'' 0 TyInt [] 0x9e52a0,
      bdecl 102 ''is_victory_tech_race'' 0 TyInt [] 0x9e52b0,
      bdecl 103 ''is_victory_territory'' 0 TyInt [] 0x9e52c0,
      bdecl 104 ''is_victory_time_limit'' 0 TyInt [] 0x9e52d0,
      bdecl 105 ''is_victory_wonder'' 0 TyInt [] 0x9e52e0,
      bdecl 106 ''set_difficulty'' 1 TyInt [TyInt] 0x9e52f0,
      bdecl 107 ''get_difficulty'' 0 TyInt [] 0x9e5320,
      bdecl 108 ''set_leader_difficulty'' 2 TyInt [TyInt, TyInt] 0x9e5350,
      bdecl 109 ''get_leader_difficulty'' 1 TyInt [TyInt] 0x9e53b0,
      bdecl 110 ''plunder_enable'' 0 TyInt [] 0x9e53f0,
      bdecl 111 ''plunder_disable'' 0 TyInt [] 0x9e5420,
      bdecl 112 ''set_plunder_scale'' 2 TyInt [TyInt, TyReal] 0x9e5450,
      bdecl 113 ''get_plunder_scale'' 1 TyReal [TyInt] 0x9e54a0,
      bdecl 114 ''buildings_gather_enable'' 0 TyInt [] 0x9e5500,
      bdecl 115 ''buildings_gather_disable'' 0 TyInt [] 0x9e5580,
      bdecl 116 ''building_unit_bonus_enable'' 0 TyInt [] 0x9e5600,
      bdecl 117 ''building_unit_bonus_disable'' 0 TyInt [] 0x9e5630,
      bdecl 118 ''building_resource_bonus_enable'' 0 TyInt [] 0x9e5660,
      bdecl 119 ''building_resource_bonus_disable'' 0 TyInt [] 0x9e5690,
      bdecl 120 ''unit_costs_enable'' 0 TyInt [] 0x9e56c0,
      bdecl 121 ''unit_costs_disable'' 0 TyInt [] 0x9e56f0,
      bdecl 122 ''building_costs_enable'' 0 TyInt [] 0x9e5720,
      bdecl 123 ''building_costs_disable'' 0 TyInt [] 0x9e5750,
      bdecl 124 ''tech_costs_enable'' 0 TyInt [] 0x9e5780,
      bdecl 125 ''tech_costs_disable'' 0 TyInt [] 0x9e57b0,
      bdecl 126 ''get_player_profile_name'' 0 TyStr [] 0x9e57e0,
      bdecl 127 ''get_leader_name'' 1 TyStr [TyInt] 0x9e5850,
      bdecl 128 ''set_leader_name'' 2 TyInt [TyInt, TyStr] 0x9e5900,
      bdecl 129 ''switch_player_control'' 1 TyInt [TyInt] 0x9e5960,
      bdecl 130 ''speed_control_enable'' 0 TyInt [] 0x9e5b30,
      bdecl 131 ''speed_control_disable'' 0 TyInt [] 0x9e5b40,
      bdecl 132 ''pause_enable'' 0 TyInt [] 0x9e5b50,
      bdecl 133 ''pause_disable'' 0 TyInt [] 0x9e5b60,
      bdecl 134 ''pause_game'' 0 TyVoid [] 0x9e5b70,
      bdecl 135 ''unpause_game'' 0 TyVoid [] 0x9e5ba0,
      bdecl 136 ''is_paused'' 0 TyInt [] 0x9e5be0,
      bdecl 137 ''get_time_limit'' 0 TyInt [] 0x9e5bf0,
      bdecl 138 ''set_time_limit'' 1 TyInt [TyInt] 0x9e5c40,
      bdecl 139 ''change_to_human'' 1 TyInt [TyInt] 0x9e5c80,
      bdecl 140 ''change_to_ai'' 1 TyInt [TyInt] 0x9e5d20,
      bdecl 141 ''is_human'' 1 TyInt [TyInt] 0x9e5dc0,
      bdecl 142 ''num_players'' 0 TyInt [] 0x9e5df0,
      bdecl 143 ''num_human_players'' 0 TyInt [] 0x9e5e70,
      bdecl 144 ''num_ai_players'' 0 TyInt [] 0x9e5eb0,
      bdecl 145 ''get_conquest_invasion_dir'' 0 TyInt [] 0x9e5ef0,
      bdecl 146 ''defeat_attacker_and_allies'' 0 TyInt [] 0x9e5f60,
      bdecl 147 ''is_conquest_scenario'' 0 TyInt [] 0x9e6040,
      bdecl 148 ''get_attack_from'' 0 TyStr [] 0x9e6060,
      bdecl 149 ''get_attack_to'' 0 TyStr [] 0x9e6100,
      bdecl 150 ''get_attack_turn'' 0 TyInt [] 0x9e61a0,
      bdecl 151 ''get_attack_age'' 0 TyInt [] 0x9e61c0,
      bdecl 152 ''get_attack_terr_str'' 0 TyInt [] 0x9e61e0,
      bdecl 153 ''set_ctw_int'' 2 TyVoid [TyStr, TyInt] 0x9e6230,
      bdecl 154 ''set_ctw_str'' 2 TyVoid [TyStr, TyStr] 0x9e6280,
      bdecl 155 ''get_ctw_int'' 1 TyInt [TyStr] 0x9e6350,
      bdecl 156 ''get_ctw_str'' 1 TyStr [TyStr] 0x9e6380,
      bdecl 157 ''clear_ctw_vals'' 0 TyVoid [] 0x9e6410,
      bdecl 158 ''clear_ctw_val'' 1 TyVoid [TyStr] 0x9e6430,
      bdecl 159 ''get_ctw_seed'' 0 TyInt [] 0x9e6460,
      bdecl 160 ''get_country_owner'' 1 TyStr [TyStr] 0x9e6470,
      bdecl 161 ''get_territory_owner'' 1 TyStr [TyStr] 0x4ce8c0,
      bdecl 162 ''get_territory_owner'' 2 TyStr [TyStr, TyInt] 0x9e64d0,
      bdecl 163 ''get_colony_owner'' 1 TyStr [TyStr] 0x9e65c0,
      bdecl 164 ''field_battle_enable'' 0 TyInt [] 0x9e66c0,
      bdecl 165 ''field_battle_disable'' 0 TyInt [] 0x9e66e0,
      bdecl 166 ''get_num_times_played'' 2 TyInt [TyStr, TyStr] 0x9e6710,
      bdecl 167 ''get_num_territories'' 1 TyInt [TyStr] 0x9e6770,
      bdecl 168 ''get_turn'' 0 TyInt [] 0x9e67c0,
      bdecl 169 ''get_age'' 0 TyInt [] 0x9e67d0,
      bdecl 170 ''get_num_ally'' 1 TyInt [TyStr] 0x9e67e0,
      bdecl 171 ''get_num_peace'' 1 TyInt [TyStr] 0x9e6830,
      bdecl 172 ''get_num_war'' 1 TyInt [TyStr] 0x9e6880,
      bdecl 173 ''ctw_is_war'' 2 TyInt [TyStr, TyStr] 0x9e68d0,
      bdecl 174 ''ctw_is_ally'' 2 TyInt [TyStr, TyStr] 0x9e6940,
      bdecl 175 ''ctw_is_peace'' 2 TyInt [TyStr, TyStr] 0x9e69b0,
      bdecl 176 ''ctw_is_vassal'' 1 TyInt [TyStr] 0x9e6a30,
      bdecl 177 ''ctw_get_master'' 1 TyStr [TyStr] 0x9e6a70,
      bdecl 178 ''ctw_is_defeated'' 1 TyInt [TyStr] 0x9e6b10,
      bdecl 179 ''ctw_set_war'' 2 TyInt [TyStr, TyStr] 0x9e6b60,
      bdecl 180 ''ctw_set_peace'' 2 TyInt [TyStr, TyStr] 0x9e6c30,
      bdecl 181 ''ctw_set_ally'' 2 TyInt [TyStr, TyStr] 0x9e6d00,
      bdecl 182 ''ctw_set_vassal'' 2 TyInt [TyStr, TyStr] 0x9e6dd0,
      bdecl 183 ''ctw_buy_war'' 2 TyInt [TyStr, TyStr] 0x9e6ea0,
      bdecl 184 ''ctw_buy_peace'' 2 TyInt [TyStr, TyStr] 0x9e6f50,
      bdecl 185 ''ctw_buy_ally'' 2 TyInt [TyStr, TyStr] 0x9e6fe0,
      bdecl 186 ''ctw_buy_vassal'' 2 TyInt [TyStr, TyStr] 0x9e7080,
      bdecl 187 ''ctw_deal_accepted'' 1 TyInt [TyStr] 0x9e7120,
      bdecl 188 ''ctw_set_deal_accepted'' 2 TyInt [TyStr, TyInt] 0x9e7170,
      bdecl 189 ''ctw_get_territory_value'' 1 TyInt [TyStr] 0x9e71f0,
      bdecl 190 ''ctw_get_card_value'' 1 TyInt [TyStr] 0x9e7240,
      bdecl 191 ''ctw_get_colony_value'' 1 TyInt [TyStr] 0x9e73e0,
      bdecl 192 ''get_num_tribute'' 1 TyInt [TyStr] 0x9e7430,
      bdecl 193 ''get_num_active_nations'' 0 TyInt [] 0x9e7480]"

definition BUILTINS_2 :: "builtin_decl list" where
  "BUILTINS_2 =
     [bdecl 194 ''give_player_bonus_card'' 1 TyInt [TyStr] 0x9e74e0,
      bdecl 195 ''give_bonus_card'' 2 TyInt [TyStr, TyStr] 0x9e7510,
      bdecl 196 ''give_player_ctw_tribute'' 1 TyInt [TyInt] 0x9e7680,
      bdecl 197 ''give_ctw_tribute'' 2 TyInt [TyStr, TyInt] 0x9e76e0,
      bdecl 198 ''ctw_give_army'' 2 TyInt [TyStr, TyStr] 0x9e7730,
      bdecl 199 ''ctw_remove_army'' 2 TyInt [TyStr, TyStr] 0x9e7810,
      bdecl 200 ''ctw_remove_all_armies'' 1 TyInt [TyStr] 0x9e78f0,
      bdecl 201 ''ctw_territory_has_army'' 1 TyInt [TyStr] 0x9e7980,
      bdecl 202 ''disable_strategic_rares'' 1 TyInt [TyStr] 0x9e79d0,
      bdecl 203 ''enable_strategic_rares'' 1 TyInt [TyStr] 0x9e7a20,
      bdecl 204 ''set_no_attack'' 2 TyInt [TyStr, TyStr] 0x9e7a70,
      bdecl 205 ''set_no_attack'' 3 TyInt [TyStr, TyStr, TyStr] 0x9e7aa0,
      bdecl 206 ''set_no_attack'' 4 TyInt [TyStr, TyStr, TyStr, TyStr] 0x9e7ac0,
      bdecl 207 ''set_no_attack'' 5 TyInt [TyStr, TyStr, TyStr, TyStr, TyStr] 0x9e7ae0,
      bdecl 208 ''set_player_no_negotiate'' 1 TyInt [TyStr] 0x9e7c20,
      bdecl 209 ''get_nation_income'' 1 TyInt [TyStr] 0x9e7c50,
      bdecl 210 ''get_territory_income'' 1 TyInt [TyStr] 0x9e7d20,
      bdecl 211 ''get_territory_strength'' 1 TyInt [TyStr] 0x9e7d90,
      bdecl 212 ''set_territory_strength'' 2 TyInt [TyStr, TyInt] 0x9e7de0,
      bdecl 213 ''get_territory_turns_held'' 1 TyInt [TyStr] 0x9e7e50,
      bdecl 214 ''set_territory_display_name'' 2 TyInt [TyStr, TyStr] 0x9e7ea0,
      bdecl 215 ''ctw_give_territory'' 3 TyInt [TyStr, TyStr, TyStr] 0x9e7f00,
      bdecl 216 ''ctw_give_colony'' 2 TyInt [TyStr, TyStr] 0x9e7f80,
      bdecl 217 ''ctw_remove_colony'' 1 TyInt [TyStr] 0x9e7ff0,
      bdecl 218 ''ctw_get_colony_tribute'' 1 TyInt [TyStr] 0x9e8040,
      bdecl 219 ''ctw_add_link'' 2 TyInt [TyStr, TyStr] 0x9e8090,
      bdecl 220 ''ctw_territory_link'' 2 TyInt [TyStr, TyStr] 0x9e81f0,
      bdecl 221 ''ctw_territory_sea_link'' 2 TyInt [TyStr, TyStr] 0x9e8260,
      bdecl 222 ''get_ctw_campaign'' 0 TyStr [] 0x9e82d0,
      bdecl 223 ''ctw_get_num_campaign_turns'' 0 TyInt [] 0x9e8340,
      bdecl 224 ''ctw_territory_captured'' 2 TyInt [TyStr, TyStr] 0x9e8370,
      bdecl 225 ''ctw_territory_captured'' 3 TyInt [TyStr, TyStr, TyStr] 0x9e8430,
      bdecl 226 ''ctw_get_active_tribes'' 1 TyVoid [TyStringArray] 0x9e8530,
      bdecl 227 ''ctw_num_adjacent_territories'' 2 TyInt [TyStr, TyStr] 0x9e85e0,
      bdecl 228 ''ctw_get_player_nation'' 0 TyStr [] 0x9e8730,
      bdecl 229 ''ctw_get_nation_capital'' 1 TyStr [TyStr] 0x9e87b0,
      bdecl 230 ''ctw_get_num_allies'' 1 TyInt [TyStr] 0x9e8880,
      bdecl 231 ''ctw_game_over'' 3 TyInt [TyInt, TyStr, TyStr] 0x4ce890,
      bdecl 232 ''ctw_game_over'' 4 TyInt [TyInt, TyInt, TyStr, TyStr] 0x9e88d0,
      bdecl 233 ''ctw_custom_end_screen'' 5 TyInt [TyStr, TyStr, TyStr, TyStr, TyInt] 0x9e8940,
      bdecl 234 ''ctw_last_battle_victory'' 0 TyInt [] 0x9e89a0,
      bdecl 235 ''ctw_show_supply_depots'' 0 TyInt [] 0x9e89c0,
      bdecl 236 ''ctw_hide_supply_depots'' 0 TyInt [] 0x9e89e0,
      bdecl 237 ''ctw_ai_move_army'' 3 TyInt [TyStr, TyStr, TyStr] 0x9e8a00,
      bdecl 238 ''ctw_ai_set_attack'' 3 TyInt [TyStr, TyStr, TyStr] 0x9e8b40,
      bdecl 239 ''ctw_reject_bribes'' 0 TyInt [] 0x9e8ca0,
      bdecl 240 ''ctw_set_leader_name'' 2 TyInt [TyStr, TyStr] 0x9e8cc0,
      bdecl 241 ''ctw_reinforcements_arrived'' 1 TyInt [TyInt] 0x9e8d20,
      bdecl 242 ''ctw_center_camera'' 1 TyInt [TyStr] 0x9e8d80,
      bdecl 243 ''ctw_disable_piece_moves'' 0 TyInt [] 0x9e8e10,
      bdecl 244 ''ctw_enable_piece_moves'' 0 TyInt [] 0x9e8e40,
      bdecl 245 ''population'' 1 TyInt [TyInt] 0x9e8e70,
      bdecl 246 ''population_cap'' 1 TyInt [TyInt] 0x9e8eb0,
      bdecl 247 ''set_population_cap'' 2 TyInt [TyInt, TyInt] 0x9e8ef0,
      bdecl 248 ''age'' 1 TyInt [TyInt] 0x9e8f50,
      bdecl 249 ''score'' 1 TyInt [TyInt] 0x9e8fa0,
      bdecl 250 ''get_territory'' 1 TyInt [TyInt] 0x9e8fe0,
      bdecl 251 ''get_wonder_points'' 1 TyInt [TyInt] 0x9e9030,
      bdecl 252 ''is_defeated'' 1 TyInt [TyInt] 0x9e9070,
      bdecl 253 ''gather_rate'' 2 TyInt [TyInt, TyStr] 0x9e90b0,
      bdecl 254 ''get_starting_town_size'' 1 TyInt [TyInt] 0x9e9170,
      bdecl 255 ''get_starting_resources'' 1 TyInt [TyInt] 0x9e91f0,
      bdecl 256 ''get_starting_loc_x'' 1 TyInt [TyInt] 0x9e9250,
      bdecl 257 ''get_starting_loc_y'' 1 TyInt [TyInt] 0x9e92a0,
      bdecl 258 ''num_cities'' 1 TyInt [TyInt] 0x9e92f0,
      bdecl 259 ''num_type'' 2 TyInt [TyInt, TyStr] 0x9e9320,
      bdecl 260 ''num_type_upgrade'' 2 TyInt [TyInt, TyStr] 0x9e94a0,
      bdecl 261 ''num_type_with_queued'' 2 TyInt [TyInt, TyStr] 0x9e9630,
      bdecl 262 ''num_good_collected'' 2 TyInt [TyInt, TyStr] 0x9e97d0,
      bdecl 263 ''num_units_built'' 1 TyInt [TyInt] 0x9e9880,
      bdecl 264 ''num_units_lost'' 1 TyInt [TyInt] 0x9e98b0,
      bdecl 265 ''num_units_killed'' 1 TyInt [TyInt] 0x9e98e0,
      bdecl 266 ''get_last_type_built'' 2 TyInt [TyInt, TyStr] 0x9e9910,
      bdecl 267 ''get_last_unit_built'' 1 TyInt [TyInt] 0x9e9a70,
      bdecl 268 ''get_last_building_built'' 1 TyInt [TyInt] 0x9e9ab0,
      bdecl 269 ''max_military_unit_type'' 1 TyStr [TyInt] 0x9e9af0,
      bdecl 270 ''num_buildings'' 1 TyInt [TyInt] 0x9e9bf0,
      bdecl 271 ''num_military_buildings'' 1 TyInt [TyInt] 0x9e9c60,
      bdecl 272 ''num_civilian_buildings'' 1 TyInt [TyInt] 0x9e9ce0,
      bdecl 273 ''num_units'' 1 TyInt [TyInt] 0x9e9d60,
      bdecl 274 ''num_decoys'' 1 TyInt [TyInt] 0x9e9dc0,
      bdecl 275 ''num_civilian_units'' 1 TyInt [TyInt] 0x9e9e70,
      bdecl 276 ''num_military_units'' 1 TyInt [TyInt] 0x9e9ef0,
      bdecl 277 ''num_unit_category'' 2 TyInt [TyInt, TyStr] 0x9e9f70,
      bdecl 278 ''num_rare_resources_seen'' 1 TyInt [TyInt] 0x9ea010,
      bdecl 279 ''has_rare_resource'' 2 TyInt [TyInt, TyStr] 0x9ea050,
      bdecl 280 ''get_console_player'' 0 TyInt [] 0x9ea0b0,
      bdecl 281 ''num_involved'' 0 TyInt [] 0x9ea0d0,
      bdecl 282 ''involved_id'' 0 TyInt [] 0x9ea0e0,
      bdecl 283 ''involved_nation'' 0 TyInt [] 0x9ea120,
      bdecl 284 ''disable_type'' 1 TyInt [TyStr] 0x9ea130,
      bdecl 285 ''disable_tech'' 2 TyInt [TyInt, TyStr] 0x9ea2b0,
      bdecl 286 ''enable_type'' 1 TyInt [TyStr] 0x9ea3e0,
      bdecl 287 ''enable_tech'' 2 TyInt [TyInt, TyStr] 0x9ea590,
      bdecl 288 ''rename_type'' 2 TyInt [TyStr, TyStr] 0x9ea6c0,
      bdecl 289 ''type_build_time'' 1 TyInt [TyStr] 0x9ea760,
      bdecl 290 ''set_type_build_time'' 2 TyInt [TyStr, TyInt] 0x9ea7d0]"

definition BUILTINS_3 :: "builtin_decl list" where
  "BUILTINS_3 =
     [bdecl 291 ''set_type_job_time'' 2 TyInt [TyStr, TyInt] 0x9ea880,
      bdecl 292 ''find_counter_unit'' 2 TyStr [TyInt, TyStr] 0x9ea930,
      bdecl 293 ''find_current_upgrade'' 2 TyStr [TyInt, TyStr] 0x9eaae0,
      bdecl 294 ''set_unit_scale'' 3 TyInt [TyInt, TyInt, TyReal] 0x9eabe0,
      bdecl 295 ''get_unit_scale'' 2 TyReal [TyInt, TyInt] 0x9eac70,
      bdecl 296 ''time'' 0 TyInt [] 0x9ead00,
      bdecl 297 ''time_min'' 0 TyInt [] 0x9ead20,
      bdecl 298 ''time_sec'' 0 TyInt [] 0x9ead40,
      bdecl 299 ''real_time_millis'' 0 TyInt [] 0x9ead50,
      bdecl 300 ''find_idle_citizen'' 1 TyInt [TyInt] 0x9ead70,
      bdecl 301 ''find_idle_caravan'' 1 TyInt [TyInt] 0x9eaf70,
      bdecl 302 ''find_idle_military'' 1 TyInt [TyInt] 0x9eb150,
      bdecl 303 ''find_idle_inside_military'' 1 TyInt [TyInt] 0x9eb2e0,
      bdecl 304 ''find_idle_all_military'' 1 TyInt [TyInt] 0x9eb440,
      bdecl 305 ''find_military'' 1 TyInt [TyInt] 0x9eb5a0,
      bdecl 306 ''find_inside_military'' 1 TyInt [TyInt] 0x9eb720,
      bdecl 307 ''find_all_military'' 1 TyInt [TyInt] 0x9eb860,
      bdecl 308 ''find_military_category'' 2 TyInt [TyInt, TyStr] 0x9eb990,
      bdecl 309 ''find_inside_military_category'' 2 TyInt [TyInt, TyStr] 0x9ebb20,
      bdecl 310 ''find_all_military_category'' 2 TyInt [TyInt, TyStr] 0x9ebcb0,
      bdecl 311 ''find_unit'' 2 TyInt [TyInt, TyStr] 0x9ebe10,
      bdecl 312 ''find_inside_unit'' 2 TyInt [TyInt, TyStr] 0x9ebee0,
      bdecl 313 ''find_all_unit'' 2 TyInt [TyInt, TyStr] 0x9ebfb0,
      bdecl 314 ''find_unit_upgrade'' 2 TyInt [TyInt, TyStr] 0x9ec080,
      bdecl 315 ''find_build'' 2 TyInt [TyInt, TyStr] 0x9ec160,
      bdecl 316 ''find_build_with_type_name'' 2 TyInt [TyInt, TyStr] 0x9ec310,
      bdecl 317 ''find_military_build'' 1 TyInt [TyInt] 0x9ec4c0,
      bdecl 318 ''find_civilian_build'' 1 TyInt [TyInt] 0x9ec630,
      bdecl 319 ''find_build_at_city'' 4 TyInt [TyInt, TyStr, TyStr, TyInt] 0x9ec7a0,
      bdecl 320 ''find_build_at_city_using_type_name'' 4 TyInt [TyInt, TyStr, TyStr, TyInt] 0x9ecaf0,
      bdecl 321 ''find_inactive_build'' 2 TyInt [TyInt, TyStr] 0x9ece40,
      bdecl 322 ''find_capital'' 1 TyStr [TyInt] 0x9ecfe0,
      bdecl 323 ''find_nation'' 1 TyStr [TyInt] 0x9ed190,
      bdecl 324 ''set_nation_name'' 2 TyInt [TyStr, TyStr] 0x9ed230,
      bdecl 325 ''at_least_pop'' 2 TyInt [TyInt, TyInt] 0x9ed2c0,
      bdecl 326 ''at_least_age'' 2 TyInt [TyInt, TyInt] 0x9ed310,
      bdecl 327 ''at_least_villages'' 2 TyInt [TyInt, TyInt] 0x9ed360,
      bdecl 328 ''at_least_cities'' 2 TyInt [TyInt, TyInt] 0x9ed3b0,
      bdecl 329 ''at_least_settlements'' 2 TyInt [TyInt, TyInt] 0x9ed400,
      bdecl 330 ''at_least_points'' 2 TyInt [TyInt, TyInt] 0x9ed450,
      bdecl 331 ''at_least_gather_rate'' 3 TyInt [TyInt, TyInt, TyStr] 0x9ed4a0,
      bdecl 332 ''at_least_type'' 3 TyInt [TyInt, TyInt, TyStr] 0x9ed570,
      bdecl 333 ''at_least_buildings'' 2 TyInt [TyInt, TyInt] 0x9ed710,
      bdecl 334 ''at_least_military_buildings'' 2 TyInt [TyInt, TyInt] 0x9ed780,
      bdecl 335 ''at_least_civilian_buildings'' 2 TyInt [TyInt, TyInt] 0x9ed810,
      bdecl 336 ''at_least_civilian_units'' 2 TyInt [TyInt, TyInt] 0x9ed8a0,
      bdecl 337 ''at_least_military_units'' 2 TyInt [TyInt, TyInt] 0x9ed930,
      bdecl 338 ''at_least_unit_category'' 3 TyInt [TyInt, TyInt, TyStr] 0x9ed9c0,
      bdecl 339 ''less_than_pop'' 2 TyInt [TyInt, TyInt] 0x9eda60,
      bdecl 340 ''less_than_age'' 2 TyInt [TyInt, TyInt] 0x9edab0,
      bdecl 341 ''less_than_gather_rate'' 3 TyInt [TyInt, TyInt, TyStr] 0x9edb00,
      bdecl 342 ''less_than_settlements'' 2 TyInt [TyInt, TyInt] 0x9edbd0,
      bdecl 343 ''less_than_points'' 2 TyInt [TyInt, TyInt] 0x9edc20,
      bdecl 344 ''less_than_type'' 3 TyInt [TyInt, TyInt, TyStr] 0x9edc70,
      bdecl 345 ''less_than_buildings'' 2 TyInt [TyInt, TyInt] 0x9ede10,
      bdecl 346 ''less_than_military_buildings'' 2 TyInt [TyInt, TyInt] 0x9ede90,
      bdecl 347 ''less_than_civilian_buildings'' 2 TyInt [TyInt, TyInt] 0x9edf10,
      bdecl 348 ''less_than_civilian_units'' 2 TyInt [TyInt, TyInt] 0x9edf90,
      bdecl 349 ''less_than_military_units'' 2 TyInt [TyInt, TyInt] 0x9ee010,
      bdecl 350 ''less_than_unit_category'' 3 TyInt [TyInt, TyInt, TyStr] 0x9ee090,
      bdecl 351 ''time_later_than'' 1 TyInt [TyInt] 0x9ee120,
      bdecl 352 ''time_earlier_than'' 1 TyInt [TyInt] 0x9ee160,
      bdecl 353 ''gain_tech'' 2 TyInt [TyInt, TyStr] 0x9ee1a0,
      bdecl 354 ''gain_next_age'' 1 TyInt [TyInt] 0x9ee4a0,
      bdecl 355 ''lose_tech'' 2 TyInt [TyInt, TyStr] 0x9ee500,
      bdecl 356 ''lose_current_age'' 1 TyInt [TyInt] 0x9ee6a0,
      bdecl 357 ''research_tech_with_cost'' 2 TyInt [TyInt, TyStr] 0x9ee700,
      bdecl 358 ''get_techs_per_age'' 1 TyInt [TyInt] 0x9ee8b0,
      bdecl 359 ''get_current_age'' 1 TyInt [TyInt] 0x9ee920,
      bdecl 360 ''get_starting_age'' 0 TyInt [] 0x9ee970,
      bdecl 361 ''get_ending_age'' 0 TyInt [] 0x9ee980,
      bdecl 362 ''have_tech'' 2 TyInt [TyInt, TyStr] 0x9ee990,
      bdecl 363 ''researching_tech'' 2 TyInt [TyInt, TyStr] 0x9eea20,
      bdecl 364 ''researching_tech_at'' 3 TyInt [TyInt, TyInt, TyStr] 0x9eeae0,
      bdecl 365 ''gain_upgrade'' 2 TyInt [TyInt, TyStr] 0x9eeb90,
      bdecl 366 ''lose_upgrade'' 2 TyInt [TyInt, TyStr] 0x9eed00,
      bdecl 367 ''can_pay_cost'' 2 TyInt [TyInt, TyStr] 0x9eedc0,
      bdecl 368 ''city_captured'' 2 TyInt [TyInt, TyStr] 0x9eee50,
      bdecl 369 ''city_id_captured'' 2 TyInt [TyInt, TyInt] 0x9eefb0,
      bdecl 370 ''city_captured_by'' 3 TyInt [TyInt, TyInt, TyStr] 0x9ef040,
      bdecl 371 ''city_captured_by'' 2 TyStr [TyInt, TyInt] 0x9ef160,
      bdecl 372 ''city_assimilated_by'' 3 TyInt [TyInt, TyInt, TyStr] 0x9ef250,
      bdecl 373 ''city_being_assimilated'' 2 TyInt [TyInt, TyStr] 0x9ef360,
      bdecl 374 ''city_assimilate'' 2 TyInt [TyInt, TyStr] 0x9ef3c0,
      bdecl 375 ''city_alarm_sounded'' 2 TyInt [TyInt, TyStr] 0x9ef430,
      bdecl 376 ''city_exists'' 1 TyInt [TyStr] 0x9ef4e0,
      bdecl 377 ''find_city_id'' 1 TyInt [TyStr] 0x9ef580,
      bdecl 378 ''find_city_owner'' 1 TyInt [TyStr] 0x9ef790,
      bdecl 379 ''get_city_level'' 1 TyInt [TyStr] 0x9ef9a0,
      bdecl 380 ''find_city_name'' 1 TyStr [TyInt] 0x9efbd0,
      bdecl 381 ''get_city_name'' 2 TyStr [TyInt, TyInt] 0x9efd00,
      bdecl 382 ''get_city_display_name'' 2 TyStr [TyInt, TyInt] 0x9efe00,
      bdecl 383 ''find_city_with_num'' 2 TyStr [TyInt, TyInt] 0x9eff00,
      bdecl 384 ''rename_city'' 3 TyInt [TyInt, TyStr, TyStr] 0x9effc0,
      bdecl 385 ''rename_city'' 3 TyInt [TyInt, TyInt, TyStr] 0x9f00d0,
      bdecl 386 ''num_city_buildings'' 4 TyInt [TyInt, TyStr, TyStr, TyInt] 0x9f0150,
      bdecl 387 ''num_city_buildings_using_type_name'' 4 TyInt [TyInt, TyStr, TyStr, TyInt] 0x9f01e0]"

definition BUILTINS_4 :: "builtin_decl list" where
  "BUILTINS_4 =
     [bdecl 388 ''object_selected'' 2 TyInt [TyInt, TyInt] 0x9f0270,
      bdecl 389 ''resource_selected'' 0 TyInt [] 0x9f03a0,
      bdecl 390 ''object_type_selected'' 2 TyInt [TyInt, TyStr] 0x9f04e0,
      bdecl 391 ''any_object_selected'' 1 TyInt [TyInt] 0x9f0680,
      bdecl 392 ''num_objects_selected'' 1 TyInt [TyInt] 0x9f06f0,
      bdecl 393 ''select_object'' 3 TyInt [TyInt, TyInt, TyInt] 0x9f0760,
      bdecl 394 ''select_group'' 1 TyInt [TyInt] 0x4ce830,
      bdecl 395 ''find_selected_id'' 1 TyInt [TyInt] 0x9f0900,
      bdecl 396 ''clear_selection'' 0 TyInt [] 0x9f0930,
      bdecl 397 ''mouse_selection_enable'' 0 TyInt [] 0x9f0960,
      bdecl 398 ''mouse_selection_disable'' 0 TyInt [] 0x9f09a0,
      bdecl 399 ''hotkey_selection_enable'' 0 TyInt [] 0x9f09e0,
      bdecl 400 ''hotkey_selection_disable'' 0 TyInt [] 0x9f0a20,
      bdecl 401 ''object_visible'' 3 TyInt [TyInt, TyInt, TyInt] 0x9f0a60,
      bdecl 402 ''is_object_at'' 4 TyInt [TyInt, TyInt, TyInt, TyInt] 0x9f0b70,
      bdecl 403 ''object_near'' 5 TyInt [TyInt, TyInt, TyInt, TyInt, TyInt] 0x9f0c30,
      bdecl 404 ''object_near_build'' 5 TyInt [TyInt, TyInt, TyInt, TyInt, TyInt] 0x9f0d10,
      bdecl 405 ''object_type_at'' 4 TyInt [TyInt, TyStr, TyInt, TyInt] 0x9f0e50,
      bdecl 406 ''object_type_near'' 6 TyInt [TyInt, TyStr, TyInt, TyInt, TyInt, TyInt] 0x9f0f10,
      bdecl 407 ''object_type_near_build'' 6 TyInt [TyInt, TyStr, TyInt, TyInt, TyInt, TyInt] 0x9f1010,
      bdecl 408 ''any_object_at'' 3 TyInt [TyInt, TyInt, TyInt] 0x9f1140,
      bdecl 409 ''any_object_near'' 5 TyInt [TyInt, TyInt, TyInt, TyInt, TyInt] 0x9f11b0,
      bdecl 410 ''any_object_near_build'' 5 TyInt [TyInt, TyInt, TyInt, TyInt, TyInt] 0x9f1280,
      bdecl 411 ''object_position_x'' 2 TyInt [TyInt, TyInt] 0x9f1360,
      bdecl 412 ''object_position_y'' 2 TyInt [TyInt, TyInt] 0x9f1470,
      bdecl 413 ''object_type'' 2 TyStr [TyInt, TyInt] 0x9f1580,
      bdecl 414 ''get_object_at_mouse'' 1 TyInt [TyInt] 0x9f1620,
      bdecl 415 ''get_object_type_at_mouse'' 2 TyInt [TyInt, TyStr] 0x9f16e0,
      bdecl 416 ''is_mouseover_forest'' 0 TyInt [] 0x9f1870,
      bdecl 417 ''is_mouseover_mountain'' 0 TyInt [] 0x9f1900,
      bdecl 418 ''is_mouseover_oil'' 0 TyInt [] 0x9f1990,
      bdecl 419 ''is_mouseover_river'' 0 TyInt [] 0x9f1a30,
      bdecl 420 ''get_resource_at_mouse'' 0 TyInt [] 0x9f1ac0,
      bdecl 421 ''is_military_building'' 2 TyInt [TyInt, TyInt] 0x9f1b70,
      bdecl 422 ''is_civilian_building'' 2 TyInt [TyInt, TyInt] 0x9f1c30,
      bdecl 423 ''is_city'' 2 TyInt [TyInt, TyInt] 0x9f1cf0,
      bdecl 424 ''building_destroyed'' 2 TyInt [TyInt, TyInt] 0x9f1d80,
      bdecl 425 ''building_type_destroyed'' 2 TyInt [TyInt, TyStr] 0x9f1df0,
      bdecl 426 ''building_active'' 2 TyInt [TyInt, TyInt] 0x9f1ea0,
      bdecl 427 ''building_started'' 2 TyInt [TyInt, TyInt] 0x9f1f20,
      bdecl 428 ''is_rally_set'' 2 TyInt [TyInt, TyInt] 0x9f1fa0,
      bdecl 429 ''set_rally'' 4 TyInt [TyInt, TyInt, TyInt, TyInt] 0x9f2020,
      bdecl 430 ''get_rally_x'' 2 TyInt [TyInt, TyInt] 0x9f20c0,
      bdecl 431 ''get_rally_y'' 2 TyInt [TyInt, TyInt] 0x9f21a0,
      bdecl 432 ''num_garrisoned_in'' 2 TyInt [TyInt, TyInt] 0x9f2280,
      bdecl 433 ''building_full'' 2 TyInt [TyInt, TyInt] 0x9f2360,
      bdecl 434 ''num_workers_at_building'' 2 TyInt [TyInt, TyInt] 0x9f2450,
      bdecl 435 ''max_workers_at_building'' 2 TyInt [TyInt, TyInt] 0x9f2520,
      bdecl 436 ''num_type_queued'' 3 TyInt [TyInt, TyInt, TyStr] 0x9f25e0,
      bdecl 437 ''clear_build_queue'' 3 TyInt [TyInt, TyInt, TyInt] 0x9f27e0,
      bdecl 438 ''build_queue_percent_done'' 2 TyInt [TyInt, TyInt] 0x9f2840,
      bdecl 439 ''get_last_razed_building'' 1 TyInt [TyInt] 0x9f2980,
      bdecl 440 ''unit_killed'' 2 TyInt [TyInt, TyInt] 0x9f29c0,
      bdecl 441 ''unit_type_killed'' 2 TyInt [TyInt, TyStr] 0x9f2a40,
      bdecl 442 ''unit_any_killed'' 1 TyInt [TyInt] 0x9f2af0,
      bdecl 443 ''unit_group_near'' 5 TyInt [TyInt, TyInt, TyInt, TyInt, TyInt] 0x4ce7c0,
      bdecl 444 ''unit_group_near_build'' 5 TyInt [TyInt, TyInt, TyInt, TyInt, TyInt] 0x4ce750,
      bdecl 445 ''is_merchant_unpacked'' 2 TyInt [TyInt, TyInt] 0x9f2e90,
      bdecl 446 ''is_garrisoned'' 2 TyInt [TyInt, TyInt] 0x9f2f20,
      bdecl 447 ''garrisoned_in'' 2 TyInt [TyInt, TyInt] 0x9f2fb0,
      bdecl 448 ''is_on_transport'' 2 TyInt [TyInt, TyInt] 0x9f3060,
      bdecl 449 ''disable_unit_transport'' 2 TyInt [TyInt, TyInt] 0x9f30f0,
      bdecl 450 ''enable_unit_transport'' 2 TyInt [TyInt, TyInt] 0x9f3140,
      bdecl 451 ''unit_category'' 2 TyStr [TyInt, TyInt] 0x9f3190,
      bdecl 452 ''num_caravan_routes'' 1 TyInt [TyInt] 0x9f3240,
      bdecl 453 ''max_caravan_routes'' 1 TyInt [TyInt] 0x9f32b0,
      bdecl 454 ''home_base'' 2 TyInt [TyInt, TyInt] 0x9f32f0,
      bdecl 455 ''find_num_idle_unit'' 2 TyInt [TyInt, TyStr] 0x9f3390,
      bdecl 456 ''resource_warning'' 0 TyInt [] 0x9f3560,
      bdecl 457 ''tech_warning'' 0 TyInt [] 0x9f35a0,
      bdecl 458 ''researching_warning'' 0 TyInt [] 0x9f35e0,
      bdecl 459 ''pop_cap_warning'' 1 TyInt [TyInt] 0x9f3620,
      bdecl 460 ''city_cap_warning'' 0 TyInt [] 0x9f3670,
      bdecl 461 ''commerce_cap_warning'' 1 TyInt [TyInt] 0x9f36b0,
      bdecl 462 ''resource_cap_warning'' 2 TyInt [TyInt, TyStr] 0x9f3720,
      bdecl 463 ''build_placement_warning'' 0 TyInt [] 0x9f37c0,
      bdecl 464 ''mouse_down'' 0 TyInt [] 0x9f3800,
      bdecl 465 ''get_mouse_screen_x'' 0 TyInt [] 0x9f3840,
      bdecl 466 ''get_mouse_screen_y'' 0 TyInt [] 0x9f3860,
      bdecl 467 ''get_mouse_game_x'' 0 TyInt [] 0x9f3880,
      bdecl 468 ''get_mouse_game_y'' 0 TyInt [] 0x9f38a0,
      bdecl 469 ''is_game_mouse_near'' 3 TyInt [TyInt, TyInt, TyInt] 0x9f38c0,
      bdecl 470 ''key_down'' 1 TyInt [TyStr] 0x9f3950,
      bdecl 471 ''key_released'' 1 TyInt [TyStr] 0x9f39a0,
      bdecl 472 ''build_menu_active'' 0 TyInt [] 0x9f3a00,
      bdecl 473 ''build_military_menu_active'' 0 TyInt [] 0x9f3a30,
      bdecl 474 ''build_wonder_menu_active'' 0 TyInt [] 0x9f3a60,
      bdecl 475 ''build_option_selected'' 1 TyInt [TyStr] 0x9f3a90,
      bdecl 476 ''is_zoomed_in'' 0 TyInt [] 0x9f3af0,
      bdecl 477 ''is_zoomed_out'' 0 TyInt [] 0x9f3b20,
      bdecl 478 ''is_on_screen'' 2 TyInt [TyInt, TyInt] 0x9f3b50,
      bdecl 479 ''is_move_selected'' 0 TyInt [] 0x9f3be0,
      bdecl 480 ''is_rally_selected'' 0 TyInt [] 0x9f3c00,
      bdecl 481 ''is_patrol_selected'' 0 TyInt [] 0x9f3c20,
      bdecl 482 ''is_airstrike_selected'' 0 TyInt [] 0x9f3c50,
      bdecl 483 ''get_button_center_x'' 1 TyInt [TyStr] 0x9f3c70,
      bdecl 484 ''get_button_center_y'' 1 TyInt [TyStr] 0x9f3cb0]"

definition BUILTINS_5 :: "builtin_decl list" where
  "BUILTINS_5 =
     [bdecl 485 ''get_button_top'' 1 TyInt [TyStr] 0x9f3cf0,
      bdecl 486 ''get_button_bottom'' 1 TyInt [TyStr] 0x9f3d20,
      bdecl 487 ''get_button_left'' 1 TyInt [TyStr] 0x9f3d50,
      bdecl 488 ''get_button_right'' 1 TyInt [TyStr] 0x9f3d80,
      bdecl 489 ''get_button_rect'' 5 TyInt [TyStr, TyInt, TyInt, TyInt, TyInt] 0x9f3db0,
      bdecl 490 ''get_objectives_top'' 0 TyInt [] 0x9f3e10,
      bdecl 491 ''get_objectives_bottom'' 0 TyInt [] 0x9f3e50,
      bdecl 492 ''get_objectives_left'' 0 TyInt [] 0x9f3e90,
      bdecl 493 ''get_objectives_right'' 0 TyInt [] 0x9f3ed0,
      bdecl 494 ''get_screen_width'' 0 TyInt [] 0x9f3f10,
      bdecl 495 ''get_screen_height'' 0 TyInt [] 0x9f3f30,
      bdecl 496 ''defeat'' 1 TyInt [TyInt] 0x9f3f50,
      bdecl 497 ''victory'' 1 TyInt [TyInt] 0x9f3fa0,
      bdecl 498 ''set_victory_message'' 1 TyInt [TyStr] 0x9f3ff0,
      bdecl 499 ''set_defeat_message'' 1 TyInt [TyStr] 0x9f4010,
      bdecl 500 ''train_unit'' 3 TyInt [TyInt, TyInt, TyStr] 0x9f4030,
      bdecl 501 ''train_unit_at'' 4 TyInt [TyInt, TyInt, TyStr, TyInt] 0x9f4190,
      bdecl 502 ''train_unit_with_cost'' 3 TyInt [TyInt, TyInt, TyStr] 0x9f42d0,
      bdecl 503 ''train_unit_at_with_cost'' 4 TyInt [TyInt, TyInt, TyStr, TyInt] 0x9f4460,
      bdecl 504 ''toggle_infinite_queue'' 3 TyInt [TyInt, TyInt, TyInt] 0x9f45e0,
      bdecl 505 ''switch_teams'' 3 TyInt [TyInt, TyInt, TyInt] 0x9f46b0,
      bdecl 506 ''switch_unit_type'' 3 TyInt [TyInt, TyInt, TyStr] 0x9f4890,
      bdecl 507 ''switch_building_type'' 3 TyInt [TyInt, TyInt, TyStr] 0x9f4a00,
      bdecl 508 ''create_unit'' 5 TyInt [TyInt, TyInt, TyInt, TyStr, TyInt] 0x9f4c50,
      bdecl 509 ''create_unit_upgrade'' 5 TyInt [TyInt, TyInt, TyInt, TyStr, TyInt] 0xa030e0,
      bdecl 510 ''create_unit_in_group'' 5 TyInt [TyInt, TyInt, TyInt, TyStr, TyInt] 0x9f4c80,
      bdecl 511 ''create_building'' 4 TyInt [TyInt, TyInt, TyInt, TyStr] 0x9f4d30,
      bdecl 512 ''create_building_upgrade'' 4 TyInt [TyInt, TyInt, TyInt, TyStr] 0x9f4f00,
      bdecl 513 ''create_building_near'' 5 TyInt [TyInt, TyInt, TyInt, TyStr, TyInt] 0xa03160,
      bdecl 514 ''create_missile_and_target_build'' 6 TyInt [TyInt, TyInt, TyInt, TyStr, TyInt, TyInt] 0x9f4fd0,
      bdecl 515 ''create_missile_and_target_loc'' 6 TyInt [TyInt, TyInt, TyInt, TyStr, TyInt, TyInt] 0x9f5130,
      bdecl 516 ''place_building'' 3 TyInt [TyInt, TyStr, TyStr] 0x9f5270,
      bdecl 517 ''place_orphan_building'' 3 TyInt [TyInt, TyStr, TyInt] 0x9f52f0,
      bdecl 518 ''place_building_upgrade'' 3 TyInt [TyInt, TyStr, TyStr] 0x9f5380,
      bdecl 519 ''place_orphan_building_upgrade'' 3 TyInt [TyInt, TyStr, TyInt] 0x9f5400,
      bdecl 520 ''place_building_with_cost'' 3 TyInt [TyInt, TyStr, TyStr] 0x9f54a0,
      bdecl 521 ''place_orphan_building_with_cost'' 3 TyInt [TyInt, TyStr, TyInt] 0x9f5520,
      bdecl 522 ''place_building_upgrade_with_cost'' 3 TyInt [TyInt, TyStr, TyStr] 0x9f5680,
      bdecl 523 ''place_orphan_building_upgrade_with_cost'' 3 TyInt [TyInt, TyStr, TyInt] 0x9f5700,
      bdecl 524 ''place_city_with_cost'' 1 TyInt [TyInt] 0x9f5860,
      bdecl 525 ''object_health'' 2 TyInt [TyInt, TyInt] 0x9f5910,
      bdecl 526 ''set_object_health'' 3 TyInt [TyInt, TyInt, TyInt] 0x9f5aa0,
      bdecl 527 ''damage_object'' 3 TyInt [TyInt, TyInt, TyInt] 0x9f5bd0,
      bdecl 528 ''heal_object'' 3 TyInt [TyInt, TyInt, TyInt] 0x9f5cb0,
      bdecl 529 ''set_object_type_max_health'' 2 TyInt [TyStr, TyInt] 0x9f5da0,
      bdecl 530 ''object_max_health'' 2 TyInt [TyInt, TyInt] 0x9f5f60,
      bdecl 531 ''set_object_type_armor'' 2 TyInt [TyStr, TyInt] 0x9f5fb0,
      bdecl 532 ''set_object_type_attack'' 2 TyInt [TyStr, TyInt] 0x9f6170,
      bdecl 533 ''set_object_type_max_range'' 2 TyInt [TyStr, TyInt] 0x9f6330,
      bdecl 534 ''set_object_type_min_range'' 2 TyInt [TyStr, TyInt] 0x9f64f0,
      bdecl 535 ''set_unit_type_speed'' 2 TyInt [TyStr, TyInt] 0x9f66b0,
      bdecl 536 ''unit_craft'' 2 TyInt [TyInt, TyInt] 0x9f6830,
      bdecl 537 ''set_unit_craft'' 3 TyInt [TyInt, TyInt, TyInt] 0x9f68a0,
      bdecl 538 ''set_unit_type_max_craft'' 2 TyInt [TyStr, TyInt] 0x9f6980,
      bdecl 539 ''unit_max_craft'' 2 TyInt [TyInt, TyInt] 0x9f6ab0,
      bdecl 540 ''kill_unit'' 2 TyInt [TyInt, TyInt] 0x9f6b20,
      bdecl 541 ''kill_unit_anim'' 3 TyInt [TyInt, TyInt, TyInt] 0x9f6c70,
      bdecl 542 ''kill_unit_type'' 2 TyInt [TyInt, TyStr] 0x9f6d70,
      bdecl 543 ''kill_unit_type_anim'' 3 TyInt [TyInt, TyStr, TyInt] 0x9f6ea0,
      bdecl 544 ''destroy_building'' 2 TyInt [TyInt, TyInt] 0x9f6fc0,
      bdecl 545 ''destroy_building_type'' 2 TyInt [TyInt, TyStr] 0x9f7030,
      bdecl 546 ''unit_move_order'' 4 TyInt [TyInt, TyInt, TyInt, TyInt] 0x9f71a0,
      bdecl 547 ''unit_waypoint_order'' 4 TyInt [TyInt, TyInt, TyInt, TyInt] 0x9f7330,
      bdecl 548 ''unit_explore_order'' 4 TyInt [TyInt, TyInt, TyInt, TyInt] 0x9f74c0,
      bdecl 549 ''unit_flee_order'' 4 TyInt [TyInt, TyInt, TyInt, TyInt] 0x9f7650,
      bdecl 550 ''unit_clear_orders'' 2 TyInt [TyInt, TyInt] 0x9f77e0,
      bdecl 551 ''unit_stop_effect'' 2 TyInt [TyInt, TyInt] 0x9f7930,
      bdecl 552 ''unit_attack_order'' 4 TyInt [TyInt, TyInt, TyInt, TyInt] 0x9f79e0,
      bdecl 553 ''unit_attack_to_order'' 4 TyInt [TyInt, TyInt, TyInt, TyInt] 0x9f7c40,
      bdecl 554 ''unit_attack_ground_order'' 4 TyInt [TyInt, TyInt, TyInt, TyInt] 0x9f7db0,
      bdecl 555 ''unit_patrol_order'' 4 TyInt [TyInt, TyInt, TyInt, TyInt] 0x9f7fd0,
      bdecl 556 ''unit_patrol_order_queue'' 4 TyInt [TyInt, TyInt, TyInt, TyInt] 0x9f81d0,
      bdecl 557 ''unit_garrison_order'' 4 TyInt [TyInt, TyInt, TyInt, TyInt] 0x9f8380,
      bdecl 558 ''unit_garrison_order'' 3 TyInt [TyInt, TyInt, TyInt] 0x4ce730,
      bdecl 559 ''unit_eject_order'' 2 TyInt [TyInt, TyInt] 0x9f84e0,
      bdecl 560 ''citizen_repair_order'' 3 TyInt [TyInt, TyInt, TyInt] 0x9f85b0,
      bdecl 561 ''air_unit_transfer_order'' 3 TyInt [TyInt, TyInt, TyInt] 0x9f8720,
      bdecl 562 ''air_unit_return_order'' 2 TyInt [TyInt, TyInt] 0x9f88d0,
      bdecl 563 ''air_base_recall_order'' 2 TyInt [TyInt, TyInt] 0x9f89e0,
      bdecl 564 ''general_entrench'' 2 TyInt [TyInt, TyInt] 0x9f8ac0,
      bdecl 565 ''general_decoy'' 4 TyInt [TyInt, TyInt, TyInt, TyInt] 0x9f8b00,
      bdecl 566 ''general_ambush'' 2 TyInt [TyInt, TyInt] 0x9f8b80,
      bdecl 567 ''general_forced_march'' 2 TyInt [TyInt, TyInt] 0x9f8bc0,
      bdecl 568 ''is_entrenched'' 2 TyInt [TyInt, TyInt] 0x9f8c00,
      bdecl 569 ''is_decoy'' 2 TyInt [TyInt, TyInt] 0x9f8c70,
      bdecl 570 ''general_is_ambushing'' 2 TyInt [TyInt, TyInt] 0x9f8ce0,
      bdecl 571 ''general_is_forced_marching'' 2 TyInt [TyInt, TyInt] 0x9f8d50,
      bdecl 572 ''spy_pilfer'' 4 TyInt [TyInt, TyInt, TyInt, TyInt] 0x9f8dc0,
      bdecl 573 ''spy_bribe'' 4 TyInt [TyInt, TyInt, TyInt, TyInt] 0x9f8e40,
      bdecl 574 ''special_forces_infiltrate'' 4 TyInt [TyInt, TyInt, TyInt, TyInt] 0x9f8ec0,
      bdecl 575 ''special_forces_sabotage'' 4 TyInt [TyInt, TyInt, TyInt, TyInt] 0x9f8f40,
      bdecl 576 ''special_forces_sniper'' 4 TyInt [TyInt, TyInt, TyInt, TyInt] 0x9f8fc0,
      bdecl 577 ''special_forces_counterintel'' 4 TyInt [TyInt, TyInt, TyInt, TyInt] 0x9f9040,
      bdecl 578 ''craft_percent'' 2 TyInt [TyInt, TyInt] 0x9f90c0,
      bdecl 579 ''is_infiltrated'' 2 TyInt [TyInt, TyInt] 0x9f9180,
      bdecl 580 ''is_infiltrated_by'' 3 TyInt [TyInt, TyInt, TyInt] 0x9f91f0,
      bdecl 581 ''remove_infiltrated'' 3 TyInt [TyInt, TyInt, TyInt] 0x9f9260]"

definition BUILTINS_6 :: "builtin_decl list" where
  "BUILTINS_6 =
     [bdecl 582 ''remove_infiltrated'' 2 TyInt [TyInt, TyInt] 0x9f9300,
      bdecl 583 ''is_idle'' 2 TyInt [TyInt, TyInt] 0x9f9370,
      bdecl 584 ''is_gathering'' 2 TyInt [TyInt, TyInt] 0x9f9420,
      bdecl 585 ''has_gather_order'' 2 TyInt [TyInt, TyInt] 0x9f9490,
      bdecl 586 ''has_build_order'' 2 TyInt [TyInt, TyInt] 0x9f9520,
      bdecl 587 ''has_repair_order'' 2 TyInt [TyInt, TyInt] 0x9f95b0,
      bdecl 588 ''has_target_order'' 2 TyInt [TyInt, TyInt] 0x9f9640,
      bdecl 589 ''has_attack_order'' 2 TyInt [TyInt, TyInt] 0x9f96c0,
      bdecl 590 ''has_patrol_order'' 2 TyInt [TyInt, TyInt] 0x9f9740,
      bdecl 591 ''has_follow_order'' 2 TyInt [TyInt, TyInt] 0x9f97c0,
      bdecl 592 ''has_move_order'' 2 TyInt [TyInt, TyInt] 0x9f9840,
      bdecl 593 ''has_cast_order'' 2 TyInt [TyInt, TyInt] 0x9f98d0,
      bdecl 594 ''has_repeat_orders'' 2 TyInt [TyInt, TyInt] 0x9f9970,
      bdecl 595 ''repeat_orders_enable'' 2 TyInt [TyInt, TyInt] 0x9f99e0,
      bdecl 596 ''repeat_orders_disable'' 2 TyInt [TyInt, TyInt] 0x9f9ad0,
      bdecl 597 ''get_spell_name'' 2 TyStr [TyInt, TyInt] 0x9f9bc0,
      bdecl 598 ''find_target_who'' 2 TyInt [TyInt, TyInt] 0x9f9d00,
      bdecl 599 ''find_target_id'' 2 TyInt [TyInt, TyInt] 0x9f9db0,
      bdecl 600 ''unit_stance_order'' 3 TyInt [TyInt, TyInt, TyStr] 0x9f9e50,
      bdecl 601 ''num_in_group'' 1 TyInt [TyInt] 0x4ce6c0,
      bdecl 602 ''group_id'' 1 TyInt [TyInt] 0x4ce660,
      bdecl 603 ''add_to_group'' 2 TyInt [TyInt, TyInt] 0x4ce5f0,
      bdecl 604 ''remove_from_group'' 2 TyInt [TyInt, TyInt] 0x4ce560,
      bdecl 605 ''is_in_group'' 2 TyInt [TyInt, TyInt] 0x4ce4f0,
      bdecl 606 ''clear_group'' 1 TyInt [TyInt] 0x4ce470,
      bdecl 607 ''group_move_order'' 3 TyInt [TyInt, TyInt, TyInt] 0x4ce400,
      bdecl 608 ''group_waypoint_order'' 3 TyInt [TyInt, TyInt, TyInt] 0x4ce390,
      bdecl 609 ''group_explore_order'' 3 TyInt [TyInt, TyInt, TyInt] 0x4ce320,
      bdecl 610 ''group_attack_order'' 3 TyInt [TyInt, TyInt, TyInt] 0x4ce2b0,
      bdecl 611 ''group_guard_order'' 3 TyInt [TyInt, TyInt, TyInt] 0x4ce240,
      bdecl 612 ''group_attack_to_order'' 3 TyInt [TyInt, TyInt, TyInt] 0x4ce1d0,
      bdecl 613 ''group_patrol_order'' 3 TyInt [TyInt, TyInt, TyInt] 0x4ce160,
      bdecl 614 ''group_patrol_order_queue'' 3 TyInt [TyInt, TyInt, TyInt] 0x4ce0f0,
      bdecl 615 ''group_stance_order'' 2 TyInt [TyInt, TyStr] 0x4ce080,
      bdecl 616 ''group_jump_move'' 4 TyInt [TyInt, TyInt, TyInt, TyInt] 0x4ce010,
      bdecl 617 ''group_garrison_order'' 2 TyInt [TyInt, TyInt] 0x4cdfa0,
      bdecl 618 ''group_garrison_order'' 3 TyInt [TyInt, TyInt, TyInt] 0x4cdf30,
      bdecl 619 ''group_id'' 1 TyInt [TyStr] 0x9fa090,
      bdecl 620 ''num_in_group'' 1 TyInt [TyStr] 0x9fa060,
      bdecl 621 ''add_to_group'' 3 TyInt [TyStr, TyInt, TyInt] 0x9fa120,
      bdecl 622 ''remove_from_group'' 3 TyInt [TyStr, TyInt, TyInt] 0x9fa2a0,
      bdecl 623 ''is_in_group'' 3 TyInt [TyStr, TyInt, TyInt] 0x9fa2e0,
      bdecl 624 ''clear_group'' 1 TyInt [TyStr] 0x9fa350,
      bdecl 625 ''select_group'' 1 TyInt [TyStr] 0x9f0840,
      bdecl 626 ''ping_group'' 2 TyInt [TyStr, TyInt] 0x9e4140,
      bdecl 627 ''ping_group_all'' 2 TyInt [TyStr, TyInt] 0x9e42b0,
      bdecl 628 ''unit_group_near'' 5 TyInt [TyStr, TyInt, TyInt, TyInt, TyInt] 0x9f2b50,
      bdecl 629 ''unit_group_near_build'' 5 TyInt [TyStr, TyInt, TyInt, TyInt, TyInt] 0x9f2cd0,
      bdecl 630 ''group_move_order'' 3 TyInt [TyStr, TyInt, TyInt] 0x9fa390,
      bdecl 631 ''group_waypoint_order'' 3 TyInt [TyStr, TyInt, TyInt] 0x9fa3f0,
      bdecl 632 ''group_explore_order'' 3 TyInt [TyStr, TyInt, TyInt] 0x9fa450,
      bdecl 633 ''group_attack_to_order'' 3 TyInt [TyStr, TyInt, TyInt] 0x9fa570,
      bdecl 634 ''group_patrol_order'' 3 TyInt [TyStr, TyInt, TyInt] 0x9fa5d0,
      bdecl 635 ''group_patrol_order_queue'' 3 TyInt [TyStr, TyInt, TyInt] 0x9fa630,
      bdecl 636 ''group_jump_move'' 4 TyInt [TyStr, TyInt, TyInt, TyInt] 0x9fa710,
      bdecl 637 ''group_garrison_order'' 3 TyInt [TyStr, TyInt, TyInt] 0x9fa780,
      bdecl 638 ''group_attack_order'' 3 TyInt [TyStr, TyInt, TyInt] 0x9fa4b0,
      bdecl 639 ''group_guard_order'' 3 TyInt [TyStr, TyInt, TyInt] 0x9fa510,
      bdecl 640 ''group_stance_order'' 2 TyInt [TyStr, TyStr] 0x9fa690,
      bdecl 641 ''add_to_group'' 2 TyInt [TyGroup, TyInt] 0x9fa7f0,
      bdecl 642 ''remove_from_group'' 2 TyInt [TyGroup, TyInt] 0x9fa870,
      bdecl 643 ''num_in_group'' 1 TyInt [TyGroup] 0x9fa8c0,
      bdecl 644 ''clear_group'' 1 TyVoid [TyGroup] 0x9fa8e0,
      bdecl 645 ''select_group'' 1 TyInt [TyGroup] 0x9fa910,
      bdecl 646 ''ping_group'' 2 TyInt [TyGroup, TyInt] 0x9fa9c0,
      bdecl 647 ''ping_group_all'' 2 TyInt [TyGroup, TyInt] 0x9faae0,
      bdecl 648 ''unit_group_near'' 5 TyInt [TyGroup, TyInt, TyInt, TyInt, TyInt] 0x9fac20,
      bdecl 649 ''unit_group_near_build'' 5 TyInt [TyGroup, TyInt, TyInt, TyInt, TyInt] 0x9fadc0,
      bdecl 650 ''group_move_order'' 3 TyInt [TyGroup, TyInt, TyInt] 0x9faf90,
      bdecl 651 ''group_waypoint_order'' 3 TyInt [TyGroup, TyInt, TyInt] 0x9fb020,
      bdecl 652 ''group_explore_order'' 3 TyInt [TyGroup, TyInt, TyInt] 0x9fb0b0,
      bdecl 653 ''group_attack_to_order'' 3 TyInt [TyGroup, TyInt, TyInt] 0x9fb140,
      bdecl 654 ''group_patrol_order'' 3 TyInt [TyGroup, TyInt, TyInt] 0x9fb1d0,
      bdecl 655 ''group_patrol_order_queue'' 3 TyInt [TyGroup, TyInt, TyInt] 0x9fb250,
      bdecl 656 ''group_jump_move'' 4 TyInt [TyGroup, TyInt, TyInt, TyInt] 0x9fb2d0,
      bdecl 657 ''group_garrison_order'' 3 TyInt [TyGroup, TyInt, TyInt] 0x9fb380,
      bdecl 658 ''group_attack_order'' 3 TyInt [TyGroup, TyInt, TyInt] 0x9fb400,
      bdecl 659 ''group_guard_order'' 3 TyInt [TyGroup, TyInt, TyInt] 0x9fb4b0,
      bdecl 660 ''group_stance_order'' 2 TyInt [TyGroup, TyStr] 0x9fb560,
      bdecl 661 ''give_good'' 3 TyInt [TyInt, TyStr, TyInt] 0x9fb590,
      bdecl 662 ''take_good'' 3 TyInt [TyInt, TyStr, TyInt] 0x9fb630,
      bdecl 663 ''set_good'' 3 TyInt [TyInt, TyStr, TyInt] 0x9fb6f0,
      bdecl 664 ''buy_good'' 2 TyInt [TyInt, TyStr] 0x9fb790,
      bdecl 665 ''sell_good'' 2 TyInt [TyInt, TyStr] 0x9fb880,
      bdecl 666 ''can_buy_sell'' 1 TyInt [TyInt] 0x9fb970,
      bdecl 667 ''find_sell_price'' 2 TyInt [TyInt, TyStr] 0x9fb9e0,
      bdecl 668 ''find_buy_price'' 2 TyInt [TyInt, TyStr] 0x9fbab0,
      bdecl 669 ''set_base_rate'' 3 TyInt [TyInt, TyStr, TyInt] 0x9fbb80,
      bdecl 670 ''get_base_rate'' 2 TyInt [TyInt, TyStr] 0x9fbc20,
      bdecl 671 ''get_commerce_cap'' 2 TyInt [TyInt, TyStr] 0x9fbcc0,
      bdecl 672 ''set_bonus_cap'' 3 TyInt [TyInt, TyStr, TyInt] 0x9fbd60,
      bdecl 673 ''get_bonus_cap'' 2 TyInt [TyInt, TyStr] 0x9fbdf0,
      bdecl 674 ''declare_war'' 2 TyInt [TyInt, TyInt] 0x9fbe80,
      bdecl 675 ''make_peace'' 2 TyInt [TyInt, TyInt] 0x9fbf20,
      bdecl 676 ''make_alliance'' 2 TyInt [TyInt, TyInt] 0x9fbf90,
      bdecl 677 ''offer_tribute'' 4 TyInt [TyInt, TyInt, TyStr, TyInt] 0x9fc030,
      bdecl 678 ''demand_tribute'' 4 TyInt [TyInt, TyInt, TyStr, TyInt] 0x9fc110]"

definition BUILTINS_7 :: "builtin_decl list" where
  "BUILTINS_7 =
     [bdecl 679 ''offer_peace'' 2 TyInt [TyInt, TyInt] 0x9fc1f0,
      bdecl 680 ''offer_alliance'' 2 TyInt [TyInt, TyInt] 0x9fc270,
      bdecl 681 ''offer_mutual_attack'' 3 TyInt [TyInt, TyInt, TyInt] 0x9fc2f0,
      bdecl 682 ''revoke_offer'' 2 TyInt [TyInt, TyInt] 0x9fc390,
      bdecl 683 ''accept_offer'' 2 TyInt [TyInt, TyInt] 0x9fc410,
      bdecl 684 ''reject_offer'' 2 TyInt [TyInt, TyInt] 0x9fc490,
      bdecl 685 ''diplomacy_set_auto'' 1 TyInt [TyInt] 0x9fc530,
      bdecl 686 ''diplomacy_set_wait'' 1 TyInt [TyInt] 0x9fc570,
      bdecl 687 ''diplomacy_set_accept'' 1 TyInt [TyInt] 0x9fc5b0,
      bdecl 688 ''diplomacy_set_reject'' 1 TyInt [TyInt] 0x9fc5f0,
      bdecl 689 ''diplomacy_block_war'' 2 TyInt [TyInt, TyInt] 0x9fc630,
      bdecl 690 ''diplomacy_enable_war'' 2 TyInt [TyInt, TyInt] 0x9fc6a0,
      bdecl 691 ''add_visibility'' 2 TyInt [TyInt, TyInt] 0x9fc710,
      bdecl 692 ''remove_visibility'' 2 TyInt [TyInt, TyInt] 0x9fc7b0,
      bdecl 693 ''make_counter_offer'' 5 TyInt [TyInt, TyInt, TyStr, TyInt, TyStr] 0x9fc850,
      bdecl 694 ''ctw_clear_offer'' 1 TyInt [TyOffer] 0x9fca00,
      bdecl 695 ''offer_made'' 2 TyInt [TyInt, TyInt] 0x9fca20,
      bdecl 696 ''offer_accepted'' 2 TyInt [TyInt, TyInt] 0x9fcab0,
      bdecl 697 ''offer_rejected'' 2 TyInt [TyInt, TyInt] 0x9fcb20,
      bdecl 698 ''is_offering_peace'' 2 TyInt [TyInt, TyInt] 0x9fcb90,
      bdecl 699 ''is_offering_alliance'' 2 TyInt [TyInt, TyInt] 0x9fcc00,
      bdecl 700 ''amount_offered'' 3 TyInt [TyInt, TyInt, TyStr] 0x9fcc70,
      bdecl 701 ''diplomacy_open'' 0 TyInt [] 0x9fcd30,
      bdecl 702 ''contact_open'' 0 TyInt [] 0x9fcd40,
      bdecl 703 ''have_contact'' 2 TyInt [TyInt, TyInt] 0x9fcd60,
      bdecl 704 ''set_contact'' 3 TyInt [TyInt, TyInt, TyInt] 0x9fcde0,
      bdecl 705 ''have_trade'' 2 TyInt [TyInt, TyInt] 0x9fcea0,
      bdecl 706 ''have_alliance'' 2 TyInt [TyInt, TyInt] 0x9fcf50,
      bdecl 707 ''have_peace'' 2 TyInt [TyInt, TyInt] 0x9fcfc0,
      bdecl 708 ''have_war'' 2 TyInt [TyInt, TyInt] 0x9fd040,
      bdecl 709 ''have_fought'' 2 TyInt [TyInt, TyInt] 0x9fd0b0,
      bdecl 710 ''was_raided'' 3 TyInt [TyInt, TyInt, TyInt] 0x9fd140,
      bdecl 711 ''was_attacked'' 3 TyInt [TyInt, TyInt, TyInt] 0x9fd290,
      bdecl 712 ''was_city_raided'' 3 TyInt [TyInt, TyStr, TyInt] 0x9fd3e0,
      bdecl 713 ''was_city_attacked'' 3 TyInt [TyInt, TyStr, TyInt] 0x9fd510,
      bdecl 714 ''was_capital_attacked'' 3 TyInt [TyInt, TyInt, TyInt] 0x9fd640,
      bdecl 715 ''add_flag'' 2 TyInt [TyInt, TyInt] 0x9fd790,
      bdecl 716 ''clear_flags'' 0 TyInt [] 0x9fd7e0,
      bdecl 717 ''scrolling_lock'' 0 TyVoid [] 0x9fd7f0,
      bdecl 718 ''scrolling_lock_minimap'' 0 TyVoid [] 0x9fd800,
      bdecl 719 ''scrolling_lock_shortcuts'' 0 TyVoid [] 0x9fd810,
      bdecl 720 ''scrolling_lock_manual'' 0 TyVoid [] 0x9fd820,
      bdecl 721 ''scrolling_unlock'' 0 TyVoid [] 0x9fd830,
      bdecl 722 ''scrolling_unlock_minimap'' 0 TyVoid [] 0x9fd840,
      bdecl 723 ''scrolling_unlock_shortcuts'' 0 TyVoid [] 0x9fd850,
      bdecl 724 ''scrolling_unlock_manual'' 0 TyVoid [] 0x9fd860,
      bdecl 725 ''zooming_lock'' 0 TyVoid [] 0x9fd870,
      bdecl 726 ''zooming_lock_manual'' 0 TyVoid [] 0x9fd880,
      bdecl 727 ''zooming_lock_shortcuts'' 0 TyVoid [] 0x9fd890,
      bdecl 728 ''zooming_unlock'' 0 TyVoid [] 0x9fd8a0,
      bdecl 729 ''zooming_unlock_manual'' 0 TyVoid [] 0x9fd8b0,
      bdecl 730 ''zooming_unlock_shortcuts'' 0 TyVoid [] 0x9fd8c0,
      bdecl 731 ''zoom_in'' 2 TyInt [TyInt, TyInt] 0x9fd8d0,
      bdecl 732 ''zoom_out'' 2 TyInt [TyInt, TyInt] 0x9fda10,
      bdecl 733 ''move_camera'' 2 TyInt [TyInt, TyInt] 0x9fdb50,
      bdecl 734 ''jump_camera'' 2 TyInt [TyInt, TyInt] 0x9fdc00,
      bdecl 735 ''center_camera_on'' 2 TyInt [TyInt, TyInt] 0x9fdc80,
      bdecl 736 ''zoom_in_on'' 2 TyInt [TyInt, TyInt] 0x9fdd60,
      bdecl 737 ''zoom_out_on'' 2 TyInt [TyInt, TyInt] 0x9fde70,
      bdecl 738 ''is_camera_panning'' 0 TyInt [] 0x9fdf80,
      bdecl 739 ''get_current_zoom'' 0 TyInt [] 0x9fdf90,
      bdecl 740 ''get_camera_x'' 0 TyInt [] 0x9fdfb0,
      bdecl 741 ''get_camera_y'' 0 TyInt [] 0x9fdfe0,
      bdecl 742 ''take_screenshot'' 1 TyInt [TyStr] 0x9fe010,
      bdecl 743 ''open_file'' 1 TyInt [TyStr] 0x9fe080,
      bdecl 744 ''close_file'' 0 TyInt [] 0xa034e0,
      bdecl 745 ''file_read_text'' 1 TyStr [TyStr] 0x9fe360,
      bdecl 746 ''file_read_attrib'' 2 TyStr [TyStr, TyStr] 0x9fe440,
      bdecl 747 ''file_sort_entries'' 3 TyInt [TyStr, TyStr, TyInt] 0x9fe500,
      bdecl 748 ''get_curr_filename'' 0 TyStr [] 0x9fe570,
      bdecl 749 ''file_next_entry'' 0 TyInt [] 0x9fe5c0,
      bdecl 750 ''file_write_text'' 2 TyInt [TyStr, TyStr] 0x9fe5f0,
      bdecl 751 ''file_write_attrib'' 2 TyInt [TyStr, TyStr] 0x9fe6a0,
      bdecl 752 ''file_traverse_entries'' 1 TyInt [TyStr] 0x9fe6d0,
      bdecl 753 ''file_remove'' 1 TyInt [TyStr] 0x9fe720,
      bdecl 754 ''file_exists'' 1 TyInt [TyStr] 0x9fe7f0,
      bdecl 755 ''file_entry_exists'' 1 TyInt [TyStr] 0x9fe810,
      bdecl 756 ''file_set_category'' 2 TyInt [TyStr, TyInt] 0x9fe8d0,
      bdecl 757 ''file_get_category'' 0 TyStr [] 0x9fea10,
      bdecl 758 ''file_up_category'' 0 TyInt [] 0x9feaa0,
      bdecl 759 ''print_msg'' 1 TyVoid [TyStr] 0x9feb80,
      bdecl 760 ''set_msg_color'' 1 TyVoid [TyStr] 0x9febe0,
      bdecl 761 ''set_msg_time'' 1 TyVoid [TyInt] 0x9fec30,
      bdecl 762 ''clear_msg'' 0 TyVoid [] 0x9fec70,
      bdecl 763 ''set_msg_align'' 1 TyVoid [TyStr] 0x9fecc0,
      bdecl 764 ''print_game_msg'' 1 TyVoid [TyStr] 0x9fecd0,
      bdecl 765 ''clear_game_msg'' 0 TyVoid [] 0x9fed30,
      bdecl 766 ''set_game_msg_color'' 1 TyVoid [TyStr] 0x9fed40,
      bdecl 767 ''set_game_msg_time'' 1 TyVoid [TyInt] 0x9fed90,
      bdecl 768 ''popup_dialog'' 1 TyInt [TyStr] 0x9fedd0,
      bdecl 769 ''popup_choice'' 3 TyInt [TyStr, TyStr, TyStr] 0x9fee70,
      bdecl 770 ''popup_choice'' 4 TyInt [TyStr, TyStr, TyStr, TyStr] 0x9fef90,
      bdecl 771 ''highlight_build_option'' 1 TyInt [TyStr] 0x9ff100,
      bdecl 772 ''highlight_train_option'' 1 TyInt [TyStr] 0x9ff210,
      bdecl 773 ''highlight_tech'' 1 TyInt [TyStr] 0x9ff2a0,
      bdecl 774 ''highlight_option'' 1 TyInt [TyStr] 0x9ff310,
      bdecl 775 ''clear_highlight'' 0 TyInt [] 0x9ff400]"

definition BUILTINS_8 :: "builtin_decl list" where
  "BUILTINS_8 =
     [bdecl 776 ''ui_show'' 0 TyInt [] 0x9ff440,
      bdecl 777 ''ui_hide'' 0 TyInt [] 0x9ff470,
      bdecl 778 ''ui_show_score'' 0 TyInt [] 0x9ff4a0,
      bdecl 779 ''ui_hide_score'' 0 TyInt [] 0x9ff4c0,
      bdecl 780 ''bubble_text_show'' 0 TyInt [] 0x9ff4d0,
      bdecl 781 ''bubble_text_hide'' 0 TyInt [] 0x9ff4e0,
      bdecl 782 ''bubble_text'' 3 TyInt [TyStr, TyInt, TyInt] 0x9ff4f0,
      bdecl 783 ''bubble_text_obj'' 3 TyInt [TyStr, TyInt, TyInt] 0x9ff550,
      bdecl 784 ''is_right_click_action'' 0 TyInt [] 0x9ff5c0,
      bdecl 785 ''enable_production_ai'' 1 TyInt [TyInt] 0x9ff5e0,
      bdecl 786 ''set_auto_peasant_level'' 1 TyInt [TyInt] 0x9ff620,
      bdecl 787 ''disable_production_ai'' 1 TyInt [TyInt] 0x9ff7a0,
      bdecl 788 ''load_production_script'' 2 TyInt [TyInt, TyStr] 0x9ff7e0,
      bdecl 789 ''enable_combat_ai'' 1 TyInt [TyInt] 0x9ff820,
      bdecl 790 ''disable_combat_ai'' 1 TyInt [TyInt] 0x9ff860,
      bdecl 791 ''enable_all_unit_ai'' 1 TyInt [TyInt] 0x9ff8a0,
      bdecl 792 ''disable_all_unit_ai'' 1 TyInt [TyInt] 0x9ff8e0,
      bdecl 793 ''enable_unit_ai'' 2 TyInt [TyInt, TyInt] 0x9ff920,
      bdecl 794 ''disable_unit_ai'' 2 TyInt [TyInt, TyInt] 0x9ffa10,
      bdecl 795 ''force_transport_ability'' 1 TyInt [TyInt] 0x9ffb00,
      bdecl 796 ''enable_city_ai'' 1 TyInt [TyInt] 0x9ffba0,
      bdecl 797 ''disable_city_ai'' 1 TyInt [TyInt] 0x9ffbf0,
      bdecl 798 ''enable_city_defeat'' 1 TyInt [TyInt] 0x9ffc40,
      bdecl 799 ''disable_city_defeat'' 1 TyInt [TyInt] 0x9ffc80,
      bdecl 800 ''draw_screen_arrow_line'' 5 TyInt [TyInt, TyInt, TyInt, TyInt, TyInt] 0x9ffcc0,
      bdecl 801 ''cancel_arrow'' 0 TyVoid [] 0x9ffd20,
      bdecl 802 ''clear_all_arrows'' 0 TyVoid [] 0x9ffd30,
      bdecl 803 ''start_screen_arrow'' 2 TyInt [TyInt, TyInt] 0x9ffd40,
      bdecl 804 ''start_ping_arrow'' 2 TyInt [TyInt, TyInt] 0x9ffd70,
      bdecl 805 ''add_arrow_point'' 2 TyInt [TyInt, TyInt] 0x9ffe00,
      bdecl 806 ''draw_arrow_curve'' 1 TyInt [TyInt] 0x9ffe90,
      bdecl 807 ''set_arrow_color'' 1 TyVoid [TyStr] 0x9fff30,
      bdecl 808 ''set_arrow_thick'' 1 TyVoid [TyReal] 0x9fff80,
      bdecl 809 ''citizen_to_militia'' 2 TyInt [TyInt, TyInt] 0xa00010,
      bdecl 810 ''militia_to_citizen'' 2 TyInt [TyInt, TyInt] 0xa000c0,
      bdecl 811 ''scout_counter_intel'' 4 TyInt [TyInt, TyInt, TyInt, TyInt] 0xa00170,
      bdecl 812 ''set_capital'' 2 TyInt [TyInt, TyStr] 0xa00220,
      bdecl 813 ''num_rare_resources'' 1 TyInt [TyInt] 0xa004b0,
      bdecl 814 ''set_type_line_of_sight'' 2 TyInt [TyStr, TyInt] 0xa00550,
      bdecl 815 ''disable_type_by_tribe'' 2 TyInt [TyStr, TyStr] 0xa006a0,
      bdecl 816 ''enable_type_by_tribe'' 2 TyInt [TyStr, TyStr] 0xa009a0,
      bdecl 817 ''enable_type_by_tribe'' 5 TyInt [TyStr, TyStr, TyStr, TyInt, TyInt] 0xa00ca0,
      bdecl 818 ''enable_type_by_tribe_with_type_name'' 2 TyInt [TyStr, TyStr] 0xa00d90,
      bdecl 819 ''enable_type_by_tribe_with_type_name'' 5 TyInt [TyStr, TyStr, TyStr, TyInt, TyInt] 0xa01090,
      bdecl 820 ''set_preq'' 2 TyInt [TyStr, TyStr] 0xa01180,
      bdecl 821 ''set_preq'' 3 TyInt [TyStr, TyStr, TyStr] 0xa01230,
      bdecl 822 ''set_preq'' 4 TyInt [TyStr, TyStr, TyStr, TyStr] 0xa01370,
      bdecl 823 ''set_age_diff_penalty'' 2 TyInt [TyInt, TyInt] 0xa01520,
      bdecl 824 ''find_resource'' 1 TyInt [TyStr] 0xa015d0,
      bdecl 825 ''resource_position_x'' 1 TyInt [TyInt] 0xa016b0,
      bdecl 826 ''resource_position_y'' 1 TyInt [TyInt] 0xa01700,
      bdecl 827 ''unit_ignore_orders'' 2 TyInt [TyInt, TyInt] 0xa01750,
      bdecl 828 ''unit_obey_orders'' 2 TyInt [TyInt, TyInt] 0xa017d0,
      bdecl 829 ''object_ignore_orders'' 2 TyInt [TyInt, TyInt] 0xa01850,
      bdecl 830 ''object_obey_orders'' 2 TyInt [TyInt, TyInt] 0xa018d0,
      bdecl 831 ''add_infiltrated'' 3 TyInt [TyInt, TyInt, TyInt] 0xa01950,
      bdecl 832 ''ctw_add_objective'' 3 TyInt [TyStr, TyStr, TyStr] 0xa019e0,
      bdecl 833 ''ctw_add_objective_text'' 3 TyInt [TyStr, TyStr, TyStr] 0xa01a20,
      bdecl 834 ''ctw_change_objective_text'' 2 TyInt [TyStr, TyStr] 0xa01a60,
      bdecl 835 ''ctw_set_objective_sound'' 2 TyInt [TyStr, TyStr] 0xa01a80,
      bdecl 836 ''ctw_set_objective_loc'' 3 TyInt [TyStr, TyInt, TyInt] 0xa01aa0,
      bdecl 837 ''ctw_play_objective_sound'' 1 TyInt [TyStr] 0xa01ae0,
      bdecl 838 ''ctw_objective_complete'' 1 TyInt [TyStr] 0xa01b00,
      bdecl 839 ''ctw_remove_objective'' 1 TyInt [TyStr] 0xa01b20,
      bdecl 840 ''ctw_clear_objectives'' 0 TyInt [] 0xa01b40,
      bdecl 841 ''ctw_ai_launch_nukes'' 1 TyInt [TyStr] 0xa01b60,
      bdecl 842 ''ctw_remove_nuke'' 1 TyInt [TyStr] 0xa01e20,
      bdecl 843 ''ctw_build_nuke'' 2 TyInt [TyStr, TyInt] 0xa01e70,
      bdecl 844 ''ctw_get_nuke_cost'' 1 TyInt [TyStr] 0xa01f60,
      bdecl 845 ''get_num_nukes'' 1 TyInt [TyStr] 0xa01fa0,
      bdecl 846 ''get_total_nukes'' 1 TyInt [TyStr] 0xa01fe0,
      bdecl 847 ''ctw_disable_nuke_building'' 0 TyInt [] 0xa02050,
      bdecl 848 ''ctw_enable_nuke_building'' 0 TyInt [] 0xa02070,
      bdecl 849 ''set_defcon_level'' 1 TyInt [TyInt] 0xa02090,
      bdecl 850 ''get_defcon_level'' 0 TyInt [] 0xa020e0,
      bdecl 851 ''ctw_disable_espionage'' 0 TyInt [] 0xa020f0,
      bdecl 852 ''ctw_enable_espionage'' 0 TyInt [] 0xa02110,
      bdecl 853 ''ctw_bonus_card_list'' 2 TyInt [TyStr, TyStringArray] 0xa02130,
      bdecl 854 ''ctw_territory_list'' 3 TyInt [TyStr, TyStringArray, TyInt] 0xa02230,
      bdecl 855 ''ctw_colony_list'' 2 TyInt [TyStr, TyStringArray] 0xa02360,
      bdecl 856 ''ctw_ai_no_declare_war'' 2 TyInt [TyStr, TyStr] 0xa02450,
      bdecl 857 ''ctw_clear_ai_no_declare_war'' 2 TyInt [TyStr, TyStr] 0xa024f0,
      bdecl 858 ''ctw_set_sub_goals'' 2 TyInt [TyStr, TyStr] 0xa02550,
      bdecl 859 ''ctw_enable_gunpowder'' 1 TyInt [TyStr] 0xa02590,
      bdecl 860 ''ctw_disable_gunpowder'' 1 TyInt [TyStr] 0xa025d0,
      bdecl 861 ''ctw_clear_bribes'' 0 TyInt [] 0xa02610,
      bdecl 862 ''show_notice'' 3 TyInt [TyStr, TyStr, TyInt] 0xa02740,
      bdecl 863 ''enable_take_attrition'' 1 TyInt [TyInt] 0xa02880,
      bdecl 864 ''disable_take_attrition'' 1 TyInt [TyInt] 0xa028c0,
      bdecl 865 ''enable_give_attrition'' 1 TyInt [TyInt] 0xa02900,
      bdecl 866 ''disable_give_attrition'' 1 TyInt [TyInt] 0xa02940,
      bdecl 867 ''enable_building_attrition'' 1 TyInt [TyInt] 0xa02980,
      bdecl 868 ''disable_building_attrition'' 1 TyInt [TyInt] 0xa029c0,
      bdecl 869 ''set_neutral_attrition'' 2 TyInt [TyInt, TyInt] 0xa02a00,
      bdecl 870 ''get_neutral_attrition'' 2 TyInt [TyInt, TyInt] 0xa02a60,
      bdecl 871 ''set_attrition_free_point'' 4 TyInt [TyInt, TyInt, TyInt, TyInt] 0xa02aa0,
      bdecl 872 ''clear_attrition_free_points'' 1 TyInt [TyInt] 0xa02b60]"

definition BUILTIN_COUNT :: nat where "BUILTIN_COUNT = 873"

definition BUILTINS :: "builtin_decl list" where
  "BUILTINS = BUILTINS_0 @ BUILTINS_1 @ BUILTINS_2 @ BUILTINS_3 @ BUILTINS_4 @ BUILTINS_5 @ BUILTINS_6 @
     BUILTINS_7 @ BUILTINS_8"

definition builtin :: "u32 \<Rightarrow> builtin_decl option" where
  "builtin index = get BUILTINS (unat index)"

definition has_builtin_name :: "rust_string \<Rightarrow> builtin_decl \<Rightarrow> bool" where
  "has_builtin_name name b = eq_ignore_ascii_case (to_rust_string (bd_name b)) name"

definition find_builtin :: "rust_string \<Rightarrow> builtin_decl option" where
  "find_builtin name = find (has_builtin_name name) BUILTINS"

definition overloads :: "rust_string \<Rightarrow> builtin_decl list" where
  "overloads name = filter (has_builtin_name name) BUILTINS"

end
