(* ===== verification/Script_Code.thy ===== *)
theory Script_Code
  imports Script_Builtins
begin

text \<open>
  Compiled code and programs: the listing of an instruction (\<^verbatim>\<open>disasm.rs\<close>), that disassembling accepts
  exactly what the assembler writes, what variable references and trigger bits keep, that the builtin
  table is in order, and which script a name finds after programs are merged.
\<close>

section \<open>Listings\<close>

fun ty_debug :: "script_ty \<Rightarrow> string" where
  "ty_debug TyInt = ''Int''"
| "ty_debug TyReal = ''Real''"
| "ty_debug TyStr = ''Str''"
| "ty_debug TyVoid = ''Void''"
| "ty_debug TyAny = ''Any''"
| "ty_debug TyParams = ''Params''"
| "ty_debug TyGroup = ''Group''"
| "ty_debug TyArray = ''Array''"
| "ty_debug TyStringArray = ''StringArray''"
| "ty_debug TyOffer = ''Offer''"

definition format_operand :: "operand_kind \<Rightarrow> u32 \<Rightarrow> string" where
  "format_operand kind v =
     (case kind of
        OpVarRef \<Rightarrow>
          (case var_ref_decode v of
             RefConst n \<Rightarrow> ''const['' @ show_nat (unat n) @ '']''
           | RefStatic n \<Rightarrow> ''static['' @ show_nat (unat n) @ '']''
           | RefLocal n \<Rightarrow> ''local['' @ show_nat (unat n) @ '']'')
      | OpConstIndex \<Rightarrow> ''const['' @ show_nat (unat (v AND 0xdfffffff)) @ '']''
      | OpCodeOffset \<Rightarrow> ''-> '' @ show_nat (unat v)
      | OpBuiltinIndex \<Rightarrow>
          (case builtin v of
             Some b \<Rightarrow> bd_name b @ ''#'' @ show_nat (unat v)
           | None \<Rightarrow> ''builtin#'' @ show_nat (unat v))
      | OpScriptIndex \<Rightarrow> ''script['' @ show_nat (unat v) @ '']''
      | OpFileIndex \<Rightarrow> ''file['' @ show_nat (unat v) @ '']''
      | OpArgCount \<Rightarrow> ''argc='' @ show_nat (unat v)
      | OpTriggerIndex \<Rightarrow> ''trigger['' @ show_nat (unat v) @ '']''
      | OpTypeTag \<Rightarrow>
          (case ty_from_tag v of
             Some t \<Rightarrow> ty_debug t
           | None \<Rightarrow> ''type#'' @ show_hex_prefixed (unat v))
      | _ \<Rightarrow> show_hex_prefixed (unat v))"

text \<open>\<^verbatim>\<open>{:>6}\<close>; an opcode outside the table panics.\<close>

definition pad_left :: "nat \<Rightarrow> string \<Rightarrow> string" where
  "pad_left w s = replicate (w - length s) (CHR '' '') @ s"

definition format_insn :: "insn \<Rightarrow> string option" where
  "format_insn i =
     (case opcode_decode (in_op i) of
        None \<Rightarrow> None
      | Some d \<Rightarrow>
          Some (pad_left 6 (show_nat (in_offset i)) @ ''  '' @ in_name i @
            concat (map (\<lambda>(k, v). '' '' @ format_operand (unwrap_or OpRaw (get (od_operands d) k)) v)
              (zip [0..<length (in_operands i)] (in_operands i)))))"

fun join_lines :: "string list \<Rightarrow> string" where
  "join_lines [] = []"
| "join_lines [l] = l"
| "join_lines (l # ls) = l @ ''\<newline>'' @ join_lines ls"

definition format_all :: "u8 list \<Rightarrow> (string, string) result option" where
  "format_all code =
     (case disassemble code of
        Inl e \<Rightarrow> Some (Inl e)
      | Inr is \<Rightarrow>
          (case those (map format_insn is) of
             None \<Rightarrow> None
           | Some ls \<Rightarrow> Some (Inr (join_lines ls))))"

section \<open>Disassembly is exact\<close>

text \<open>What the assembler can be given: known opcodes, each with as many operands as its row says.\<close>

definition item_ok :: "u8 \<times> u32 list \<Rightarrow> bool" where
  "item_ok it \<longleftrightarrow>
     (case opcode_decode (fst it) of Some d \<Rightarrow> length (snd it) = length (od_operands d) | None \<Rightarrow> False)"

definition insn_of :: "nat \<Rightarrow> u8 \<times> u32 list \<Rightarrow> insn" where
  "insn_of off it =
     \<lparr>in_offset = off, in_op = fst it, in_name = od_name (the (opcode_decode (fst it))),
      in_operands = snd it, in_len = 1 + 4 * length (snd it)\<rparr>"

fun listing :: "nat \<Rightarrow> (u8 \<times> u32 list) list \<Rightarrow> insn list" where
  "listing off [] = []"
| "listing off (it # its) = insn_of off it # listing (off + (1 + 4 * length (snd it))) its"

lemma asm_Nil [simp]: "asm [] = []"
  and asm_Cons [simp]: "asm (it # its) = (fst it # concat (map le32 (snd it))) @ asm its"
  by (simp_all add: asm_def split_beta)

lemma length_asm: "length (asm its) = asm_len its"
  by (induction its) (auto simp: asm_len_def asm_def split_beta)

lemma operand_read:
  assumes "i < length ops"
  shows "u32le (pre @ (op # concat (map le32 ops)) @ rest) (Suc (length pre + 4 * i)) = ops ! i"
proof -
  have "bytes_at (concat (map le32 ops) @ rest) (4 * i) 4 = le32 (ops ! i)"
    using assms bytes_at_concat_le32 [of i ops] by (subst bytes_at_append_le) simp_all
  then show ?thesis by (simp add: u32le_def)
qed

lemma operands_read:
  "map (\<lambda>i. u32le (pre @ (op # concat (map le32 ops)) @ rest) (length pre + 1 + 4 * i)) [0..<length ops] = ops"
  using operand_read by (intro nth_equalityI) (simp_all del: append_Cons)

lemma disassemble_from_asm:
  "list_all item_ok its \<Longrightarrow> disassemble_from (pre @ asm its) (length pre) = Inr (listing (length pre) its)"
proof (induction its arbitrary: pre)
  case (Cons it its)
  obtain op ops where it: "it = (op, ops)" by (cases it)
  then obtain d where d: "opcode_decode op = Some d" "length (od_operands d) = length ops"
    using Cons.prems by (auto simp: item_ok_def split: option.splits)
  have "disassemble_from (pre @ asm (it # its)) (length pre + 1 + 4 * length ops)
      = Inr (listing (length pre + 1 + 4 * length ops) its)"
    using Cons.IH [of "pre @ op # concat (map le32 ops)"] Cons.prems it by (simp add: add.assoc)
  then show ?case
    using operands_read [of pre op ops "asm its"] it d
    by (subst disassemble_from.simps) (simp add: insn_of_def Let_def nth_append)
qed (simp add: disassemble_from.simps)

lemma drop_split:
  "pc < length code \<Longrightarrow> drop pc code = code ! pc # bytes_at code (Suc pc) m @ drop (Suc pc + m) code"
  using append_take_drop_id [of m "drop (Suc pc) code"]
  by (simp add: bytes_at_def add.commute flip: Cons_nth_drop_Suc)

lemma disassemble_from_sound:
  "disassemble_from code pc = Inr is \<Longrightarrow> pc \<le> length code \<Longrightarrow>
   \<exists>its. list_all item_ok its \<and> drop pc code = asm its \<and> is = listing pc its"
proof (induction code pc arbitrary: "is" rule: disassemble_from.induct)
  case (1 code pc)
  show ?case
  proof (cases "length code \<le> pc")
    case True
    then show ?thesis using "1.prems" by (intro exI [of _ "[]"]) (simp add: disassemble_from.simps)
  next
    case False
    obtain d rest where d: "opcode_decode (code ! pc) = Some d"
      and len: "pc + 1 + 4 * length (od_operands d) \<le> length code"
      and rest: "disassemble_from code (pc + 1 + 4 * length (od_operands d)) = Inr rest"
      and "is": "is = \<lparr>in_offset = pc, in_op = code ! pc, in_name = od_name d,
        in_operands = map (\<lambda>i. u32le code (pc + 1 + 4 * i)) [0..<length (od_operands d)],
        in_len = 1 + 4 * length (od_operands d)\<rparr> # rest"
      using "1.prems"(1) False
      by (subst (asm) disassemble_from.simps) (auto simp: Let_def split: option.splits if_splits sum.splits)
    let ?ops = "map (\<lambda>i. u32le code (pc + 1 + 4 * i)) [0..<length (od_operands d)]"
    obtain its where its: "list_all item_ok its"
        "drop (pc + 1 + 4 * length (od_operands d)) code = asm its"
        "rest = listing (pc + 1 + 4 * length (od_operands d)) its"
      using "1.IH" [OF False refl d refl _ rest] len by auto
    have "concat (map le32 ?ops) = bytes_at code (pc + 1) (4 * length (od_operands d))"
      using concat_le32_words [of "pc + 1" "length (od_operands d)" code] len
      by (simp add: comp_def mult.commute)
    then have "drop pc code = asm ((code ! pc, ?ops) # its)"
      using its(2) False drop_split [of pc code "4 * length (od_operands d)"] by simp
    moreover have "item_ok (code ! pc, ?ops)" using d by (simp add: item_ok_def)
    ultimately show ?thesis
      using its "is" d by (intro exI [of _ "(code ! pc, ?ops) # its"]) (simp add: insn_of_def)
  qed
qed

text \<open>
  C24: Disassembling accepts exactly the byte strings that the assembler writes for known opcodes with
  the operands of their rows, and gives back those instructions, each at its byte offset.
\<close>

theorem disassembly_exact:
  "disassemble code = Inr is \<longleftrightarrow> (\<exists>its. list_all item_ok its \<and> code = asm its \<and> is = listing 0 its)"
  using disassemble_from_sound [of code 0 "is"] disassemble_from_asm [of _ "[]"]
  by (auto simp: disassemble_def)

lemma those_map_Some: "(\<And>x. x \<in> set xs \<Longrightarrow> f x \<noteq> None) \<Longrightarrow> those (map f xs) \<noteq> None"
  by (induction xs) (auto split: option.splits)

lemma listing_ops: "i \<in> set (listing off its) \<Longrightarrow> in_op i \<in> fst ` set its"
  by (induction off its rule: listing.induct) (auto simp: insn_of_def)

lemma format_all_total: "format_all code \<noteq> None"
proof (cases "disassemble code")
  case (Inr xs)
  then obtain its where its: "list_all item_ok its" "xs = listing 0 its"
    using disassemble_from_sound [of code 0 xs] by (auto simp: disassemble_def)
  have "format_insn i \<noteq> None" if i: "i \<in> set xs" for i
  proof -
    have "opcode_decode (in_op i) \<noteq> None"
      using listing_ops [of i 0 its] i its by (auto simp: list_all_iff item_ok_def split: option.splits)
    then show ?thesis by (simp add: format_insn_def split: option.splits)
  qed
  then show ?thesis using those_map_Some [of xs format_insn] Inr by (auto simp: format_all_def split: option.splits)
qed (simp add: format_all_def)

section \<open>Variable references\<close>

fun var_ref_ok :: "var_ref \<Rightarrow> bool" where
  "var_ref_ok (RefConst i) \<longleftrightarrow> \<not> bit i 29"
| "var_ref_ok (RefStatic i) \<longleftrightarrow> \<not> bit i 29 \<and> \<not> bit i 30"
| "var_ref_ok (RefLocal i) \<longleftrightarrow> \<not> bit i 29 \<and> \<not> bit i 30"

lemma bit_tags:
  "bit (0x20000000 :: u32) n \<longleftrightarrow> n = 29" "bit (0x40000000 :: u32) n \<longleftrightarrow> n = 30"
  "bit (0xdfffffff :: u32) n \<longleftrightarrow> n < 32 \<and> n \<noteq> 29" "bit (0xbfffffff :: u32) n \<longleftrightarrow> n < 32 \<and> n \<noteq> 30"
proof -
  have t: "(0x20000000 :: u32) = push_bit 29 1" "(0x40000000 :: u32) = push_bit 30 1"
    "(0xdfffffff :: u32) = NOT (push_bit 29 1)" "(0xbfffffff :: u32) = NOT (push_bit 30 1)" by simp_all
  show "bit (0x20000000 :: u32) n \<longleftrightarrow> n = 29" "bit (0x40000000 :: u32) n \<longleftrightarrow> n = 30"
    "bit (0xdfffffff :: u32) n \<longleftrightarrow> n < 32 \<and> n \<noteq> 29" "bit (0xbfffffff :: u32) n \<longleftrightarrow> n < 32 \<and> n \<noteq> 30"
    unfolding t by (simp_all only: bit_push_bit_iff bit_not_iff bit_1_iff possible_bit_word) auto
qed

lemma and_tag:
  "(w :: u32) AND 0x20000000 = 0 \<longleftrightarrow> \<not> bit w 29" "(w :: u32) AND 0x40000000 = 0 \<longleftrightarrow> \<not> bit w 30"
  by (auto simp: bit_eq_iff [where ?'a = u32] bit_and_iff bit_tags
    simp del: bit_numeral_word_iff dest: spec [where x = 29] spec [where x = 30])

lemma var_ref_encode_decode: "var_ref_encode (var_ref_decode raw) = raw"
  by (auto simp: var_ref_decode_def and_tag bit_eq_iff [where ?'a = u32] bit_and_iff bit_or_iff bit_tags
    simp del: bit_numeral_word_iff)

lemma var_ref_decode_encode: "var_ref_decode (var_ref_encode r) = r \<longleftrightarrow> var_ref_ok r"
  by (cases r) (auto simp: var_ref_decode_def and_tag bit_eq_iff [where ?'a = u32] bit_and_iff bit_or_iff bit_tags
    simp del: bit_numeral_word_iff dest: bit_imp_le_length spec [where x = 29] spec [where x = 30])

section \<open>Trigger bits\<close>

definition trigger_ok :: "i32 \<Rightarrow> script \<Rightarrow> bool" where
  "trigger_ok idx s \<longleftrightarrow>
     0 \<le> sint idx \<and> sint idx \<le> sint (sc_trigger_count s) \<and> unat idx div 8 < length (sc_trigger_bits s)"

lemma sint_nonneg_unat: "0 \<le> sint (w :: i32) \<Longrightarrow> sint w = int (unat w)"
proof -
  assume "0 \<le> sint w"
  moreover have "sint w < 2 ^ 31" using sint_less [of w] by simp
  ultimately have "take_bit 32 (sint w) = sint w" by (intro take_bit_int_eq_self) simp_all
  moreover have "uint w = take_bit 32 (sint w)" by (simp add: uint_sint)
  ultimately show ?thesis by simp
qed

lemma trigger_byte_nonneg: "0 \<le> sint idx \<Longrightarrow> trigger_byte idx = unat idx div 8"
proof -
  assume "0 \<le> sint idx"
  moreover have "unat idx < 2 ^ 32" using unsigned_less [of idx, where ?'a = nat] by simp
  then have "int (unat idx div 8) mod 2 ^ 64 = int (unat idx div 8)" by (intro mod_pos_pos_trivial) simp_all
  ultimately show ?thesis
    unfolding trigger_byte_def using sint_nonneg_unat [of idx] by (metis nat_int of_nat_numeral zdiv_int)
qed

lemma trigger_byte_neg: "sint idx < 0 \<Longrightarrow> 2 ^ 63 \<le> trigger_byte idx"
proof -
  assume neg: "sint idx < 0"
  have "- (2 ^ 31) \<le> sint idx" using sint_greater_eq [of idx] by simp
  then have d: "- (2 ^ 28) \<le> sint idx div 8" "sint idx div 8 < 0" using neg by auto
  have "(sint idx div 8) mod 2 ^ 64 = (sint idx div 8 + 2 ^ 64) mod 2 ^ 64" by simp
  also have "\<dots> = sint idx div 8 + 2 ^ 64" using d by (intro mod_pos_pos_trivial) simp_all
  finally show ?thesis using d by (simp add: trigger_byte_def)
qed

lemma trigger_bit_mod: "trigger_bit idx = unat idx mod 8"
proof -
  have "idx AND 7 = take_bit 3 idx" by (simp add: take_bit_eq_mask mask_eq_exp_minus_1)
  then show ?thesis by (simp add: trigger_bit_def take_bit_eq_mod unat_mod_distrib)
qed

lemma enabled_iff:
  "is_trigger_enabled idx s \<longleftrightarrow> trigger_ok idx s \<and> bit (sc_trigger_bits s ! (unat idx div 8)) (unat idx mod 8)"
proof (cases "0 \<le> sint idx")
  case True
  then show ?thesis
    by (auto simp: is_trigger_enabled_def trigger_ok_def get_def trigger_byte_nonneg trigger_bit_mod
      bit_iff_odd_drop_bit and_one_eq odd_iff_mod_2_eq_one)
qed (simp add: is_trigger_enabled_def trigger_ok_def)

lemma bit_or_one: "k < 8 \<Longrightarrow> bit ((b :: u8) OR 2 ^ k) m \<longleftrightarrow> bit b m \<or> m = k"
  by (auto simp: bit_or_iff bit_exp_iff possible_bit_word)

lemma bit_and_not_one: "k < 8 \<Longrightarrow> bit ((b :: u8) AND NOT (2 ^ k)) m \<longleftrightarrow> bit b m \<and> m \<noteq> k"
  by (auto simp: bit_and_iff bit_not_iff bit_exp_iff possible_bit_word dest: bit_imp_le_length)

lemma word_minus_one_255: "(- 1 :: u8) = 0xff"
  by simp

lemma unat_digits_eq: "unat (i :: i32) div 8 = unat j div 8 \<Longrightarrow> unat i mod 8 = unat j mod 8 \<Longrightarrow> i = j"
  by (metis div_mult_mod_eq unsigned_word_eqI)

lemma trigger_bit_set_eq:
  assumes "length (sc_trigger_bits s) < 2 ^ 63"
  shows "trigger_bit_set i s =
    (if trigger_ok i s
     then s\<lparr>sc_trigger_bits := (sc_trigger_bits s)[unat i div 8 :=
       sc_trigger_bits s ! (unat i div 8) OR 2 ^ (unat i mod 8)]\<rparr> else s)"
proof (cases "0 \<le> sint i")
  case True
  then show ?thesis by (auto simp: trigger_bit_set_def trigger_ok_def get_def trigger_byte_nonneg trigger_bit_mod)
next
  case False
  then show ?thesis
    using trigger_byte_neg [of i] assms by (auto simp: trigger_bit_set_def trigger_ok_def get_def)
qed

lemma trigger_bit_clear_eq:
  assumes "length (sc_trigger_bits s) < 2 ^ 63"
  shows "trigger_bit_clear i s =
    (if trigger_ok i s
     then s\<lparr>sc_trigger_bits := (sc_trigger_bits s)[unat i div 8 :=
       sc_trigger_bits s ! (unat i div 8) AND NOT (2 ^ (unat i mod 8))]\<rparr> else s)"
proof (cases "0 \<le> sint i")
  case True
  then show ?thesis by (auto simp: trigger_bit_clear_def trigger_ok_def get_def trigger_byte_nonneg trigger_bit_mod)
next
  case False
  then show ?thesis
    using trigger_byte_neg [of i] assms by (auto simp: trigger_bit_clear_def trigger_ok_def get_def)
qed


definition sample_script :: script where
  "sample_script =
     \<lparr>sc_name = to_rust_string ''main'', sc_arity = 0, sc_params = [], sc_refs = [], sc_entry = 0,
      sc_return_type = ty_tag TyVoid, sc_script_type = 0, sc_var_names = [], sc_static_var_names = [],
      sc_trigger_names = [to_rust_string ''start''], sc_statics = [], sc_trigger_bits = [0], sc_trigger_count = 1\<rparr>"


section \<open>The builtin table\<close>

fun table_ok :: "nat \<Rightarrow> builtin_decl list \<Rightarrow> bool" where
  "table_ok k [] \<longleftrightarrow> True"
| "table_ok k (b # bs) \<longleftrightarrow>
     bd_index b = of_nat k \<and> unat (bd_arity b) = length (bd_params b) \<and> table_ok (k + 1) bs"

lemma table_ok_append: "table_ok k (xs @ ys) \<longleftrightarrow> table_ok k xs \<and> table_ok (k + length xs) ys"
  by (induction xs arbitrary: k) auto

lemma table_ok_nth:
  "table_ok k xs \<Longrightarrow> i < length xs \<Longrightarrow>
   bd_index (xs ! i) = of_nat (k + i) \<and> unat (bd_arity (xs ! i)) = length (bd_params (xs ! i))"
proof (induction xs arbitrary: k i)
  case (Cons x xs)
  then show ?case using Cons.IH [of "k + 1" "i - 1"] by (cases i) auto
qed simp

lemma BUILTINS_parts_ok:
  "table_ok 0 BUILTINS_0" "table_ok 97 BUILTINS_1" "table_ok 194 BUILTINS_2" "table_ok 291 BUILTINS_3"
  "table_ok 388 BUILTINS_4" "table_ok 485 BUILTINS_5" "table_ok 582 BUILTINS_6" "table_ok 679 BUILTINS_7"
  "table_ok 776 BUILTINS_8"
  by (simp_all add: BUILTINS_0_def BUILTINS_1_def BUILTINS_2_def BUILTINS_3_def BUILTINS_4_def BUILTINS_5_def
    BUILTINS_6_def BUILTINS_7_def BUILTINS_8_def bdecl_def)

lemma BUILTINS_part_lengths:
  "length BUILTINS_0 = 97" "length BUILTINS_1 = 97" "length BUILTINS_2 = 97" "length BUILTINS_3 = 97"
  "length BUILTINS_4 = 97" "length BUILTINS_5 = 97" "length BUILTINS_6 = 97" "length BUILTINS_7 = 97"
  "length BUILTINS_8 = 97"
  by (simp_all add: BUILTINS_0_def BUILTINS_1_def BUILTINS_2_def BUILTINS_3_def BUILTINS_4_def BUILTINS_5_def
    BUILTINS_6_def BUILTINS_7_def BUILTINS_8_def)

lemma length_BUILTINS: "length BUILTINS = BUILTIN_COUNT"
  by (simp add: BUILTINS_def BUILTINS_part_lengths BUILTIN_COUNT_def)

lemma BUILTINS_ok: "table_ok 0 BUILTINS"
  using BUILTINS_parts_ok by (simp add: BUILTINS_def table_ok_append BUILTINS_part_lengths)

lemma builtin_declared:
  "builtin idx = Some d \<Longrightarrow> bd_index d = idx \<and> unat (bd_arity d) = length (bd_params d)"
  using table_ok_nth [OF BUILTINS_ok, of "unat idx"] by (auto simp: builtin_def get_def split: if_splits)

lemma builtin_None_iff: "builtin idx = None \<longleftrightarrow> BUILTIN_COUNT \<le> unat idx"
  by (auto simp: builtin_def get_def length_BUILTINS)

lemma find_filter: "find p xs = (case filter p xs of [] \<Rightarrow> None | x # _ \<Rightarrow> Some x)"
  by (induction xs) simp_all

lemma find_builtin_overloads: "find_builtin name = (case overloads name of [] \<Rightarrow> None | d # _ \<Rightarrow> Some d)"
  unfolding find_builtin_def overloads_def by (rule find_filter)

section \<open>Merged programs\<close>

lemma position_SomeD: "position p xs = Some i \<Longrightarrow> i < length xs \<and> p (xs ! i) \<and> (\<forall>j<i. \<not> p (xs ! j))"
proof (induction xs arbitrary: i)
  case (Cons x xs)
  then show ?case by (auto simp: less_Suc_eq_0_disj split: if_splits)
qed simp

lemma position_None_iff: "position p xs = None \<longleftrightarrow> (\<forall>x\<in>set xs. \<not> p x)"
  by (induction xs) auto

lemma find_script_below_append:
  "n \<le> length fs \<Longrightarrow> find_script_below name (fs @ gs) n = find_script_below name fs n"
  by (induction n) (auto simp: nth_append split: option.splits)

lemma find_script_below_later:
  "find_script_below name (fs @ gs) (length fs + n) =
     (case find_script_below name gs n of
        Some (f, i) \<Rightarrow> Some (length fs + f, i)
      | None \<Rightarrow> find_script_below name fs (length fs))"
proof (induction n)
  case 0
  show ?case by (simp add: find_script_below_append)
next
  case (Suc n)
  show ?case by (simp add: Suc.IH nth_append split: option.splits)
qed

lemma find_script_below_None:
  "find_script_below name fs n = None \<longleftrightarrow> (\<forall>f<n. file_find_script name (fs ! f) = None)"
  by (induction n) (auto simp: file_find_script_def less_Suc_eq split: option.splits)

lemma find_script_below_Some:
  "find_script_below name fs n = Some (f, i) \<longleftrightarrow>
     f < n \<and> file_find_script name (fs ! f) = Some i \<and> (\<forall>g. f < g \<longrightarrow> g < n \<longrightarrow> file_find_script name (fs ! g) = None)"
  by (induction n) (auto simp: file_find_script_def less_Suc_eq split: option.splits)


definition sample_file :: script_file where
  "sample_file =
     \<lparr>sf_source_file = [], sf_code = [], sf_scripts = [sample_script], sf_const_pool = [],
      sf_linked_file_names = [], sf_line_to_op = []\<rparr>"


end
