(* ===== verification/Script_Ops.thy ===== *)
theory Script_Ops
  imports Script_Values "HOL-Library.Signed_Division" "HOL-Library.List_Lexorder"
begin

text \<open>
  The operators of the script machine (\<^verbatim>\<open>src/crates/don-bhs/src/ops.rs\<close>), one function per receiver type,
  by opcode. Two things are arguments of the model: \<^verbatim>\<open>powf\<close>, whose result the platform decides, and
  \<^verbatim>\<open>to_lowercase\<close>, which is a table of the Unicode standard.
\<close>

record platform =
  pf_powf :: "f32 \<Rightarrow> f32 \<Rightarrow> f32"
  pf_to_lowercase :: "rust_string \<Rightarrow> rust_string"

type_synonym op_result = "(script_value, op_error) result"

definition vbool :: "bool \<Rightarrow> script_value" where "vbool x = VInt (if x then 1 else 0)"

definition wrapping_div :: "i32 \<Rightarrow> i32 \<Rightarrow> i32" where "wrapping_div x y = of_int (sint x sdiv sint y)"
definition wrapping_rem :: "i32 \<Rightarrow> i32 \<Rightarrow> i32" where "wrapping_rem x y = of_int (sint x smod sint y)"

definition int_op :: "platform \<Rightarrow> i32 \<Rightarrow> u8 \<Rightarrow> i32 option \<Rightarrow> op_result" where
  "int_op pf a op rhs =
     (if op = 0x09 then Inr (vbool (sint a < 1))
      else if op = 0x0a \<or> op = 0x0b then Inr (vbool (0 < sint a))
      else if op = 0x12 \<or> op = 0x14 then Inr (VInt (a + 1))
      else if op = 0x13 \<or> op = 0x15 then Inr (VInt (a - 1))
      else if op = 0x16 then Inr (VInt (- a))
      else if op = 0x25 then Inr (VInt (NOT a))
      else case rhs of
        None \<Rightarrow> Inl (BadOperand ''int binary opcode with no rhs'')
      | Some r \<Rightarrow>
          let sh = unat (r AND 31) in
          if op = 0x00 then Inr (VInt r)
          else if op = 0x01 then Inr (vbool (a = r))
          else if op = 0x02 then Inr (vbool (a \<noteq> r))
          else if op = 0x03 \<or> op = 0x04 then Inr (VInt (a + r))
          else if op = 0x05 then Inr (vbool (sint a < sint r))
          else if op = 0x06 then Inr (vbool (sint r < sint a))
          else if op = 0x07 then Inr (vbool (sint a \<le> sint r))
          else if op = 0x08 then Inr (vbool (sint r \<le> sint a))
          else if op = 0x0c \<or> op = 0x0f then Inr (VInt (a * r))
          else if op = 0x0d \<or> op = 0x10 then (if r = 0 then Inl DivideByZero else Inr (VInt (wrapping_div a r)))
          else if op = 0x0e \<or> op = 0x11 then Inr (VInt (a - r))
          else if op = 0x17 \<or> op = 0x18 then Inr (VInt (i32_of_f32 (pf_powf pf (f32_of_i32 a) (f32_of_i32 r))))
          else if op = 0x19 \<or> op = 0x1f then (if r = 0 then Inl DivideByZero else Inr (VInt (wrapping_rem a r)))
          else if op = 0x1a \<or> op = 0x20 then Inr (VInt (push_bit sh a))
          else if op = 0x1b \<or> op = 0x21 then Inr (VInt (signed_drop_bit sh a))
          else if op = 0x1c \<or> op = 0x22 then Inr (VInt (a AND r))
          else if op = 0x1d \<or> op = 0x23 then Inr (VInt (a XOR r))
          else if op = 0x1e \<or> op = 0x24 then Inr (VInt (a OR r))
          else Inl (BadOperand ''opcode not defined for int''))"

definition real_op :: "platform \<Rightarrow> f32 \<Rightarrow> u8 \<Rightarrow> f32 option \<Rightarrow> op_result" where
  "real_op pf a op rhs =
     (if op = 0x09 then Inr (vbool (f32_le a 0))
      else if op = 0x0a \<or> op = 0x0b then Inr (vbool (f32_lt 0 a))
      else if op = 0x12 \<or> op = 0x14 then Inr (VReal (f32_add a F32_ONE))
      else if op = 0x13 \<or> op = 0x15 then Inr (VReal (f32_sub a F32_ONE))
      else if op = 0x16 then Inr (VReal (f32_neg a))
      else case rhs of
        None \<Rightarrow> Inl (BadOperand ''real binary opcode with no rhs'')
      | Some r \<Rightarrow>
          if op = 0x00 then Inr (VReal r)
          else if op = 0x01 then Inr (vbool (f32_eq a r))
          else if op = 0x02 then Inr (vbool (\<not> f32_eq a r))
          else if op = 0x03 \<or> op = 0x04 then Inr (VReal (f32_add a r))
          else if op = 0x05 then Inr (vbool (\<not> f32_lt r a \<and> \<not> f32_eq r a))
          else if op = 0x06 then Inr (vbool (\<not> f32_lt a r \<and> \<not> f32_eq a r))
          else if op = 0x07 then Inr (vbool (f32_le a r))
          else if op = 0x08 then Inr (vbool (f32_le r a))
          else if op = 0x0c \<or> op = 0x0f then Inr (VReal (f32_mul a r))
          else if op = 0x0d \<or> op = 0x10 then
            (if f32_eq r 0 then Inl DivideByZero else Inr (VReal (f32_div a r)))
          else if op = 0x0e \<or> op = 0x11 then Inr (VReal (f32_sub a r))
          else if op = 0x17 \<or> op = 0x18 then Inr (VReal (f32_trunc (pf_powf pf a r)))
          else Inl (BadOperand ''opcode not defined for real''))"

definition str_op :: "platform \<Rightarrow> rust_string \<Rightarrow> u8 \<Rightarrow> script_value option \<Rightarrow> op_result" where
  "str_op pf a op rhs =
     (if op = 0x09 then Inr (vbool (a = []))
      else case rhs of
        None \<Rightarrow> Inl (BadOperand ''string binary opcode with no rhs'')
      | Some (VStr r) \<Rightarrow>
          let al = pf_to_lowercase pf a; rl = pf_to_lowercase pf r in
          if op = 0x00 then Inr (VStr r)
          else if op = 0x01 then Inr (vbool (al = rl))
          else if op = 0x02 then Inr (vbool (al \<noteq> rl))
          else if op = 0x03 then Inr (VStr (a @ r))
          else if op = 0x04 then Inr (VStr (a @ r))
          else if op = 0x05 then Inr (vbool (al < rl))
          else if op = 0x06 then Inr (vbool (rl < al))
          else if op = 0x07 then Inr (vbool (al < rl \<or> al = rl))
          else if op = 0x08 then Inr (vbool (rl < al \<or> al = rl))
          else if op = 0x0a then Inr (vbool (a \<noteq> [] \<and> r \<noteq> []))
          else if op = 0x0b then Inr (vbool (a \<noteq> [] \<or> r \<noteq> []))
          else Inl (BadOperand ''opcode not defined for string'')
      | Some _ \<Rightarrow> Inl (BadOperand ''string operator with non-string rhs''))"

text \<open>The operators whose receiver is not an aggregate.\<close>

fun scalar_op :: "platform \<Rightarrow> script_value \<Rightarrow> u8 \<Rightarrow> script_value option \<Rightarrow> op_result" where
  "scalar_op pf (VInt a) op rhs = int_op pf a op (map_option as_int rhs)"
| "scalar_op pf (VReal a) op rhs = real_op pf a op (map_option as_real rhs)"
| "scalar_op pf (VStr a) op rhs = str_op pf a op rhs"
| "scalar_op pf _ op rhs = Inl (BadOperand ''do_operator on a null ScriptType*'')"

text \<open>
  \<^verbatim>\<open>do_operator(x, OP_EQ_OP, y)\<close> is \<^verbatim>\<open>Ok(Int(1))\<close> for all pairs of two lists of cells, up to the first
  pair for which it is not. Aggregates are compared element by element.
\<close>

partial_function (option) cells_eq :: "platform \<Rightarrow> heap \<Rightarrow> nat list \<Rightarrow> nat list \<Rightarrow> bool option" where
  "cells_eq pf h xs ys =
     (case (xs, ys) of
        (x # xs', y # ys') \<Rightarrow>
          if value_data_type h (cell_at h y) \<noteq> value_data_type h (cell_at h x) then Some False
          else
            (case cell_at h x of
               VObj a \<Rightarrow>
                 (case cell_at h y of
                    VObj b \<Rightarrow>
                      if length (ob_values (obj_at h a)) = length (ob_values (obj_at h b)) then
                        Option.bind (cells_eq pf h (ob_values (obj_at h a)) (ob_values (obj_at h b)))
                          (\<lambda>same. if same then cells_eq pf h xs' ys' else Some False)
                      else Some False
                  | _ \<Rightarrow> Some False)
             | v \<Rightarrow>
                 if scalar_op pf v 0x01 (Some (cell_at h y)) = Inr (VInt 1) then cells_eq pf h xs' ys'
                 else Some False)
      | _ \<Rightarrow> Some True)"

declare cells_eq.simps [code]

definition obj_op :: "platform \<Rightarrow> nat \<Rightarrow> u8 \<Rightarrow> script_value option \<Rightarrow> heap \<Rightarrow> (op_result \<times> heap) option" where
  "obj_op pf this op rhs h =
     (case rhs of
        Some (VObj other) \<Rightarrow>
          if op = 0x00 then
            Option.bind (dup_cells h (ob_values (obj_at h other))) (\<lambda>(cs, h').
              Some (Inr (VObj this), set_obj this ((obj_at h' this)\<lparr>ob_values := cs\<rparr>) h'))
          else if op = 0x01 \<or> op = 0x02 then
            Option.bind
              (if length (ob_values (obj_at h this)) = length (ob_values (obj_at h other))
               then cells_eq pf h (ob_values (obj_at h this)) (ob_values (obj_at h other)) else Some False)
              (\<lambda>eq. Some (Inr (vbool (if op = 0x01 then eq else \<not> eq)), h))
          else Some (Inl (BadOperand ''opcode not defined for an aggregate''), h)
      | _ \<Rightarrow>
          Some (if op = 0x01 then Inr (vbool False)
                else if op = 0x02 then Inr (vbool True)
                else Inl (BadOperand ''aggregate operator with no aggregate rhs''), h))"

definition do_operator ::
    "platform \<Rightarrow> script_value \<Rightarrow> u8 \<Rightarrow> script_value option \<Rightarrow> heap \<Rightarrow> (op_result \<times> heap) option" where
  "do_operator pf lhs op rhs h =
     (case rhs of
        Some r \<Rightarrow>
          if value_data_type h r \<noteq> value_data_type h lhs
          then Some (Inl (TypeMismatch (value_data_type h lhs) (value_data_type h r)), h)
          else (case lhs of VObj this \<Rightarrow> obj_op pf this op rhs h | _ \<Rightarrow> Some (scalar_op pf lhs op rhs, h))
      | None \<Rightarrow> (case lhs of VObj this \<Rightarrow> obj_op pf this op rhs h | _ \<Rightarrow> Some (scalar_op pf lhs op rhs, h)))"

definition error_substitute :: "script_value \<Rightarrow> script_value" where
  "error_substitute recv = (case recv of VReal _ \<Rightarrow> VReal 0 | VStr _ \<Rightarrow> VStr [] | _ \<Rightarrow> VInt 0)"

end
