(* ===== verification/Script_Host.thy ===== *)
theory Script_Host
  imports Script_Builtins Script_Ops
begin

text \<open>
  The host boundary of the script machine (\<^verbatim>\<open>src/crates/don-bhs/src/host.rs\<close>): why a builtin call gives no
  value, the accounting of calls, and the value that the survey mode puts in. A host is an argument of
  the machine: a function from a declaration, the arguments, its own state and the heap (which holds
  the aggregates it is given) to a result and the state and heap after it. The locale says what the
  machine relies on: a host hands out no address that the heap does not have, and keeps the others.
\<close>

section \<open>Results and accounting\<close>

datatype host_error = HostUnimplemented | HostBadArgs string

type_synonym 'h host_fun =
  "builtin_decl \<Rightarrow> script_value list \<Rightarrow> 'h \<Rightarrow> heap \<Rightarrow> (script_value, host_error) result \<times> 'h \<times> heap"

record coverage =
  cv_implemented :: "(u32, u64) btree"
  cv_unimplemented :: "(u32, string \<times> u64) btree"

definition coverage_default :: coverage where
  "coverage_default = \<lparr>cv_implemented = [], cv_unimplemented = []\<rparr>"

definition record_implemented :: "u32 \<Rightarrow> coverage \<Rightarrow> coverage" where
  "record_implemented index c =
     c\<lparr>cv_implemented :=
         bt_insert index ((case bt_get (cv_implemented c) index of Some n \<Rightarrow> n | None \<Rightarrow> 0) + 1)
           (cv_implemented c)\<rparr>"

definition record_unimplemented :: "u32 \<Rightarrow> string \<Rightarrow> coverage \<Rightarrow> coverage" where
  "record_unimplemented index name c =
     c\<lparr>cv_unimplemented :=
         bt_insert index
           (case bt_get (cv_unimplemented c) index of Some (nm, n) \<Rightarrow> (nm, n + 1) | None \<Rightarrow> (name, 1))
           (cv_unimplemented c)\<rparr>"

definition distinct_called :: "coverage \<Rightarrow> nat" where
  "distinct_called c = length (cv_implemented c) + length (cv_unimplemented c)"

definition is_complete :: "coverage \<Rightarrow> bool" where
  "is_complete c \<longleftrightarrow> cv_unimplemented c = []"

text \<open>\<^verbatim>\<open>-1.0\<close> has the bits \<open>0xBF800000\<close>.\<close>

definition survey_err_return :: "script_ty \<Rightarrow> script_value" where
  "survey_err_return ret =
     (case ret of
        TyVoid \<Rightarrow> VNull
      | TyReal \<Rightarrow> VReal 0xBF800000
      | TyStr \<Rightarrow> VStr []
      | _ \<Rightarrow> VInt (- 1))"

definition null_host :: "unit host_fun" where
  "null_host decl args st h = (Inl HostUnimplemented, st, h)"

end
