(* ===== verification/Script_VM.thy ===== *)
theory Script_VM
  imports Script_Host
begin

text \<open>
  The stack machine (\<^verbatim>\<open>src/crates/don-bhs/src/vm.rs\<close>): frames, aliases, one function per opcode handler, the
  dispatch, and the run loop with its budget. An operation of the machine takes the machine and returns
  a result with the machine after it. A failure is an error of the source's \<^verbatim>\<open>VmError\<close> or a panic; not
  returning at all (recursion without end) is \<^const>\<open>None\<close>. The head of the list is the top of the run
  stack; frames are in the order of the \<^verbatim>\<open>Vec\<close>, the running one last.
\<close>

unbundle bit_operations_syntax

section \<open>State\<close>

datatype bound_ref = BoundConst nat u32 | BoundStatic nat nat u32 | BoundLocal nat u32

datatype slot = SVal script_value | SRef bound_ref | SCell nat

record frame =
  fr_file :: nat
  fr_script :: nat
  fr_bip :: nat
  fr_locals :: "slot option list"
  fr_expected_stack :: nat
  fr_void_return :: bool

datatype vm_error =
  BadOpcode u8
| CodeOverrun nat
| StackUnderflow
| BadVarRef var_ref
| BadBuiltinIndex u32
| BadFileIndex nat
| BadScriptIndex nat
| Unimplemented string
| UnimplementedBuiltin u32 string
| HostRejected u32 string string
| BudgetExhausted

datatype vm_fail = Fault vm_error | Panic

record runtime_error =
  re_message :: rust_string
  re_bip :: nat
  re_op :: u8

record run_outcome =
  ro_returned :: "script_value option"
  ro_bytecodes_executed :: u64
  ro_err_count :: u32
  ro_error :: "runtime_error option"

datatype missing_builtin_policy = FailPolicy | SurveyPolicy

datatype vm_step = Continue | Abort runtime_error

record 'h vm =
  vm_prog :: program
  vm_heap :: heap
  vm_host :: 'h
  vm_stack :: "slot list"
  vm_frames :: "frame list"
  vm_returned :: "script_value option"
  vm_coverage :: coverage
  vm_bytecodes_executed :: u64
  vm_err_count :: u32
  vm_budget :: u64
  vm_missing_builtin_policy :: missing_builtin_policy

definition vm_new :: "program \<Rightarrow> heap \<Rightarrow> 'h \<Rightarrow> 'h vm" where
  "vm_new p h host =
     \<lparr>vm_prog = p, vm_heap = h, vm_host = host, vm_stack = [], vm_frames = [], vm_returned = None,
      vm_coverage = coverage_default, vm_bytecodes_executed = 0, vm_err_count = 0, vm_budget = 50000000,
      vm_missing_builtin_policy = FailPolicy\<rparr>"

definition with_budget :: "u64 \<Rightarrow> 'h vm \<Rightarrow> 'h vm" where
  "with_budget b s = s\<lparr>vm_budget := b\<rparr>"

definition with_missing_builtin_policy :: "missing_builtin_policy \<Rightarrow> 'h vm \<Rightarrow> 'h vm" where
  "with_missing_builtin_policy p s = s\<lparr>vm_missing_builtin_policy := p\<rparr>"

section \<open>Operations in sequence\<close>

type_synonym ('h, 'a) action = "'h vm \<Rightarrow> (('a, vm_fail) result \<times> 'h vm) option"

definition vret :: "'a \<Rightarrow> ('h, 'a) action" where
  "vret x s = Some (Inr x, s)"

definition vfail :: "vm_error \<Rightarrow> ('h, 'a) action" where
  "vfail e s = Some (Inl (Fault e), s)"

definition vpanic :: "('h, 'a) action" where
  "vpanic s = Some (Inl Panic, s)"

definition vbind :: "('h, 'a) action \<Rightarrow> ('a \<Rightarrow> ('h, 'b) action) \<Rightarrow> ('h, 'b) action" where
  "vbind m f s =
     (case m s of
        None \<Rightarrow> None
      | Some (Inl e, s') \<Rightarrow> Some (Inl e, s')
      | Some (Inr x, s') \<Rightarrow> f x s')"

definition vread :: "('h vm \<Rightarrow> 'a) \<Rightarrow> ('h, 'a) action" where
  "vread f s = Some (Inr (f s), s)"

definition vmod :: "('h vm \<Rightarrow> 'h vm) \<Rightarrow> ('h, unit) action" where
  "vmod f s = Some (Inr (), f s)"

text \<open>\<^verbatim>\<open>x.ok_or(e)?\<close>, and indexing, which panics.\<close>

definition ok_or :: "vm_error \<Rightarrow> 'a option \<Rightarrow> ('h, 'a) action" where
  "ok_or e x = (case x of Some v \<Rightarrow> vret v | None \<Rightarrow> vfail e)"

definition index_or_panic :: "'a option \<Rightarrow> ('h, 'a) action" where
  "index_or_panic x = (case x of Some v \<Rightarrow> vret v | None \<Rightarrow> vpanic)"

section \<open>Errors of the run\<close>

definition vm_msg :: "string \<Rightarrow> rust_string" where "vm_msg s = to_rust_string s"

definition op_error_message :: "op_error \<Rightarrow> rust_string" where
  "op_error_message e =
     (case e of
        DivideByZero \<Rightarrow> vm_msg ''Can't Divide 0''
      | TypeMismatch lhs rhs \<Rightarrow>
          vm_msg (''operator type mismatch: lhs '' @ show_hex_prefixed (unat lhs) @ '', rhs '' @
            show_hex_prefixed (unat rhs))
      | BadOperand m \<Rightarrow> vm_msg m
      | NotAnArray \<Rightarrow> vm_msg ''variable is not an array''
      | IndexOutOfRange i \<Rightarrow> vm_msg (''array index '' @ show_int (sint i) @ '' out of range''))"

definition rte :: "rust_string \<Rightarrow> nat \<Rightarrow> u8 \<Rightarrow> ('h, vm_step) action" where
  "rte m bip op =
     vbind (vmod (\<lambda>s. s\<lparr>vm_err_count := vm_err_count s + 1\<rparr>)) (\<lambda>_.
     vret (Abort \<lparr>re_message = m, re_bip = bip, re_op = op\<rparr>))"

definition tag_text :: "program \<Rightarrow> u32 \<Rightarrow> rust_string" where
  "tag_text p t =
     (case type_name t p of Some n \<Rightarrow> n | None \<Rightarrow> vm_msg (show_hex_prefixed (unat t)))"

definition rte_op :: "op_error \<Rightarrow> nat \<Rightarrow> u8 \<Rightarrow> ('h, vm_step) action" where
  "rte_op e bip op =
     vbind (vread vm_prog) (\<lambda>p.
     rte (case e of
            TypeMismatch lhs rhs \<Rightarrow>
              vm_msg ''operator type mismatch: lhs '' @ tag_text p lhs @ vm_msg '', rhs '' @ tag_text p rhs
          | _ \<Rightarrow> op_error_message e) bip op)"

section \<open>The running frame\<close>

definition cur_frame :: "('h, frame) action" where
  "cur_frame = vbind (vread vm_frames) (\<lambda>fs. if fs = [] then vpanic else vret (last fs))"

definition set_frame :: "frame \<Rightarrow> ('h, unit) action" where
  "set_frame f = vmod (\<lambda>s. s\<lparr>vm_frames := butlast (vm_frames s) @ [f]\<rparr>)"

definition file_at :: "nat \<Rightarrow> ('h, script_file) action" where
  "file_at i = vbind (vread (\<lambda>s. get (pg_files (vm_prog s)) i)) index_or_panic"

definition script_at :: "nat \<Rightarrow> nat \<Rightarrow> ('h, script) action" where
  "script_at i j = vbind (file_at i) (\<lambda>f. index_or_panic (get (sf_scripts f) j))"

definition cur_script :: "('h, script) action" where
  "cur_script = vbind cur_frame (\<lambda>f. script_at (fr_file f) (fr_script f))"

definition bip :: "('h, nat) action" where "bip = vbind cur_frame (\<lambda>f. vret (fr_bip f))"

definition set_bip :: "nat \<Rightarrow> ('h, unit) action" where
  "set_bip v = vbind cur_frame (\<lambda>f. set_frame (f\<lparr>fr_bip := v\<rparr>))"

definition fetch_u8 :: "('h, u8) action" where
  "fetch_u8 =
     vbind cur_frame (\<lambda>f.
     vbind (file_at (fr_file f)) (\<lambda>file.
     vbind (ok_or (CodeOverrun (fr_bip f)) (get (sf_code file) (fr_bip f))) (\<lambda>b.
     vbind (set_frame (f\<lparr>fr_bip := fr_bip f + 1\<rparr>)) (\<lambda>_.
     vret b))))"

definition code_u32 :: "u8 list \<Rightarrow> nat \<Rightarrow> u32 option" where
  "code_u32 c at = (if at + 4 \<le> length c then Some (u32le c at) else None)"

definition peek_u32 :: "nat \<Rightarrow> ('h, u32) action" where
  "peek_u32 at =
     vbind cur_frame (\<lambda>f.
     vbind (file_at (fr_file f)) (\<lambda>file.
     ok_or (CodeOverrun at) (code_u32 (sf_code file) at)))"

definition fetch_u32 :: "('h, u32) action" where
  "fetch_u32 =
     vbind cur_frame (\<lambda>f.
     vbind (file_at (fr_file f)) (\<lambda>file.
     vbind (ok_or (CodeOverrun (fr_bip f)) (code_u32 (sf_code file) (fr_bip f))) (\<lambda>v.
     vbind (set_frame (f\<lparr>fr_bip := fr_bip f + 4\<rparr>)) (\<lambda>_.
     vret v))))"

definition peek_op :: "('h, u8 option) action" where
  "peek_op =
     vbind cur_frame (\<lambda>f.
     vbind (file_at (fr_file f)) (\<lambda>file.
     vret (get (sf_code file) (fr_bip f))))"

section \<open>Values behind slots\<close>

definition const_at :: "program \<Rightarrow> nat \<Rightarrow> u32 \<Rightarrow> (script_value, vm_fail) result" where
  "const_at p file i =
     (case get (pg_files p) file of
        None \<Rightarrow> Inl Panic
      | Some f \<Rightarrow>
          (case get (sf_const_pool f) (unat i) of
             Some v \<Rightarrow> Inr v
           | None \<Rightarrow> Inl (Fault (BadVarRef (RefConst i)))))"

definition static_at :: "program \<Rightarrow> nat \<Rightarrow> nat \<Rightarrow> u32 \<Rightarrow> (script_value, vm_fail) result" where
  "static_at p file sc i =
     (case Option.bind (get (pg_files p) file) (\<lambda>f. get (sf_scripts f) sc) of
        None \<Rightarrow> Inl Panic
      | Some s \<Rightarrow>
          (case get (sc_statics s) (unat i) of
             Some v \<Rightarrow> Inr (unwrap_or VNull v)
           | None \<Rightarrow> Inl (Fault (BadVarRef (RefStatic i)))))"

text \<open>The slot that a local variable holds, if the frame and the variable exist and are initialised.\<close>

definition local_at :: "frame list \<Rightarrow> nat \<Rightarrow> u32 \<Rightarrow> slot option" where
  "local_at fs frame i = Option.bind (get fs frame) (\<lambda>f. Option.bind (get (fr_locals f) (unat i)) (\<lambda>x. x))"

partial_function (option) deref_in ::
    "'h vm \<Rightarrow> slot \<Rightarrow> (script_value, vm_fail) result option" where
  "deref_in s x =
     (case x of
        SVal v \<Rightarrow> Some (Inr v)
      | SRef r \<Rightarrow>
          (case r of
             BoundConst file i \<Rightarrow> Some (const_at (vm_prog s) file i)
           | BoundStatic file sc i \<Rightarrow> Some (static_at (vm_prog s) file sc i)
           | BoundLocal frame i \<Rightarrow>
               (case local_at (vm_frames s) frame i of
                  None \<Rightarrow> Some (Inl (Fault (BadVarRef (RefLocal i))))
                | Some inner \<Rightarrow> deref_in s inner))
      | SCell c \<Rightarrow> Some (Inr (cell_at (vm_heap s) c)))"

declare deref_in.simps [code]

definition deref :: "slot \<Rightarrow> ('h, script_value) action" where
  "deref x s = map_option (\<lambda>r. (r, s)) (deref_in s x)"

definition push :: "slot \<Rightarrow> ('h, unit) action" where
  "push x = vmod (\<lambda>s. s\<lparr>vm_stack := x # vm_stack s\<rparr>)"

definition pop :: "('h, slot) action" where
  "pop =
     vbind (vread vm_stack) (\<lambda>st.
       case st of
         [] \<Rightarrow> vfail StackUnderflow
       | x # st' \<Rightarrow> vbind (vmod (\<lambda>s. s\<lparr>vm_stack := st'\<rparr>)) (\<lambda>_. vret x))"

definition pop_value :: "('h, script_value) action" where
  "pop_value = vbind pop deref"

definition peek_value :: "('h, script_value) action" where
  "peek_value =
     vbind (vread vm_stack) (\<lambda>st. case st of [] \<Rightarrow> vfail StackUnderflow | x # _ \<Rightarrow> deref x)"

definition bind_ref :: "var_ref \<Rightarrow> ('h, bound_ref) action" where
  "bind_ref r =
     vbind (vread (\<lambda>s. length (vm_frames s) - 1)) (\<lambda>frame.
     vbind cur_frame (\<lambda>f.
       case r of
         RefConst i \<Rightarrow>
           vbind (file_at (fr_file f)) (\<lambda>file.
           vbind (ok_or (BadVarRef r) (get (sf_const_pool file) (unat i))) (\<lambda>_.
           vret (BoundConst (fr_file f) i)))
       | RefStatic i \<Rightarrow>
           vbind (script_at (fr_file f) (fr_script f)) (\<lambda>sc.
           vbind (ok_or (BadVarRef r) (get (sc_statics sc) (unat i))) (\<lambda>_.
           vret (BoundStatic (fr_file f) (fr_script f) i)))
       | RefLocal i \<Rightarrow>
           vbind (ok_or (BadVarRef r) (get (fr_locals f) (unat i))) (\<lambda>_.
           vret (BoundLocal frame i))))"

section \<open>Changes to the program\<close>

text \<open>\<^verbatim>\<open>get_mut(i)\<close> with a change of the element, and \<^verbatim>\<open>resize\<close> to at least \<open>n\<close> elements.\<close>

definition update_at :: "nat \<Rightarrow> ('a \<Rightarrow> 'a) \<Rightarrow> 'a list \<Rightarrow> 'a list" where
  "update_at i f xs = (if i < length xs then xs[i := f (xs ! i)] else xs)"

definition grow_to :: "nat \<Rightarrow> 'a \<Rightarrow> 'a list \<Rightarrow> 'a list" where
  "grow_to n x xs = xs @ replicate (n - length xs) x"

definition upd_script :: "nat \<Rightarrow> nat \<Rightarrow> (script \<Rightarrow> script) \<Rightarrow> program \<Rightarrow> program" where
  "upd_script file sc g p =
     p\<lparr>pg_files := update_at file (\<lambda>f. f\<lparr>sf_scripts := update_at sc g (sf_scripts f)\<rparr>) (pg_files p)\<rparr>"

definition upd_static_meta ::
    "nat \<Rightarrow> nat \<Rightarrow> (value_walk_meta option list \<Rightarrow> value_walk_meta option list) \<Rightarrow> program \<Rightarrow> program" where
  "upd_static_meta file sc g p =
     p\<lparr>pg_walk_meta := map_option (\<lambda>w.
         w\<lparr>pw_files := update_at file (\<lambda>fm.
             fm\<lparr>fw_script_meta := update_at sc (\<lambda>sm. sm\<lparr>sw_statics := g (sw_statics sm)\<rparr>)
               (fw_script_meta fm)\<rparr>) (pw_files w)\<rparr>) (pg_walk_meta p)\<rparr>"

definition upd_prog :: "(program \<Rightarrow> program) \<Rightarrow> ('h, unit) action" where
  "upd_prog g = vmod (\<lambda>s. s\<lparr>vm_prog := g (vm_prog s)\<rparr>)"

definition set_slot :: "var_ref \<Rightarrow> slot \<Rightarrow> value_walk_meta option \<Rightarrow> ('h, unit) action" where
  "set_slot r v meta =
     vbind cur_frame (\<lambda>f.
       case r of
         RefConst _ \<Rightarrow> vfail (BadVarRef r)
       | RefStatic i \<Rightarrow>
           vbind (deref v) (\<lambda>x.
           vbind (script_at (fr_file f) (fr_script f)) (\<lambda>_.
           vbind (upd_prog (upd_script (fr_file f) (fr_script f) (\<lambda>sc.
             sc\<lparr>sc_statics := (grow_to (unat i + 1) None (sc_statics sc))[unat i := Some x]\<rparr>))) (\<lambda>_.
           upd_prog (upd_static_meta (fr_file f) (fr_script f) (\<lambda>ms.
             (grow_to (unat i + 1) None ms)[unat i := meta])))))
       | RefLocal i \<Rightarrow>
           set_frame (f\<lparr>fr_locals := (grow_to (unat i + 1) None (fr_locals f))[unat i := Some v]\<rparr>))"

text \<open>The sidecar entry of a static after an assignment: a scalar that stays a scalar keeps it.\<close>

definition stored_meta :: "script_value \<Rightarrow> value_walk_meta option \<Rightarrow> value_walk_meta option" where
  "stored_meta v meta =
     (case meta of
        Some (ValueWalkMeta _ _ NestedScalar) \<Rightarrow> (case v of VObj _ \<Rightarrow> None | VNull \<Rightarrow> None | _ \<Rightarrow> meta)
      | _ \<Rightarrow> None)"

definition store_static :: "nat \<Rightarrow> nat \<Rightarrow> u32 \<Rightarrow> script_value \<Rightarrow> ('h, unit) action" where
  "store_static file sc i v =
     vbind (script_at file sc) (\<lambda>x.
     vbind (ok_or (BadVarRef (RefStatic i)) (get (sc_statics x) (unat i))) (\<lambda>_.
     vbind (upd_prog (upd_script file sc (\<lambda>y. y\<lparr>sc_statics := (sc_statics y)[unat i := Some v]\<rparr>))) (\<lambda>_.
     upd_prog (upd_static_meta file sc (update_at (unat i) (stored_meta v))))))"

definition store_local :: "nat \<Rightarrow> u32 \<Rightarrow> script_value \<Rightarrow> ('h, unit) action" where
  "store_local frame i v =
     vmod (\<lambda>s. s\<lparr>vm_frames := update_at frame (\<lambda>f.
       f\<lparr>fr_locals := (fr_locals f)[unat i := Some (SVal v)]\<rparr>) (vm_frames s)\<rparr>)"

partial_function (option) store ::
    "slot \<Rightarrow> script_value \<Rightarrow> 'h vm \<Rightarrow> ((unit, vm_fail) result \<times> 'h vm) option" where
  "store target v s =
     (case target of
        SVal _ \<Rightarrow> vret () s
      | SCell c \<Rightarrow> vmod (\<lambda>s. s\<lparr>vm_heap := set_cell c v (vm_heap s)\<rparr>) s
      | SRef r \<Rightarrow>
          (case r of
             BoundConst _ i \<Rightarrow> vfail (BadVarRef (RefConst i)) s
           | BoundStatic file sc i \<Rightarrow> store_static file sc i v s
           | BoundLocal frame i \<Rightarrow>
               (case local_at (vm_frames s) frame i of
                  None \<Rightarrow> vfail (BadVarRef (RefLocal i)) s
                | Some inner \<Rightarrow>
                    (case inner of
                       SVal _ \<Rightarrow> store_local frame i v s
                     | _ \<Rightarrow> store inner v s))))"

declare store.simps [code]

section \<open>Heap operations\<close>

text \<open>An operation on the heap that may not return.\<close>

definition on_heap :: "(heap \<Rightarrow> ('a \<times> heap) option) \<Rightarrow> ('h, 'a) action" where
  "on_heap f s = map_option (\<lambda>(x, h). (Inr x, s\<lparr>vm_heap := h\<rparr>)) (f (vm_heap s))"

definition dup :: "script_value \<Rightarrow> ('h, script_value) action" where
  "dup v = on_heap (duplicate v)"

definition operator :: "platform \<Rightarrow> script_value \<Rightarrow> u8 \<Rightarrow> script_value option \<Rightarrow> ('h, op_result) action" where
  "operator pf lhs op rhs = on_heap (do_operator pf lhs op rhs)"

definition zero_of :: "u32 \<Rightarrow> script_value" where
  "zero_of t =
     (case ty_from_tag t of
        Some TyReal \<Rightarrow> VReal 0
      | Some TyStr \<Rightarrow> VStr []
      | _ \<Rightarrow> VInt 0)"

definition zero_scalar :: "script_value \<Rightarrow> script_value" where
  "zero_scalar v = (case v of VReal _ \<Rightarrow> VReal 0 | VStr _ \<Rightarrow> VStr [] | _ \<Rightarrow> VInt 0)"

partial_function (option) zero_cells :: "heap \<Rightarrow> nat list \<Rightarrow> (nat list \<times> heap) option" where
  "zero_cells h cs =
     (case cs of
        [] \<Rightarrow> Some ([], h)
      | c # cs' \<Rightarrow>
          (case cell_at h c of
             VObj a \<Rightarrow>
               Option.bind (zero_cells h (ob_values (obj_at h a))) (\<lambda>r.
                 let (a', h2) = alloc_obj ((obj_at h a)\<lparr>ob_values := fst r\<rparr>) (snd r);
                     (c', h3) = alloc_cell (VObj a') h2
                 in Option.bind (zero_cells h3 cs') (\<lambda>r'. Some (c' # fst r', snd r')))
           | v \<Rightarrow>
               let (c', h') = alloc_cell (zero_scalar v) h
               in Option.bind (zero_cells h' cs') (\<lambda>r'. Some (c' # fst r', snd r'))))"

declare zero_cells.simps [code]

definition zero_like :: "script_value \<Rightarrow> heap \<Rightarrow> (script_value \<times> heap) option" where
  "zero_like v h =
     (case v of
        VObj a \<Rightarrow>
          Option.bind (zero_cells h (ob_values (obj_at h a))) (\<lambda>(cs, h').
            let (a', h'') = alloc_obj ((obj_at h a)\<lparr>ob_values := cs\<rparr>) h' in Some (VObj a', h''))
      | _ \<Rightarrow> Some (zero_scalar v, h))"

definition promoted_scalar_walk_meta :: "script_value \<Rightarrow> value_walk_meta option" where
  "promoted_scalar_walk_meta v =
     (case v of VObj _ \<Rightarrow> None | VNull \<Rightarrow> None | _ \<Rightarrow> Some (walk_scalar 3 0))"

section \<open>Frames\<close>

definition push_frame :: "nat \<Rightarrow> nat \<Rightarrow> ('h, unit) action" where
  "push_frame file sc =
     vbind (vread vm_prog) (\<lambda>p.
     vbind (ok_or (BadFileIndex file) (get (pg_files p) file)) (\<lambda>f.
     vbind (ok_or (BadScriptIndex sc) (get (sf_scripts f) sc)) (\<lambda>x.
     vbind (vread (\<lambda>s. length (vm_stack s))) (\<lambda>n.
       if n < sc_arity x then vfail StackUnderflow
       else
         let void = (sc_return_type x = ty_tag TyVoid) in
         vmod (\<lambda>s. s\<lparr>vm_frames := vm_frames s @
           [\<lparr>fr_file = file, fr_script = sc, fr_bip = unat (sc_entry x), fr_locals = [],
             fr_expected_stack = n - sc_arity x + (if void then 0 else 1), fr_void_return = void\<rparr>]\<rparr>)))))"

definition close_frame :: "('h, vm_step) action" where
  "close_frame =
     vbind cur_frame (\<lambda>f.
     vbind (vmod (\<lambda>s. s\<lparr>vm_frames := butlast (vm_frames s)\<rparr>)) (\<lambda>_.
     vbind (vread (\<lambda>s. length (vm_stack s))) (\<lambda>n.
       if n \<noteq> fr_expected_stack f then
         rte (vm_msg (''wrong number of params: stack '' @ show_nat n @ '' != expected '' @
           show_nat (fr_expected_stack f))) (fr_bip f) 0x3e
       else
         vbind (vread (\<lambda>s. vm_frames s = [])) (\<lambda>empty.
         vbind
           (if empty \<and> \<not> fr_void_return f then
              vbind (vread vm_stack) (\<lambda>st.
                case st of
                  [] \<Rightarrow> vmod (\<lambda>s. s\<lparr>vm_returned := None\<rparr>)
                | _ \<Rightarrow>
                    vbind pop_value (\<lambda>v.
                    vmod (\<lambda>s. s\<lparr>vm_returned := Some v\<rparr>)))
            else vret ()) (\<lambda>_.
         vret Continue)))))"

section \<open>Handlers\<close>

text \<open>The common end of a handler that applies an operator: go on with its result, or abort the run.\<close>

definition with_result ::
    "op_result \<Rightarrow> nat \<Rightarrow> u8 \<Rightarrow> (script_value \<Rightarrow> ('h, unit) action) \<Rightarrow> ('h, vm_step) action" where
  "with_result r here op k =
     (case r of
        Inr out \<Rightarrow> vbind (k out) (\<lambda>_. vret Continue)
      | Inl e \<Rightarrow> rte_op e here op)"

definition continue_with :: "('h, unit) action \<Rightarrow> ('h, vm_step) action" where
  "continue_with m = vbind m (\<lambda>_. vret Continue)"

definition op_push :: "('h, vm_step) action" where
  "op_push =
     vbind fetch_u32 (\<lambda>raw.
     vbind (bind_ref (var_ref_decode raw)) (\<lambda>bound.
     vbind (deref (SRef bound)) (\<lambda>_.
     continue_with (push (SRef bound)))))"

definition op_pop :: "('h, vm_step) action" where
  "op_pop = vbind pop (\<lambda>_. vret Continue)"

definition op_assign :: "platform \<Rightarrow> nat \<Rightarrow> u8 \<Rightarrow> ('h, vm_step) action" where
  "op_assign pf here op =
     vbind pop (\<lambda>target.
     vbind pop_value (\<lambda>rhs.
     vbind (deref target) (\<lambda>cur.
     vbind (operator pf cur op (Some rhs)) (\<lambda>r.
     with_result r here op (\<lambda>out.
       vbind (store target out) (\<lambda>_. push target))))))"

definition op_binary :: "platform \<Rightarrow> nat \<Rightarrow> u8 \<Rightarrow> ('h, vm_step) action" where
  "op_binary pf here op =
     vbind pop_value (\<lambda>rhs.
     vbind pop_value (\<lambda>lhs.
     vbind (operator pf lhs op (Some rhs)) (\<lambda>r.
     with_result r here op (\<lambda>out. push (SVal out)))))"

definition op_unary :: "platform \<Rightarrow> nat \<Rightarrow> u8 \<Rightarrow> ('h, vm_step) action" where
  "op_unary pf here op =
     vbind pop_value (\<lambda>v.
     vbind (operator pf v op None) (\<lambda>r.
     with_result r here op (\<lambda>out. push (SVal out))))"

text \<open>After a step by one: a following \<^const>\<open>OP_POP\<close> is skipped, otherwise the result is pushed.\<close>

definition push_unless_popped :: "slot \<Rightarrow> ('h, unit) action" where
  "push_unless_popped x =
     vbind peek_op (\<lambda>nxt.
     if nxt = Some OP_POP then vbind cur_frame (\<lambda>f. set_frame (f\<lparr>fr_bip := fr_bip f + 1\<rparr>))
     else push x)"

definition op_pre_step :: "platform \<Rightarrow> nat \<Rightarrow> u8 \<Rightarrow> ('h, vm_step) action" where
  "op_pre_step pf here op =
     vbind pop (\<lambda>target.
     vbind (deref target) (\<lambda>cur.
     vbind (operator pf cur op None) (\<lambda>r.
     with_result r here op (\<lambda>out.
       vbind (store target out) (\<lambda>_. push_unless_popped target)))))"

definition op_post_step :: "platform \<Rightarrow> nat \<Rightarrow> u8 \<Rightarrow> ('h, vm_step) action" where
  "op_post_step pf here op =
     vbind pop (\<lambda>target.
     vbind (deref target) (\<lambda>cur.
     vbind (operator pf cur op None) (\<lambda>r.
     with_result r here op (\<lambda>out.
       vbind (store target out) (\<lambda>_. push_unless_popped (SVal cur))))))"

definition op_init_copy :: "('h, vm_step) action" where
  "op_init_copy =
     vbind pop_value (\<lambda>v0.
     vbind (dup v0) (\<lambda>v.
     vbind fetch_u32 (\<lambda>raw.
     continue_with (set_slot (var_ref_decode raw) (SVal v) (promoted_scalar_walk_meta v)))))"

definition op_init :: "('h, vm_step) action" where
  "op_init =
     vbind pop (\<lambda>v.
     vbind fetch_u32 (\<lambda>raw.
     continue_with (set_slot (var_ref_decode raw) v
       (case v of SVal x \<Rightarrow> promoted_scalar_walk_meta x | _ \<Rightarrow> None))))"

definition op_cast_bool :: "('h, vm_step) action" where
  "op_cast_bool =
     vbind pop_value (\<lambda>v.
     continue_with (push (SVal (vbool (is_true v)))))"

definition op_cast :: "('h, vm_step) action" where
  "op_cast =
     vbind pop_value (\<lambda>v.
     vbind fetch_u32 (\<lambda>t.
     vbind
       (case ty_from_tag t of
          Some TyInt \<Rightarrow> vret (VInt (as_int v))
        | Some TyReal \<Rightarrow> vret (VReal (as_real v))
        | Some TyStr \<Rightarrow>
            (case as_string v of
               Inr x \<Rightarrow> vret (VStr x)
             | Inl _ \<Rightarrow> vfail (Unimplemented ''ScriptObject::get_string''))
        | _ \<Rightarrow> vret v) (\<lambda>out.
     continue_with (push (SVal out)))))"

definition op_create_simple :: "('h, vm_step) action" where
  "op_create_simple = vbind fetch_u32 (\<lambda>t. continue_with (push (SVal (zero_of t))))"

definition new_array :: "u32 \<Rightarrow> script_value \<Rightarrow> nat \<Rightarrow> ('h, script_value) action" where
  "new_array t base n = on_heap (\<lambda>h. Some (value_array t base n h))"

definition op_create_array :: "('h, vm_step) action" where
  "op_create_array =
     vbind pop_value (\<lambda>base.
     vbind fetch_u32 (\<lambda>t.
     vbind (new_array t base 0) (\<lambda>v.
     continue_with (push (SVal v)))))"

definition op_create_array_dyn :: "nat \<Rightarrow> u8 \<Rightarrow> ('h, vm_step) action" where
  "op_create_array_dyn here op =
     vbind pop_value (\<lambda>nv.
     vbind pop_value (\<lambda>base.
     vbind fetch_u32 (\<lambda>t.
       let n = sint (as_int nv) in
       if n < 0 then rte (vm_msg (''negative array size '' @ show_int n)) here op
       else vbind (new_array t base (nat n)) (\<lambda>v. continue_with (push (SVal v))))))"

text \<open>\<^verbatim>\<open>count\<close> values off the stack, each copied as it comes.\<close>

primrec pop_copies :: "nat \<Rightarrow> ('h, script_value list) action" where
  "pop_copies 0 = vret []"
| "pop_copies (Suc n) =
     vbind pop_value (\<lambda>v0.
     vbind (dup v0) (\<lambda>v.
     vbind (pop_copies n) (\<lambda>vs.
     vret (v # vs))))"

definition op_create_struct :: "('h, vm_step) action" where
  "op_create_struct =
     vbind fetch_u32 (\<lambda>n.
     vbind fetch_u32 (\<lambda>t.
     vbind (pop_copies (unat n)) (\<lambda>vals.
     vbind (on_heap (\<lambda>h. Some (value_strukt t vals h))) (\<lambda>v.
     continue_with (push (SVal v))))))"

definition initialised_array :: "u32 \<Rightarrow> script_value \<Rightarrow> script_value list \<Rightarrow> heap \<Rightarrow> script_value \<times> heap" where
  "initialised_array t base vals h =
     (let (cs, h) = alloc_cells vals h;
          (a, h) = alloc_obj \<lparr>ob_data_type = t, ob_values = cs, ob_blank_base = Some base,
            ob_is_array = True\<rparr> h
      in (VObj a, h))"

definition op_create_array_initer :: "nat \<Rightarrow> u8 \<Rightarrow> ('h, vm_step) action" where
  "op_create_array_initer here op =
     vbind fetch_u32 (\<lambda>n.
     vbind fetch_u32 (\<lambda>t.
     vbind (pop_copies (unat n)) (\<lambda>vals.
       case vals of
         [] \<Rightarrow> rte (vm_msg ''array initialiser with no elements'') here op
       | v0 # _ \<Rightarrow>
           vbind (on_heap (zero_like v0)) (\<lambda>base.
           vbind (on_heap (\<lambda>h. Some (initialised_array t base vals h))) (\<lambda>v.
           continue_with (push (SVal v)))))))"

definition op_push_array_index :: "nat \<Rightarrow> u8 \<Rightarrow> ('h, vm_step) action" where
  "op_push_array_index here op =
     vbind pop_value (\<lambda>iv.
     vbind pop_value (\<lambda>base.
       let idx = as_int iv in
       case base of
         VObj a \<Rightarrow>
           vbind (vread (\<lambda>s. ob_values (obj_at (vm_heap s) a))) (\<lambda>vs.
             let len = (of_nat (length vs) :: i32) in
             if sint len \<le> sint idx \<or> sint idx < 0 then
               rte (vm_msg (''array index '' @ show_int (sint idx) @ '' out of range ('' @
                 show_int (sint len) @ '')'')) here op
             else
               vbind (index_or_panic (get vs (nat (sint idx)))) (\<lambda>c.
               continue_with (push (SCell c))))
       | _ \<Rightarrow> rte (vm_msg ''variable is not an array'') here op))"

definition is_array_value :: "heap \<Rightarrow> script_value \<Rightarrow> nat option" where
  "is_array_value h v =
     (case v of VObj a \<Rightarrow> (if ob_is_array (obj_at h a) then Some a else None) | _ \<Rightarrow> None)"

definition op_create_array_index :: "nat \<Rightarrow> u8 \<Rightarrow> ('h, vm_step) action" where
  "op_create_array_index here op =
     vbind pop_value (\<lambda>iv.
     vbind pop_value (\<lambda>base.
     vbind (vread (\<lambda>s. is_array_value (vm_heap s) base)) (\<lambda>arr.
       let idx = as_int iv; i = nat (sint idx) in
       case arr of
         None \<Rightarrow> rte (vm_msg ''variable is not an array'') here op
       | Some a \<Rightarrow>
           if sint idx < 0
           then rte (vm_msg (''array index '' @ show_int (sint idx) @ '' out of range'')) here op
           else
             vbind (vread (\<lambda>s. length (ob_values (obj_at (vm_heap s) a)))) (\<lambda>len.
             vbind
               (if len \<le> i then on_heap (\<lambda>h. Some (obj_resize a (i + 1) True h)) else vret (Inr ())) (\<lambda>r.
               case r of
                 Inl e \<Rightarrow> rte_op e here op
               | Inr _ \<Rightarrow>
                   vbind (vread (\<lambda>s. get (ob_values (obj_at (vm_heap s) a)) i)) (\<lambda>c.
                   vbind (index_or_panic c) (\<lambda>c.
                   continue_with (push (SCell c)))))))))"

definition op_push_struct_field :: "nat \<Rightarrow> u8 \<Rightarrow> ('h, vm_step) action" where
  "op_push_struct_field here op =
     vbind pop_value (\<lambda>base.
     vbind fetch_u32 (\<lambda>i.
       case base of
         VObj a \<Rightarrow>
           vbind (vread (\<lambda>s. ob_values (obj_at (vm_heap s) a))) (\<lambda>vs.
             if length vs \<le> unat i then
               rte (vm_msg (''struct field '' @ show_nat (unat i) @ '' out of range ('' @
                 show_nat (length vs) @ '')'')) here op
             else
               vbind (index_or_panic (get vs (unat i))) (\<lambda>c.
               continue_with (push (SCell c))))
       | _ \<Rightarrow> rte (vm_msg ''variable is not a struct'') here op))"

definition op_push_array_length :: "nat \<Rightarrow> u8 \<Rightarrow> ('h, vm_step) action" where
  "op_push_array_length here op =
     vbind pop_value (\<lambda>base.
       case base of
         VObj a \<Rightarrow>
           vbind (vread (\<lambda>s. length (ob_values (obj_at (vm_heap s) a)))) (\<lambda>n.
           continue_with (push (SVal (VInt (of_nat n)))))
       | _ \<Rightarrow>
           vbind (push (SVal (VInt 0))) (\<lambda>_.
           rte (vm_msg ''variable is not an array'') here op))"

definition op_set_array_length :: "nat \<Rightarrow> u8 \<Rightarrow> ('h, vm_step) action" where
  "op_set_array_length here op =
     vbind pop_value (\<lambda>arr.
     vbind pop_value (\<lambda>nv.
     vbind (vread (\<lambda>s. is_array_value (vm_heap s) arr)) (\<lambda>x.
       let n = sint (as_int nv) in
       vbind
         (case x of
            Some a \<Rightarrow>
              if n < 0 then vret False
              else vbind (on_heap (\<lambda>h. Some (obj_resize a (nat n) False h))) (\<lambda>r.
                vret (case r of Inr _ \<Rightarrow> True | Inl _ \<Rightarrow> False))
          | None \<Rightarrow> vret False) (\<lambda>ok.
       vbind (push (SVal nv)) (\<lambda>_.
       if ok then vret Continue else rte (vm_msg ''variable is not an array'') here op)))))"

section \<open>Calls\<close>

definition op_call :: "('h, vm_step) action" where
  "op_call =
     vbind fetch_u32 (\<lambda>sc.
     vbind cur_frame (\<lambda>f.
     continue_with (push_frame (fr_file f) (unat sc))))"

definition op_call_include :: "('h, vm_step) action" where
  "op_call_include =
     vbind fetch_u32 (\<lambda>sc.
     vbind fetch_u32 (\<lambda>link.
     vbind cur_frame (\<lambda>f.
     vbind (vread vm_prog) (\<lambda>p.
     vbind (ok_or (BadFileIndex (fr_file f)) (resolved_links (fr_file f) p)) (\<lambda>links.
     vbind (ok_or (BadFileIndex (unat link)) (get links (unat link))) (\<lambda>file.
     continue_with (push_frame file (unat sc))))))))"

primrec pop_args :: "nat \<Rightarrow> ('h, script_value list) action" where
  "pop_args 0 = vret []"
| "pop_args (Suc n) = vbind pop_value (\<lambda>v. vbind (pop_args n) (\<lambda>vs. vret (v # vs)))"

definition trigger_state :: "script_value list \<Rightarrow> script \<Rightarrow> i32" where
  "trigger_state args sc =
     (case (case args of v # _ \<Rightarrow> as_string v | [] \<Rightarrow> Inr []) of
        Inl _ \<Rightarrow> - 1
      | Inr name \<Rightarrow>
          (case find_trigger name sc of
             Some i \<Rightarrow> if is_trigger_enabled (of_nat i) sc then 1 else 0
           | None \<Rightarrow> - 1))"

definition call_trigger_util :: "builtin_decl \<Rightarrow> script_value list \<Rightarrow> ('h, script_value option) action" where
  "call_trigger_util decl args =
     vbind (vread vm_frames) (\<lambda>fs.
     if fs = [] then vret None
     else
       let file = fr_file (last fs); sc = fr_script (last fs) in
       vbind (script_at file sc) (\<lambda>x.
       if bd_index decl = 15 then
         vbind (upd_prog (upd_script file sc (enable_all_triggers True))) (\<lambda>_. vret (Some VNull))
       else if bd_index decl = 16 then
         vbind (upd_prog (upd_script file sc (enable_all_triggers False))) (\<lambda>_. vret (Some VNull))
       else if bd_index decl = 17 then vret (Some (VInt (trigger_state args x)))
       else vret None))"

definition record_call :: "(coverage \<Rightarrow> coverage) \<Rightarrow> ('h, unit) action" where
  "record_call g = vmod (\<lambda>s. s\<lparr>vm_coverage := g (vm_coverage s)\<rparr>)"

definition host_call :: "'h host_fun \<Rightarrow> builtin_decl \<Rightarrow> script_value list \<Rightarrow>
    ('h, (script_value, host_error) result) action" where
  "host_call hf decl args s =
     (case hf decl args (vm_host s) (vm_heap s) of
        (r, host, h) \<Rightarrow> Some (Inr r, s\<lparr>vm_host := host, vm_heap := h\<rparr>))"

definition push_return :: "builtin_decl \<Rightarrow> script_value \<Rightarrow> ('h, unit) action" where
  "push_return decl v = (if bd_ret decl \<noteq> TyVoid then push (SVal v) else vret ())"

definition call_builtin :: "'h host_fun \<Rightarrow> builtin_decl \<Rightarrow> nat \<Rightarrow> ('h, unit) action" where
  "call_builtin hf decl argc =
     vbind (pop_args argc) (\<lambda>args.
     vbind (call_trigger_util decl args) (\<lambda>t.
       case t of
         Some v \<Rightarrow>
           vbind (record_call (record_implemented (bd_index decl))) (\<lambda>_. push_return decl v)
       | None \<Rightarrow>
           vbind (host_call hf decl args) (\<lambda>r.
             case r of
               Inr v \<Rightarrow>
                 vbind (record_call (record_implemented (bd_index decl))) (\<lambda>_. push_return decl v)
             | Inl HostUnimplemented \<Rightarrow>
                 vbind (record_call (record_unimplemented (bd_index decl) (bd_name decl))) (\<lambda>_.
                 vbind (vread vm_missing_builtin_policy) (\<lambda>policy.
                   case policy of
                     FailPolicy \<Rightarrow> vfail (UnimplementedBuiltin (bd_index decl) (bd_name decl))
                   | SurveyPolicy \<Rightarrow> push_return decl (survey_err_return (bd_ret decl))))
             | Inl (HostBadArgs reason) \<Rightarrow> vfail (HostRejected (bd_index decl) (bd_name decl) reason))))"

definition op_call_game :: "'h host_fun \<Rightarrow> ('h, vm_step) action" where
  "op_call_game hf =
     vbind fetch_u32 (\<lambda>idx.
     vbind (ok_or (BadBuiltinIndex idx) (builtin idx)) (\<lambda>decl.
     continue_with (call_builtin hf decl (unat (bd_arity decl)))))"

definition op_call_game_varied :: "'h host_fun \<Rightarrow> ('h, vm_step) action" where
  "op_call_game_varied hf =
     vbind fetch_u32 (\<lambda>idx.
     vbind fetch_u32 (\<lambda>argc.
     vbind (ok_or (BadBuiltinIndex idx) (builtin idx)) (\<lambda>decl.
     continue_with (call_builtin hf decl (unat argc)))))"

definition op_return :: "('h, vm_step) action" where
  "op_return =
     vbind cur_frame (\<lambda>f.
     vbind
       (if fr_void_return f then vret ()
        else
          vbind peek_value (\<lambda>v0.
          vbind (dup v0) (\<lambda>v.
          vmod (\<lambda>s. s\<lparr>vm_stack := SVal v # tl (vm_stack s)\<rparr>)))) (\<lambda>_.
     close_frame))"

section \<open>Jumps\<close>

definition jump_or_skip :: "bool \<Rightarrow> ('h, unit) action" where
  "jump_or_skip taken =
     vbind bip (\<lambda>at.
     if taken then vbind (peek_u32 at) (\<lambda>t. set_bip (unat t)) else set_bip (at + 4))"

definition op_jump :: "('h, vm_step) action" where
  "op_jump = vbind fetch_u32 (\<lambda>t. continue_with (set_bip (unat t)))"

definition op_jump_if :: "(script_value \<Rightarrow> bool) \<Rightarrow> ('h, vm_step) action" where
  "op_jump_if test = vbind pop_value (\<lambda>v. continue_with (jump_or_skip (test v)))"

definition op_jump_if_sc :: "(script_value \<Rightarrow> bool) \<Rightarrow> ('h, vm_step) action" where
  "op_jump_if_sc test =
     vbind pop (\<lambda>x.
     vbind (deref x) (\<lambda>v.
     vbind (if test v then push x else vret ()) (\<lambda>_.
     continue_with (jump_or_skip (test v)))))"

definition op_case :: "platform \<Rightarrow> nat \<Rightarrow> u8 \<Rightarrow> ('h, vm_step) action" where
  "op_case pf here op =
     vbind fetch_u32 (\<lambda>raw.
     vbind cur_frame (\<lambda>f.
     vbind (file_at (fr_file f)) (\<lambda>file.
       let ci = raw AND 0xdfffffff in
       vbind (ok_or (BadVarRef (RefConst ci)) (get (sf_const_pool file) (unat ci))) (\<lambda>k.
       vbind peek_value (\<lambda>subject.
       vbind (operator pf subject OP_EQ_OP (Some k)) (\<lambda>r.
       with_result r here op (\<lambda>eq.
         vbind (jump_or_skip (is_true eq)) (\<lambda>_.
         if is_true eq then vbind pop (\<lambda>_. vret ()) else vret ()))))))))"

definition op_jump_if_inited :: "('h, vm_step) action" where
  "op_jump_if_inited =
     vbind fetch_u32 (\<lambda>raw.
     vbind cur_script (\<lambda>sc.
     continue_with (jump_or_skip
       (case get (sc_statics sc) (unat (raw AND 0xbfffffff)) of Some v \<Rightarrow> v \<noteq> None | None \<Rightarrow> False))))"

definition op_trigger :: "(i32 \<Rightarrow> script \<Rightarrow> script) \<Rightarrow> ('h, vm_step) action" where
  "op_trigger g =
     vbind fetch_u32 (\<lambda>i.
     vbind cur_frame (\<lambda>f.
     vbind (script_at (fr_file f) (fr_script f)) (\<lambda>_.
     continue_with (upd_prog (upd_script (fr_file f) (fr_script f) (g i))))))"

definition op_jump_if_bitset :: "('h, vm_step) action" where
  "op_jump_if_bitset =
     vbind fetch_u32 (\<lambda>i.
     vbind cur_script (\<lambda>sc.
     continue_with (jump_or_skip (\<not> is_trigger_enabled i sc))))"

definition op_script_marker :: "('h, vm_step) action" where
  "op_script_marker = vbind fetch_u32 (\<lambda>_. vret Continue)"

section \<open>Dispatch\<close>

definition is_assign_op :: "u8 \<Rightarrow> bool" where
  "is_assign_op op \<longleftrightarrow> op \<in> {0x00, 0x03, 0x0c, 0x0d, 0x0e} \<or> 0x18 \<le> op \<and> op \<le> 0x1e"

definition is_binary_op :: "u8 \<Rightarrow> bool" where
  "is_binary_op op \<longleftrightarrow>
     op \<in> {0x01, 0x02, 0x0a, 0x0b, 0x17} \<or> 0x04 \<le> op \<and> op \<le> 0x08 \<or> 0x0f \<le> op \<and> op \<le> 0x11 \<or>
     0x1f \<le> op \<and> op \<le> 0x24"

definition exec_op :: "platform \<Rightarrow> 'h host_fun \<Rightarrow> nat \<Rightarrow> u8 \<Rightarrow> ('h, vm_step) action" where
  "exec_op pf hf here op =
     (if op = 0x26 then op_push
      else if op = 0x27 then op_pop
      else if is_assign_op op then op_assign pf here op
      else if is_binary_op op then op_binary pf here op
      else if op = 0x09 \<or> op = 0x16 \<or> op = 0x25 then op_unary pf here op
      else if op = 0x12 \<or> op = 0x13 then op_pre_step pf here op
      else if op = 0x14 \<or> op = 0x15 then op_post_step pf here op
      else if op = 0x32 then op_init_copy
      else if op = 0x33 then op_init
      else if op = 0x35 then op_cast_bool
      else if op = 0x34 then op_cast
      else if op = 0x28 then op_create_simple
      else if op = 0x29 then op_create_array
      else if op = 0x2a then op_create_array_dyn here op
      else if op = 0x2b then op_create_array_initer here op
      else if op = 0x2c then op_create_struct
      else if op = 0x2d then op_push_array_index here op
      else if op = 0x2e then op_create_array_index here op
      else if op = 0x2f then op_push_struct_field here op
      else if op = 0x30 then op_push_array_length here op
      else if op = 0x31 then op_set_array_length here op
      else if op = 0x36 then op_call
      else if op = 0x37 then op_call_include
      else if op = 0x38 then op_call_game hf
      else if op = 0x39 then op_call_game_varied hf
      else if op = 0x3e then op_return
      else if op = 0x3f then op_jump
      else if op = 0x40 then op_jump_if is_true
      else if op = 0x41 then op_jump_if is_false
      else if op = 0x42 then op_jump_if_sc is_true
      else if op = 0x43 then op_jump_if_sc is_false
      else if op = 0x3a then op_case pf here op
      else if op = 0x44 then op_jump_if_inited
      else if op = 0x3c then op_trigger trigger_bit_clear
      else if op = 0x3d then op_trigger trigger_bit_set
      else if op = 0x45 then op_jump_if_bitset
      else if op = 0x46 then vret Continue
      else if op = 0x47 then op_script_marker
      else if op = 0x3b then vfail (Unimplemented ''OP_BREAK (debugger breakpoint)'')
      else vfail (Unimplemented (case opcode_decode op of Some d \<Rightarrow> od_name d | None \<Rightarrow> ''?'')))"

definition step :: "platform \<Rightarrow> 'h host_fun \<Rightarrow> ('h, vm_step) action" where
  "step pf hf =
     vbind bip (\<lambda>here.
     vbind fetch_u8 (\<lambda>op.
     if OP_ERROR_TOKEN \<le> op then vfail (BadOpcode op) else exec_op pf hf here op))"

section \<open>Runs\<close>

partial_function (option) run_loop ::
    "platform \<times> 'h host_fun \<Rightarrow> u64 \<Rightarrow> 'h vm \<Rightarrow> ((runtime_error option, vm_fail) result \<times> 'h vm) option" where
  "run_loop env before0 s =
     (if vm_frames s = [] then Some (Inr None, s)
      else if vm_budget s < vm_bytecodes_executed s - before0 then vfail BudgetExhausted s
      else
        (case step (fst env) (snd env) s of
           None \<Rightarrow> None
         | Some r \<Rightarrow>
             (case fst r of
                Inl e \<Rightarrow> Some (Inl e, snd r)
              | Inr Continue \<Rightarrow>
                  run_loop env before0 ((snd r)\<lparr>vm_bytecodes_executed := vm_bytecodes_executed (snd r) + 1\<rparr>)
              | Inr (Abort e) \<Rightarrow> Some (Inr (Some e), (snd r)\<lparr>vm_frames := []\<rparr>))))"

declare run_loop.simps [code]

definition run_script_slots :: "platform \<Rightarrow> 'h host_fun \<Rightarrow> nat \<Rightarrow> nat \<Rightarrow> slot list \<Rightarrow> ('h, run_outcome) action" where
  "run_script_slots pf hf file sc args =
     vbind (vread vm_bytecodes_executed) (\<lambda>before0.
     vbind (vmod (\<lambda>s. s\<lparr>vm_returned := None, vm_stack := args @ vm_stack s\<rparr>)) (\<lambda>_.
     vbind (push_frame file sc) (\<lambda>_.
     vbind (run_loop (pf, hf) before0) (\<lambda>e.
     vbind (vread (\<lambda>s. \<lparr>ro_returned = vm_returned s,
       ro_bytecodes_executed = vm_bytecodes_executed s - before0, ro_err_count = vm_err_count s,
       ro_error = e\<rparr>)) (\<lambda>out.
     vbind (vmod (\<lambda>s. s\<lparr>vm_returned := None\<rparr>)) (\<lambda>_.
     vret out))))))"

definition run_script_index :: "platform \<Rightarrow> 'h host_fun \<Rightarrow> nat \<Rightarrow> nat \<Rightarrow> script_value list \<Rightarrow> ('h, run_outcome) action" where
  "run_script_index pf hf file sc args = run_script_slots pf hf file sc (map SVal args)"

definition run_script :: "platform \<Rightarrow> 'h host_fun \<Rightarrow> nat \<Rightarrow> rust_string \<Rightarrow> ('h, run_outcome) action" where
  "run_script pf hf file name =
     vbind (vread vm_prog) (\<lambda>p.
     vbind (ok_or (BadFileIndex file) (get (pg_files p) file)) (\<lambda>f.
     vbind (ok_or (BadScriptIndex USIZE_MAX) (file_find_script name f)) (\<lambda>idx.
     run_script_index pf hf file idx [])))"

text \<open>The arguments come back as the cells hold them after the run.\<close>

definition run_script_index_mut :: "platform \<Rightarrow> 'h host_fun \<Rightarrow> nat \<Rightarrow> nat \<Rightarrow> script_value list \<Rightarrow>
    ('h, run_outcome \<times> script_value list) action" where
  "run_script_index_mut pf hf file sc args =
     vbind (vread vm_prog) (\<lambda>p.
     vbind (ok_or (BadScriptIndex sc) (Option.bind (get (pg_files p) file) (\<lambda>f. get (sf_scripts f) sc))) (\<lambda>_.
     vbind (on_heap (\<lambda>h. Some (alloc_cells args h))) (\<lambda>cs.
     vbind (run_script_slots pf hf file sc (map SCell cs)) (\<lambda>out.
     vbind (vread (\<lambda>s. map (cell_at (vm_heap s)) cs)) (\<lambda>args'.
     vret (out, args'))))))"

end
