(* ===== verification/Script_Heap.thy ===== *)
theory Script_Heap
  imports Script_VM
begin

text \<open>
  The heap of script aggregates: addresses stay valid under every operation, a heap only grows, and a
  deep copy has the contents of its source and nothing in common with it. Copying returns exactly on
  values whose aggregates form no cycle.
\<close>

section \<open>Valid addresses\<close>

definition value_ok :: "heap \<Rightarrow> script_value \<Rightarrow> bool" where
  "value_ok h v \<longleftrightarrow> (\<forall>a. v = VObj a \<longrightarrow> a < length (h_objs h))"

definition obj_ok :: "heap \<Rightarrow> obj \<Rightarrow> bool" where
  "obj_ok h x \<longleftrightarrow>
     (\<forall>c\<in>set (ob_values x). c < length (h_cells h)) \<and> (\<forall>v. ob_blank_base x = Some v \<longrightarrow> value_ok h v)"

definition heap_wf :: "heap \<Rightarrow> bool" where
  "heap_wf h \<longleftrightarrow> (\<forall>v\<in>set (h_cells h). value_ok h v) \<and> (\<forall>x\<in>set (h_objs h). obj_ok h x)"

definition heap_le :: "heap \<Rightarrow> heap \<Rightarrow> bool" where
  "heap_le h h' \<longleftrightarrow> length (h_cells h) \<le> length (h_cells h') \<and> length (h_objs h) \<le> length (h_objs h')"

lemma heap_le_refl [simp, intro]: "heap_le h h"
  by (simp add: heap_le_def)

lemma heap_le_trans: "heap_le h h' \<Longrightarrow> heap_le h' h'' \<Longrightarrow> heap_le h h''"
  by (auto simp: heap_le_def)

lemma value_ok_mono: "value_ok h v \<Longrightarrow> heap_le h h' \<Longrightarrow> value_ok h' v"
  by (auto simp: value_ok_def heap_le_def)

lemma obj_ok_mono: "obj_ok h x \<Longrightarrow> heap_le h h' \<Longrightarrow> obj_ok h' x"
  unfolding obj_ok_def by (metis heap_le_def order_less_le_trans value_ok_mono)

lemma heap_wf_grow:
  "heap_wf h \<Longrightarrow> heap_le h h' \<Longrightarrow> (\<And>v. v \<in> set (h_cells h') \<Longrightarrow> v \<in> set (h_cells h) \<or> value_ok h' v) \<Longrightarrow>
   (\<And>x. x \<in> set (h_objs h') \<Longrightarrow> x \<in> set (h_objs h) \<or> obj_ok h' x) \<Longrightarrow> heap_wf h'"
  unfolding heap_wf_def by (metis obj_ok_mono value_ok_mono)

lemma value_ok_scalar [simp]:
  "value_ok h (VInt i)" "value_ok h (VReal f)" "value_ok h (VStr x)" "value_ok h VNull"
  "value_ok h (VObj a) \<longleftrightarrow> a < length (h_objs h)"
  by (simp_all add: value_ok_def)

lemma cell_ok: "heap_wf h \<Longrightarrow> c < length (h_cells h) \<Longrightarrow> value_ok h (cell_at h c)"
  by (simp add: heap_wf_def cell_at_def)

lemma obj_at_ok: "heap_wf h \<Longrightarrow> a < length (h_objs h) \<Longrightarrow> obj_ok h (obj_at h a)"
  by (simp add: heap_wf_def obj_at_def)

lemma heap_wf_cell:
  assumes "heap_wf h" "value_ok h v" "alloc_cell v h = (c, h')"
  shows "heap_wf h' \<and> heap_le h h' \<and> c < length (h_cells h')"
proof -
  have "heap_le h h'" using assms(3) by (auto simp: alloc_cell_def heap_le_def)
  moreover have "heap_wf h'"
    using assms(2,3) calculation value_ok_mono
    by (intro heap_wf_grow [OF assms(1) calculation]) (auto simp: alloc_cell_def)
  ultimately show ?thesis using assms(3) by (auto simp: alloc_cell_def)
qed

lemma heap_wf_obj:
  assumes "heap_wf h" "obj_ok h x" "alloc_obj x h = (a, h')"
  shows "heap_wf h' \<and> heap_le h h' \<and> value_ok h' (VObj a)"
proof -
  have "heap_le h h'" using assms(3) by (auto simp: alloc_obj_def heap_le_def)
  moreover have "heap_wf h'"
    using assms(2,3) calculation obj_ok_mono
    by (intro heap_wf_grow [OF assms(1) calculation]) (auto simp: alloc_obj_def)
  ultimately show ?thesis using assms(3) by (auto simp: alloc_obj_def)
qed

lemma heap_wf_set_cell:
  assumes "heap_wf h" "value_ok h v"
  shows "heap_wf (set_cell c v h) \<and> heap_le h (set_cell c v h)"
proof -
  have le: "heap_le h (set_cell c v h)" by (simp add: set_cell_def heap_le_def)
  have "value_ok (set_cell c v h) v" using assms(2) le by (rule value_ok_mono)
  then show ?thesis
    using le set_update_subset_insert [of "h_cells h" c v]
    by (intro conjI heap_wf_grow [OF assms(1) le]) (auto simp: set_cell_def)
qed

lemma heap_wf_set_obj:
  assumes "heap_wf h" "obj_ok h x"
  shows "heap_wf (set_obj a x h) \<and> heap_le h (set_obj a x h)"
proof -
  have le: "heap_le h (set_obj a x h)" by (simp add: set_obj_def heap_le_def)
  have "obj_ok (set_obj a x h) x" using assms(2) le by (rule obj_ok_mono)
  then show ?thesis
    using le set_update_subset_insert [of "h_objs h" a x]
    by (intro conjI heap_wf_grow [OF assms(1) le]) (auto simp: set_obj_def)
qed

lemma heap_wf_cells:
  "heap_wf h \<Longrightarrow> list_all (value_ok h) vs \<Longrightarrow> alloc_cells vs h = (cs, h') \<Longrightarrow>
   heap_wf h' \<and> heap_le h h' \<and> (\<forall>c\<in>set cs. c < length (h_cells h'))"
proof (induction vs arbitrary: h cs h')
  case (Cons v vs)
  obtain c h1 where 1: "alloc_cell v h = (c, h1)" by fastforce
  obtain cs' h2 where 2: "alloc_cells vs h1 = (cs', h2)" by fastforce
  have c: "heap_wf h1" "heap_le h h1" "c < length (h_cells h1)"
    using heap_wf_cell [OF Cons.prems(1) _ 1] Cons.prems(2) by auto
  moreover have "list_all (value_ok h1) vs"
    using Cons.prems(2) c(2) value_ok_mono by (auto simp: list_all_iff)
  ultimately have "heap_wf h2 \<and> heap_le h1 h2 \<and> (\<forall>c\<in>set cs'. c < length (h_cells h2))"
    using Cons.IH 2 by blast
  then show ?case
    using Cons.prems(3) 1 2 c by (auto simp: heap_le_def)
qed simp

lemma heap_wf_new_obj:
  assumes "heap_wf h" "list_all (value_ok h) vs" "\<And>v. b = Some v \<Longrightarrow> value_ok h v"
    "alloc_cells vs h = (cs, h1)"
    "alloc_obj \<lparr>ob_data_type = t, ob_values = cs, ob_blank_base = b, ob_is_array = f\<rparr> h1 = (a, h2)"
  shows "heap_wf h2 \<and> heap_le h h2 \<and> value_ok h2 (VObj a)"
proof -
  have 1: "heap_wf h1" "heap_le h h1" "\<forall>c\<in>set cs. c < length (h_cells h1)"
    using heap_wf_cells [OF assms(1,2,4)] by auto
  then have "obj_ok h1 \<lparr>ob_data_type = t, ob_values = cs, ob_blank_base = b, ob_is_array = f\<rparr>"
    using assms(3) value_ok_mono by (auto simp: obj_ok_def)
  then show ?thesis using heap_wf_obj [OF 1(1) _ assms(5)] 1(2) heap_le_trans by blast
qed

lemma value_array_ok:
  "heap_wf h \<Longrightarrow> value_ok h base \<Longrightarrow> value_array t base n h = (v, h') \<Longrightarrow> heap_wf h' \<and> heap_le h h' \<and> value_ok h' v"
  using heap_wf_new_obj [of h "replicate n base" "Some base"]
  by (auto simp: value_array_def list_all_iff split: prod.splits)

lemma value_strukt_ok:
  "heap_wf h \<Longrightarrow> list_all (value_ok h) vs \<Longrightarrow> value_strukt t vs h = (v, h') \<Longrightarrow>
   heap_wf h' \<and> heap_le h h' \<and> value_ok h' v"
  using heap_wf_new_obj [of h vs None] by (auto simp: value_strukt_def split: prod.splits)

lemma initialised_array_ok:
  "heap_wf h \<Longrightarrow> value_ok h base \<Longrightarrow> list_all (value_ok h) vs \<Longrightarrow> initialised_array t base vs h = (v, h') \<Longrightarrow>
   heap_wf h' \<and> heap_le h h' \<and> value_ok h' v"
  using heap_wf_new_obj [of h vs "Some base"] by (auto simp: initialised_array_def split: prod.splits)

section \<open>Copies as a relation\<close>

text \<open>
  Copying a list of cells as a big-step relation, with a function on the scalars: the identity for
  \<^verbatim>\<open>duplicate\<close>, the zero of the same type for \<^verbatim>\<open>zero_like\<close>.
\<close>

definition is_obj :: "script_value \<Rightarrow> bool" where "is_obj v \<longleftrightarrow> (\<exists>a. v = VObj a)"

lemma is_obj_simps [simp]:
  "is_obj (VObj a)" "\<not> is_obj (VInt i)" "\<not> is_obj (VReal f)" "\<not> is_obj (VStr x)" "\<not> is_obj VNull"
  by (simp_all add: is_obj_def)

inductive copy_run ::
    "(script_value \<Rightarrow> script_value) \<Rightarrow> heap \<Rightarrow> nat list \<Rightarrow> nat list \<Rightarrow> heap \<Rightarrow> bool"
  for g :: "script_value \<Rightarrow> script_value" where
  copy_Nil: "copy_run g h [] [] h"
| copy_scalar:
    "\<not> is_obj (cell_at h c) \<Longrightarrow> alloc_cell (g (cell_at h c)) h = (c', h1) \<Longrightarrow> copy_run g h1 cs cs' h2 \<Longrightarrow>
     copy_run g h (c # cs) (c' # cs') h2"
| copy_obj:
    "cell_at h c = VObj a \<Longrightarrow> copy_run g h (ob_values (obj_at h a)) vs h1 \<Longrightarrow>
     alloc_obj ((obj_at h a)\<lparr>ob_values := vs\<rparr>) h1 = (a', h2) \<Longrightarrow> alloc_cell (VObj a') h2 = (c', h3) \<Longrightarrow>
     copy_run g h3 cs cs' h4 \<Longrightarrow> copy_run g h (c # cs) (c' # cs') h4"

lemma dup_cells_complete: "copy_run id h cs cs' h' \<Longrightarrow> dup_cells h cs = Some (cs', h')"
proof (induction rule: copy_run.induct)
  case (copy_Nil h)
  show ?case by (simp add: dup_cells.simps)
next
  case (copy_scalar h c c' h1 cs cs' h2)
  then show ?case by (subst dup_cells.simps) (auto simp: is_obj_def split: script_value.splits)
next
  case (copy_obj h c a vs h1 a' h2 c' h3 cs cs' h4)
  then show ?case by (subst dup_cells.simps) simp
qed

lemma zero_cells_complete: "copy_run zero_scalar h cs cs' h' \<Longrightarrow> zero_cells h cs = Some (cs', h')"
proof (induction rule: copy_run.induct)
  case (copy_Nil h)
  show ?case by (simp add: zero_cells.simps)
next
  case (copy_scalar h c c' h1 cs cs' h2)
  then show ?case by (subst zero_cells.simps) (auto simp: is_obj_def split: script_value.splits)
next
  case (copy_obj h c a vs h1 a' h2 c' h3 cs cs' h4)
  then show ?case by (subst zero_cells.simps) simp
qed

lemma dup_cells_sound: "dup_cells h cs = Some r \<Longrightarrow> copy_run id h cs (fst r) (snd r)"
  apply (erule dup_cells.raw_induct [rotated])
  subgoal premises prems for dup h cs r
  proof (cases cs)
    case (Cons c cs')
    show ?thesis
    proof (cases "is_obj (cell_at h c)")
      case True
      then obtain a where v: "cell_at h c = VObj a" by (auto simp: is_obj_def)
      obtain q where q: "dup h (ob_values (obj_at h a)) = Some q"
        using prems(2) Cons v by (auto split: bind_splits)
      obtain a' h2 where a: "alloc_obj ((obj_at h a)\<lparr>ob_values := fst q\<rparr>) (snd q) = (a', h2)" by fastforce
      obtain c' h3 where c: "alloc_cell (VObj a') h2 = (c', h3)" by fastforce
      obtain q' where q': "dup h3 cs' = Some q'" "r = (c' # fst q', snd q')"
        using prems(2) Cons v q a c by (auto split: bind_splits)
      show ?thesis using copy_obj [OF v prems(1) [OF q] a c prems(1) [OF q'(1)]] q'(2) Cons by simp
    next
      case False
      obtain c' h1 where c: "alloc_cell (id (cell_at h c)) h = (c', h1)" by fastforce
      obtain q where q: "dup h1 cs' = Some q" "r = (c' # fst q, snd q)"
        using prems(2) Cons False c
        by (cases "cell_at h c") (auto simp: Let_def zero_scalar_def split: bind_splits)
      show ?thesis using copy_scalar [where g = id, OF False c prems(1) [OF q(1)]] q(2) Cons by (simp add: id_def)
    qed
  qed (use prems(2) in \<open>auto intro: copy_Nil\<close>)
  done

lemma zero_cells_sound: "zero_cells h cs = Some r \<Longrightarrow> copy_run zero_scalar h cs (fst r) (snd r)"
  apply (erule zero_cells.raw_induct [rotated])
  subgoal premises prems for dup h cs r
  proof (cases cs)
    case (Cons c cs')
    show ?thesis
    proof (cases "is_obj (cell_at h c)")
      case True
      then obtain a where v: "cell_at h c = VObj a" by (auto simp: is_obj_def)
      obtain q where q: "dup h (ob_values (obj_at h a)) = Some q"
        using prems(2) Cons v by (auto split: bind_splits)
      obtain a' h2 where a: "alloc_obj ((obj_at h a)\<lparr>ob_values := fst q\<rparr>) (snd q) = (a', h2)" by fastforce
      obtain c' h3 where c: "alloc_cell (VObj a') h2 = (c', h3)" by fastforce
      obtain q' where q': "dup h3 cs' = Some q'" "r = (c' # fst q', snd q')"
        using prems(2) Cons v q a c by (auto split: bind_splits)
      show ?thesis using copy_obj [OF v prems(1) [OF q] a c prems(1) [OF q'(1)]] q'(2) Cons by simp
    next
      case False
      obtain c' h1 where c: "alloc_cell (zero_scalar (cell_at h c)) h = (c', h1)" by fastforce
      obtain q where q: "dup h1 cs' = Some q" "r = (c' # fst q, snd q)"
        using prems(2) Cons False c
        by (cases "cell_at h c") (auto simp: Let_def zero_scalar_def split: bind_splits)
      show ?thesis using copy_scalar [where g = zero_scalar, OF False c prems(1) [OF q(1)]] q(2) Cons by simp
    qed
  qed (use prems(2) in \<open>auto intro: copy_Nil\<close>)
  done

section \<open>A copy is new and complete\<close>

definition heap_extends :: "heap \<Rightarrow> heap \<Rightarrow> bool" where
  "heap_extends h h' \<longleftrightarrow> (\<exists>cs xs. h_cells h' = h_cells h @ cs \<and> h_objs h' = h_objs h @ xs)"

text \<open>What was added between two heaps refers to nothing that was there before.\<close>

definition closed_growth :: "heap \<Rightarrow> heap \<Rightarrow> bool" where
  "closed_growth h h' \<longleftrightarrow>
     (\<forall>c a. length (h_cells h) \<le> c \<longrightarrow> c < length (h_cells h') \<longrightarrow> cell_at h' c = VObj a \<longrightarrow> length (h_objs h) \<le> a) \<and>
     (\<forall>a. length (h_objs h) \<le> a \<longrightarrow> a < length (h_objs h') \<longrightarrow>
        (\<forall>c\<in>set (ob_values (obj_at h' a)). length (h_cells h) \<le> c))"

inductive copy_of :: "(script_value \<Rightarrow> script_value) \<Rightarrow> heap \<Rightarrow> script_value \<Rightarrow> script_value \<Rightarrow> bool"
  for g :: "script_value \<Rightarrow> script_value" and h :: heap where
  copy_of_scalar: "\<not> is_obj v \<Longrightarrow> copy_of g h v (g v)"
| copy_of_obj:
    "obj_at h a' = (obj_at h a)\<lparr>ob_values := vs\<rparr> \<Longrightarrow> length vs = length (ob_values (obj_at h a)) \<Longrightarrow>
     (\<And>i. i < length vs \<Longrightarrow> copy_of g h (cell_at h (ob_values (obj_at h a) ! i)) (cell_at h (vs ! i))) \<Longrightarrow>
     copy_of g h (VObj a) (VObj a')"

lemma heap_extends_refl [simp]: "heap_extends h h"
  by (simp add: heap_extends_def)

lemma heap_extends_trans: "heap_extends h h' \<Longrightarrow> heap_extends h' h'' \<Longrightarrow> heap_extends h h''"
  by (auto simp: heap_extends_def)

lemma heap_extends_le: "heap_extends h h' \<Longrightarrow> heap_le h h'"
  by (auto simp: heap_extends_def heap_le_def)

lemma heap_extends_cell: "heap_extends h h' \<Longrightarrow> c < length (h_cells h) \<Longrightarrow> cell_at h' c = cell_at h c"
  by (auto simp: heap_extends_def cell_at_def nth_append)

lemma heap_extends_obj: "heap_extends h h' \<Longrightarrow> a < length (h_objs h) \<Longrightarrow> obj_at h' a = obj_at h a"
  by (auto simp: heap_extends_def obj_at_def nth_append)

lemma alloc_cell_ext:
  "alloc_cell v h = (c, h') \<Longrightarrow> heap_extends h h' \<and> c = length (h_cells h) \<and> cell_at h' c = v \<and>
   length (h_cells h') = Suc (length (h_cells h)) \<and> h_objs h' = h_objs h"
  by (auto simp: alloc_cell_def heap_extends_def cell_at_def)

lemma alloc_obj_ext:
  "alloc_obj x h = (a, h') \<Longrightarrow> heap_extends h h' \<and> a = length (h_objs h) \<and> obj_at h' a = x \<and>
   length (h_objs h') = Suc (length (h_objs h)) \<and> h_cells h' = h_cells h"
  by (auto simp: alloc_obj_def heap_extends_def obj_at_def)

lemma closed_growth_refl [simp]: "closed_growth h h"
  by (simp add: closed_growth_def)

lemma closed_growth_trans:
  assumes "closed_growth h h'" "closed_growth h' h''" "heap_extends h h'" "heap_extends h' h''"
  shows "closed_growth h h''"
proof -
  have le: "length (h_cells h) \<le> length (h_cells h')" "length (h_objs h) \<le> length (h_objs h')"
    using assms(3) by (auto simp: heap_extends_def)
  show ?thesis
    unfolding closed_growth_def
  proof (intro conjI allI impI ballI)
    fix c a assume c: "length (h_cells h) \<le> c" "c < length (h_cells h'')" "cell_at h'' c = VObj a"
    show "length (h_objs h) \<le> a"
    proof (cases "c < length (h_cells h')")
      case True
      then show ?thesis using assms(1) c heap_extends_cell [OF assms(4) True] by (auto simp: closed_growth_def)
    next
      case False
      then show ?thesis using assms(2) c le by (auto simp: closed_growth_def) (meson le_trans not_le)
    qed
  next
    fix a c assume a: "length (h_objs h) \<le> a" "a < length (h_objs h'')" "c \<in> set (ob_values (obj_at h'' a))"
    show "length (h_cells h) \<le> c"
    proof (cases "a < length (h_objs h')")
      case True
      then show ?thesis using assms(1) a heap_extends_obj [OF assms(4) True] by (auto simp: closed_growth_def)
    next
      case False
      then show ?thesis using assms(2) a le by (auto simp: closed_growth_def) (meson le_trans not_le)
    qed
  qed
qed

lemma copy_of_ext:
  "copy_of g h v v' \<Longrightarrow> heap_wf h \<Longrightarrow> heap_extends h h' \<Longrightarrow> value_ok h v \<Longrightarrow> value_ok h v' \<Longrightarrow> copy_of g h' v v'"
proof (induction rule: copy_of.induct)
  case (copy_of_obj a' vs a)
  have ok: "obj_ok h (obj_at h a)" "obj_ok h (obj_at h a')"
    using copy_of_obj.prems obj_at_ok by auto
  then have cells: "\<forall>c\<in>set (ob_values (obj_at h a)). c < length (h_cells h)" "\<forall>c\<in>set vs. c < length (h_cells h)"
    using copy_of_obj.hyps(1) by (auto simp: obj_ok_def)
  show ?case
  proof (rule copy_of.copy_of_obj)
    show "obj_at h' a' = (obj_at h' a)\<lparr>ob_values := vs\<rparr>" "length vs = length (ob_values (obj_at h' a))"
      using copy_of_obj.prems copy_of_obj.hyps(1,2) heap_extends_obj by auto
    fix i assume i: "i < length vs"
    then have c: "ob_values (obj_at h a) ! i < length (h_cells h)" "vs ! i < length (h_cells h)"
      using cells copy_of_obj.hyps(2) by auto
    then have "copy_of g h' (cell_at h (ob_values (obj_at h a) ! i)) (cell_at h (vs ! i))"
      using copy_of_obj.prems cell_ok i by (intro copy_of_obj.IH) auto
    then show "copy_of g h' (cell_at h' (ob_values (obj_at h' a) ! i)) (cell_at h' (vs ! i))"
      using c copy_of_obj.prems heap_extends_obj [of h h' a] heap_extends_cell [of h h'] by auto
  qed
qed (rule copy_of.copy_of_scalar)

lemma closed_growth_cell:
  assumes "closed_growth h h1" "heap_extends h h1" "alloc_cell v h1 = (c, h2)" "\<And>a. v = VObj a \<Longrightarrow> length (h_objs h) \<le> a"
  shows "closed_growth h h2"
proof -
  note c = alloc_cell_ext [OF assms(3)]
  have old: "k < length (h_cells h1) \<Longrightarrow> cell_at h2 k = cell_at h1 k" for k using heap_extends_cell c by blast
  have obj: "obj_at h2 a = obj_at h1 a" for a using c by (simp add: obj_at_def)
  show ?thesis
    using assms(1,4) c old obj unfolding closed_growth_def by (metis less_Suc_eq)
qed

lemma closed_growth_obj:
  assumes "closed_growth h h1" "heap_extends h h1" "alloc_obj x h1 = (a, h2)" "\<forall>c\<in>set (ob_values x). length (h_cells h) \<le> c"
  shows "closed_growth h h2"
proof -
  note c = alloc_obj_ext [OF assms(3)]
  have old: "k < length (h_objs h1) \<Longrightarrow> obj_at h2 k = obj_at h1 k" for k using heap_extends_obj c by blast
  have cell: "cell_at h2 k = cell_at h1 k" for k using c by (simp add: cell_at_def)
  show ?thesis
    using assms(1,4) c old cell unfolding closed_growth_def by (metis less_Suc_eq)
qed

definition copied_cells :: "(script_value \<Rightarrow> script_value) \<Rightarrow> heap \<Rightarrow> nat list \<Rightarrow> nat list \<Rightarrow> heap \<Rightarrow> bool" where
  "copied_cells g h cs cs' h' \<longleftrightarrow>
     heap_wf h' \<and> heap_extends h h' \<and> closed_growth h h' \<and> length cs' = length cs \<and>
     (\<forall>c\<in>set cs'. length (h_cells h) \<le> c \<and> c < length (h_cells h')) \<and>
     (\<forall>i<length cs. copy_of g h' (cell_at h (cs ! i)) (cell_at h' (cs' ! i)))"

lemma copied_cells_Cons:
  assumes "heap_wf h" "\<forall>k\<in>set (c # cs). k < length (h_cells h)"
    "heap_wf h1" "heap_extends h h1" "closed_growth h h1" "length (h_cells h) \<le> c'" "c' < length (h_cells h1)"
    "copy_of g h1 (cell_at h c) (cell_at h1 c')" "copied_cells g h1 cs cs' h'"
  shows "copied_cells g h (c # cs) (c' # cs') h'"
proof -
  have h': "heap_wf h'" "heap_extends h1 h'" "closed_growth h1 h'" "length cs' = length cs"
    "\<forall>c\<in>set cs'. length (h_cells h1) \<le> c \<and> c < length (h_cells h')"
    "\<forall>i<length cs. copy_of g h' (cell_at h1 (cs ! i)) (cell_at h' (cs' ! i))"
    using assms(9) by (auto simp: copied_cells_def)
  have le: "length (h_cells h) \<le> length (h_cells h1)" "length (h_cells h1) \<le> length (h_cells h')"
    using assms(4) h'(2) by (auto simp: heap_extends_def)
  have "value_ok h1 (cell_at h c)" using cell_ok [OF assms(1)] assms(2,4) by (metis heap_extends_le list.set_intros(1) value_ok_mono)
  then have first: "copy_of g h' (cell_at h c) (cell_at h' c')"
    using copy_of_ext [OF assms(8,3) h'(2)] cell_ok [OF assms(3,7)] heap_extends_cell [OF h'(2) assms(7)] by simp
  have rest: "copy_of g h' (cell_at h (cs ! i)) (cell_at h' (cs' ! i))" if "i < length cs" for i
    using h'(6) that assms(2) heap_extends_cell [OF assms(4), of "cs ! i"] by auto
  show ?thesis
    unfolding copied_cells_def
    using h' le assms(6,7) first rest heap_extends_trans [OF assms(4) h'(2)]
      closed_growth_trans [OF assms(5) h'(3) assms(4) h'(2)]
    by (auto simp: nth_Cons less_Suc_eq_0_disj split: nat.splits)
qed

text \<open>A copied aggregate, from a copy of its cells.\<close>

lemma copied_obj:
  assumes h: "heap_wf h" "a < length (h_objs h)" and cs: "copied_cells g h (ob_values (obj_at h a)) cs h1"
    and al: "alloc_obj ((obj_at h a)\<lparr>ob_values := cs\<rparr>) h1 = (a', h')"
  shows "heap_wf h' \<and> heap_extends h h' \<and> closed_growth h h' \<and> length (h_objs h) \<le> a' \<and> value_ok h' (VObj a') \<and>
    copy_of g h' (VObj a) (VObj a')"
proof -
  have oa: "obj_ok h (obj_at h a)" by (rule obj_at_ok [OF h(1,2)])
  have x1: "heap_wf h1" "heap_extends h h1" "closed_growth h h1" using cs by (auto simp: copied_cells_def)
  note e = alloc_obj_ext [OF al]
  have "obj_ok h1 ((obj_at h a)\<lparr>ob_values := cs\<rparr>)"
    using obj_ok_mono [OF oa heap_extends_le [OF x1(2)]] cs by (auto simp: copied_cells_def obj_ok_def)
  then have wf: "heap_wf h'" "value_ok h' (VObj a')" using heap_wf_obj [OF x1(1) _ al] by auto
  have ext: "heap_extends h h'" using x1(2) e heap_extends_trans by blast
  have "copy_of g h' (VObj a) (VObj a')"
  proof (rule copy_of.copy_of_obj)
    have oa': "obj_at h' a = obj_at h a" by (rule heap_extends_obj [OF ext h(2)])
    then show "obj_at h' a' = (obj_at h' a)\<lparr>ob_values := cs\<rparr>" "length cs = length (ob_values (obj_at h' a))"
      using e cs by (auto simp: copied_cells_def)
    fix i assume i: "i < length cs"
    then have ci: "ob_values (obj_at h a) ! i < length (h_cells h)" "cs ! i < length (h_cells h1)"
      "copy_of g h1 (cell_at h (ob_values (obj_at h a) ! i)) (cell_at h1 (cs ! i))"
      using cs oa by (auto simp: copied_cells_def obj_ok_def)
    have "value_ok h1 (cell_at h (ob_values (obj_at h a) ! i))"
      using cell_ok [OF h(1) ci(1)] value_ok_mono heap_extends_le x1(2) by blast
    then have "copy_of g h' (cell_at h (ob_values (obj_at h a) ! i)) (cell_at h1 (cs ! i))"
      using copy_of_ext [OF ci(3) x1(1)] e cell_ok [OF x1(1) ci(2)] by blast
    then show "copy_of g h' (cell_at h' (ob_values (obj_at h' a) ! i)) (cell_at h' (cs ! i))"
      using oa' heap_extends_cell [OF ext ci(1)] heap_extends_cell [of h1 h', OF _ ci(2)] e by auto
  qed
  moreover have "closed_growth h h'" using closed_growth_obj [OF x1(3,2) al] cs by (auto simp: copied_cells_def)
  ultimately show ?thesis using wf ext e x1(2) by (auto simp: heap_extends_def)
qed

lemma copy_run_spec:
  assumes g: "\<And>v. \<not> is_obj v \<Longrightarrow> \<not> is_obj (g v)"
  shows "copy_run g h cs cs' h' \<Longrightarrow> heap_wf h \<Longrightarrow> \<forall>c\<in>set cs. c < length (h_cells h) \<Longrightarrow> copied_cells g h cs cs' h'"
proof (induction rule: copy_run.induct)
  case (copy_Nil h)
  then show ?case by (simp add: copied_cells_def)
next
  case (copy_scalar h c c' h1 cs cs' h2)
  note e = alloc_cell_ext [OF copy_scalar.hyps(2)]
  have s: "\<not> is_obj (g (cell_at h c))" using g copy_scalar.hyps(1) by blast
  then have "value_ok h (g (cell_at h c))" by (auto simp: value_ok_def)
  then have wf: "heap_wf h1" using heap_wf_cell [OF copy_scalar.prems(1) _ copy_scalar.hyps(2)] by blast
  have "closed_growth h h1"
    using closed_growth_cell [OF closed_growth_refl _ copy_scalar.hyps(2)] s by (auto simp: is_obj_def)
  moreover have "copy_of g h1 (cell_at h c) (cell_at h1 c')"
    using e copy_of.copy_of_scalar [OF copy_scalar.hyps(1), of g h1] by metis
  moreover have "copied_cells g h1 cs cs' h2"
    using copy_scalar.prems e by (intro copy_scalar.IH [OF wf]) (auto intro: less_SucI)
  ultimately show ?case using copied_cells_Cons [OF copy_scalar.prems wf] e by auto
next
  case (copy_obj h c a vs h1 a' h2 c' h3 cs cs' h4)
  note ec = alloc_cell_ext [OF copy_obj.hyps(4)]
  have a: "a < length (h_objs h)" using cell_ok [OF copy_obj.prems(1), of c] copy_obj.prems(2) copy_obj.hyps(1) by simp
  have "copied_cells g h (ob_values (obj_at h a)) vs h1"
    using copy_obj.IH(1) copy_obj.prems(1) obj_at_ok [OF copy_obj.prems(1) a] by (auto simp: obj_ok_def)
  then have h2: "heap_wf h2" "heap_extends h h2" "closed_growth h h2" "length (h_objs h) \<le> a'"
      "value_ok h2 (VObj a')" "copy_of g h2 (VObj a) (VObj a')"
    using copied_obj [OF copy_obj.prems(1) a _ copy_obj.hyps(3)] by auto
  then have h3: "heap_wf h3" "heap_extends h h3" "closed_growth h h3"
    using heap_wf_cell [OF h2(1,5) copy_obj.hyps(4)] ec heap_extends_trans
      closed_growth_cell [OF h2(3,2) copy_obj.hyps(4)] by auto
  have "value_ok h2 (VObj a)" using a h2(2) by (auto simp: heap_extends_def)
  then have "copy_of g h3 (cell_at h c) (cell_at h3 c')"
    using copy_of_ext [OF h2(6,1) _ _ h2(5)] ec copy_obj.hyps(1) by metis
  moreover have "copied_cells g h3 cs cs' h4"
    using copy_obj.prems(2) h3(2) by (intro copy_obj.IH(2) [OF h3(1)]) (auto simp: heap_extends_def intro: trans_less_add1)
  ultimately show ?case
    using copied_cells_Cons [OF copy_obj.prems h3, of c'] ec h2(2) by (auto simp: heap_extends_def)
qed

section \<open>When a copy ends\<close>

definition child :: "heap \<Rightarrow> nat \<Rightarrow> nat \<Rightarrow> bool" where
  "child h b a \<longleftrightarrow> (\<exists>c\<in>set (ob_values (obj_at h a)). cell_at h c = VObj b)"

text \<open>No infinite path of aggregates inside aggregates starts at the value.\<close>

definition finite_value :: "heap \<Rightarrow> script_value \<Rightarrow> bool" where
  "finite_value h v \<longleftrightarrow> (\<forall>a. v = VObj a \<longrightarrow> Wellfounded.accp (child h) a)"

lemma child_valid:
  "heap_wf h \<Longrightarrow> a < length (h_objs h) \<Longrightarrow> child h b a \<Longrightarrow> b < length (h_objs h)"
  using cell_ok [of h] obj_at_ok [of h a] by (fastforce simp: child_def obj_ok_def)

lemma child_ext:
  assumes "heap_wf h" "heap_extends h h'" "a < length (h_objs h)"
  shows "child h' b a \<longleftrightarrow> child h b a"
proof -
  have "c \<in> set (ob_values (obj_at h a)) \<Longrightarrow> cell_at h' c = cell_at h c" for c
    using obj_at_ok [OF assms(1,3)] heap_extends_cell [OF assms(2)] by (auto simp: obj_ok_def)
  then show ?thesis using heap_extends_obj [OF assms(2,3)] by (auto simp: child_def)
qed

lemma accp_child_restrict:
  assumes "Wellfounded.accp (child h') a" "heap_wf h" "heap_extends h h'" "a < length (h_objs h)"
  shows "Wellfounded.accp (child h) a"
  using assms(1,4)
proof (induction rule: accp.induct)
  case (accI a)
  show ?case
  proof (rule accp.accI)
    fix b assume b: "child h b a"
    then show "Wellfounded.accp (child h) b"
      using accI child_ext [OF assms(2,3) accI.prems] child_valid [OF assms(2) accI.prems] by blast
  qed
qed

lemma copy_run_finite:
  assumes g: "\<And>v. \<not> is_obj v \<Longrightarrow> \<not> is_obj (g v)"
  shows "copy_run g h cs cs' h' \<Longrightarrow> heap_wf h \<Longrightarrow> \<forall>c\<in>set cs. c < length (h_cells h) \<Longrightarrow>
    \<forall>c\<in>set cs. finite_value h (cell_at h c)"
proof (induction rule: copy_run.induct)
  case (copy_scalar h c c' h1 cs cs' h2)
  have h1: "copied_cells g h [c] [c'] h1"
    using copy_scalar by (intro copy_run_spec [OF g] copy_run.intros) (auto intro: copy_run.intros)
  have "\<forall>c\<in>set cs. finite_value h1 (cell_at h1 c)"
    using h1 copy_scalar.prems by (intro copy_scalar.IH) (auto simp: copied_cells_def heap_extends_def)
  then have "\<forall>c\<in>set cs. finite_value h (cell_at h c)"
    using h1 copy_scalar.prems accp_child_restrict cell_ok heap_extends_cell [of h h1]
    by (fastforce simp: copied_cells_def finite_value_def)
  then show ?case using copy_scalar.hyps(1) by (auto simp: finite_value_def)
next
  case (copy_obj h c a vs h1 a' h2 c' h3 cs cs' h4)
  have a: "a < length (h_objs h)" using cell_ok [OF copy_obj.prems(1), of c] copy_obj.prems(2) copy_obj.hyps(1) by simp
  have "\<forall>k\<in>set (ob_values (obj_at h a)). finite_value h (cell_at h k)"
    using copy_obj.prems(1) obj_at_ok [OF copy_obj.prems(1) a] by (intro copy_obj.IH(1)) (auto simp: obj_ok_def)
  then have "Wellfounded.accp (child h) a" by - (rule accp.accI, auto simp: child_def finite_value_def)
  moreover have h3: "copied_cells g h [c] [c'] h3"
    using copy_obj copy_run.copy_obj [OF copy_obj.hyps(1-4) copy_Nil] by (intro copy_run_spec [OF g]) auto
  have "\<forall>c\<in>set cs. finite_value h3 (cell_at h3 c)"
    using h3 copy_obj.prems by (intro copy_obj.IH(2)) (auto simp: copied_cells_def heap_extends_def)
  then have "\<forall>c\<in>set cs. finite_value h (cell_at h c)"
    using h3 copy_obj.prems accp_child_restrict cell_ok heap_extends_cell [of h h3]
    by (fastforce simp: copied_cells_def finite_value_def)
  ultimately show ?case using copy_obj.hyps(1) by (auto simp: finite_value_def)
qed simp

lemma copy_run_list:
  assumes g: "\<And>v. \<not> is_obj v \<Longrightarrow> \<not> is_obj (g v)"
    and sub: "\<And>b H. \<exists>c\<in>set cs. cell_at h c = VObj b \<Longrightarrow> heap_extends h H \<Longrightarrow> heap_wf H \<Longrightarrow>
      \<exists>vs H'. copy_run g H (ob_values (obj_at H b)) vs H'"
    and cells: "\<forall>c\<in>set cs. c < length (h_cells h)"
    and h: "heap_wf h" "heap_extends h H" "heap_wf H"
  shows "\<exists>cs' H'. copy_run g H cs cs' H'"
  using sub cells h(2,3)
proof (induction cs arbitrary: H)
  case Nil
  show ?case using copy_Nil by blast
next
  case (Cons c cs)
  have c: "cell_at H c = cell_at h c" "c < length (h_cells H)"
    using heap_extends_cell [OF Cons.prems(3)] Cons.prems(2,3) by (auto simp: heap_extends_def)
  have "\<exists>c' H1. copy_run g H [c] [c'] H1 \<and>
      (\<forall>cs' H2. copy_run g H1 cs cs' H2 \<longrightarrow> copy_run g H (c # cs) (c' # cs') H2)"
  proof (cases "is_obj (cell_at h c)")
    case True
    then obtain b where b: "cell_at h c = VObj b" by (auto simp: is_obj_def)
    then obtain vs H1 where 1: "copy_run g H (ob_values (obj_at H b)) vs H1"
      using Cons.prems(1) [of b H] Cons.prems(3,4) by auto
    obtain a' H2 where 2: "alloc_obj ((obj_at H b)\<lparr>ob_values := vs\<rparr>) H1 = (a', H2)" by fastforce
    obtain c' H3 where 3: "alloc_cell (VObj a') H2 = (c', H3)" by fastforce
    show ?thesis
      using copy_obj [OF _ 1 2 3] copy_obj [OF _ 1 2 3 copy_Nil] b c
      by (intro exI [of _ c'] exI [of _ H3]) auto
  next
    case False
    obtain c' H1 where "alloc_cell (g (cell_at H c)) H = (c', H1)" by fastforce
    then show ?thesis
      using copy_scalar [of H c g c' H1] copy_Nil False c by (intro exI [of _ c'] exI [of _ H1]) auto
  qed
  then obtain c' H1 where 1: "copy_run g H [c] [c'] H1"
    "\<And>cs' H2. copy_run g H1 cs cs' H2 \<Longrightarrow> copy_run g H (c # cs) (c' # cs') H2" by blast
  have "copied_cells g H [c] [c'] H1" using copy_run_spec [OF g 1(1) Cons.prems(4)] c by simp
  then have "heap_extends h H1" "heap_wf H1"
    using Cons.prems(3) heap_extends_trans by (auto simp: copied_cells_def)
  moreover have "\<exists>vs H'. copy_run g K (ob_values (obj_at K b)) vs H'"
    if "\<exists>c\<in>set cs. cell_at h c = VObj b" "heap_extends h K" "heap_wf K" for b K
    using Cons.prems(1) [of b K] that by auto
  ultimately have "\<exists>cs' H2. copy_run g H1 cs cs' H2" using Cons.prems(2) by (intro Cons.IH) simp_all
  then show ?case using 1(2) by blast
qed

lemma copy_run_exists:
  assumes g: "\<And>v. \<not> is_obj v \<Longrightarrow> \<not> is_obj (g v)" and h: "heap_wf h"
    and a: "Wellfounded.accp (child h) a" "a < length (h_objs h)" and H: "heap_extends h H" "heap_wf H"
  shows "\<exists>vs H'. copy_run g H (ob_values (obj_at H a)) vs H'"
  using a H
proof (induction arbitrary: H rule: accp.induct)
  case (accI a)
  have oa: "obj_at H a = obj_at h a" using heap_extends_obj accI.prems by blast
  have cells: "\<forall>c\<in>set (ob_values (obj_at h a)). c < length (h_cells h)"
    using obj_at_ok [OF h accI.prems(1)] by (auto simp: obj_ok_def)
  have sub: "\<exists>vs H'. copy_run g K (ob_values (obj_at K b)) vs H'"
    if b: "\<exists>c\<in>set (ob_values (obj_at h a)). cell_at h c = VObj b" and K: "heap_extends h K" "heap_wf K" for b K
  proof (rule accI.IH)
    show ch: "child h b a" using b by (simp add: child_def)
    show "b < length (h_objs h)" by (rule child_valid [OF h accI.prems(1) ch])
  qed (rule K)+
  show ?case unfolding oa by (rule copy_run_list [OF g sub cells h accI.prems(2,3)])
qed

lemma copy_run_iff:
  assumes g: "\<And>v. \<not> is_obj v \<Longrightarrow> \<not> is_obj (g v)" and h: "heap_wf h" "a < length (h_objs h)"
  shows "(\<exists>vs h'. copy_run g h (ob_values (obj_at h a)) vs h') \<longleftrightarrow> finite_value h (VObj a)"
proof
  assume "\<exists>vs h'. copy_run g h (ob_values (obj_at h a)) vs h'"
  then have "\<forall>c\<in>set (ob_values (obj_at h a)). finite_value h (cell_at h c)"
    using copy_run_finite [OF g] h obj_at_ok [OF h] by (auto simp: obj_ok_def)
  then have "Wellfounded.accp (child h) a" by - (rule accp.accI, auto simp: child_def finite_value_def)
  then show "finite_value h (VObj a)" by (simp add: finite_value_def)
next
  assume "finite_value h (VObj a)"
  then show "\<exists>vs h'. copy_run g h (ob_values (obj_at h a)) vs h'"
    using copy_run_exists [OF g h(1) _ h(2) heap_extends_refl h(1)] by (simp add: finite_value_def)
qed

lemma zero_scalar_obj: "\<not> is_obj v \<Longrightarrow> \<not> is_obj (zero_scalar v)"
  by (cases v) (simp_all add: zero_scalar_def)

lemma dup_cells_iff: "dup_cells h cs = Some (cs', h') \<longleftrightarrow> copy_run id h cs cs' h'"
  using dup_cells_complete [of h cs cs' h'] dup_cells_sound [of h cs "(cs', h')"] by auto

lemma zero_cells_iff: "zero_cells h cs = Some (cs', h') \<longleftrightarrow> copy_run zero_scalar h cs cs' h'"
  using zero_cells_complete [of h cs cs' h'] zero_cells_sound [of h cs "(cs', h')"] by auto

section \<open>Deep copies\<close>

inductive reaches :: "heap \<Rightarrow> script_value \<Rightarrow> nat \<Rightarrow> bool" for h :: heap and v :: script_value where
  reaches_element: "v = VObj a \<Longrightarrow> c \<in> set (ob_values (obj_at h a)) \<Longrightarrow> reaches h v c"
| reaches_inside: "reaches h v c \<Longrightarrow> cell_at h c = VObj a \<Longrightarrow> c' \<in> set (ob_values (obj_at h a)) \<Longrightarrow> reaches h v c'"

lemma reaches_old:
  assumes "heap_wf h" "heap_extends h h'" "value_ok h v"
  shows "reaches h' v c \<Longrightarrow> c < length (h_cells h)"
proof (induction rule: reaches.induct)
  case (reaches_element a c)
  then show ?case using assms obj_at_ok [of h a] heap_extends_obj [of h h' a] by (auto simp: obj_ok_def)
next
  case (reaches_inside c a c')
  then have "a < length (h_objs h)" using cell_ok [OF assms(1)] heap_extends_cell [OF assms(2), of c] by fastforce
  then show ?case
    using reaches_inside.hyps(3) assms obj_at_ok [of h a] heap_extends_obj [of h h' a] by (auto simp: obj_ok_def)
qed

lemma reaches_new:
  assumes "heap_wf h'" "closed_growth h h'" "value_ok h' v" "\<And>a. v = VObj a \<Longrightarrow> length (h_objs h) \<le> a"
  shows "reaches h' v c \<Longrightarrow> length (h_cells h) \<le> c \<and> c < length (h_cells h')"
proof (induction rule: reaches.induct)
  case (reaches_element a c)
  then show ?case using assms obj_at_ok [of h' a] by (auto simp: closed_growth_def obj_ok_def)
next
  case (reaches_inside c a c')
  then have a: "length (h_objs h) \<le> a" "a < length (h_objs h')"
    using cell_ok [OF assms(1), of c] assms(2) by (auto simp: closed_growth_def)
  then show ?case using assms(2) obj_at_ok [OF assms(1) a(2)] reaches_inside.hyps(3) by (auto simp: closed_growth_def obj_ok_def)
qed

lemma copied_obj_cells:
  "(\<And>v. \<not> is_obj v \<Longrightarrow> \<not> is_obj (g v)) \<Longrightarrow> heap_wf h \<Longrightarrow> a < length (h_objs h) \<Longrightarrow>
   copy_run g h (ob_values (obj_at h a)) cs h1 \<Longrightarrow> copied_cells g h (ob_values (obj_at h a)) cs h1"
  using copy_run_spec [of g h "ob_values (obj_at h a)" cs h1] obj_at_ok [of h a] by (auto simp: obj_ok_def)

lemma duplicate_copy:
  assumes "heap_wf h" "value_ok h v" "duplicate v h = Some (v', h')"
  shows "heap_wf h' \<and> heap_extends h h' \<and> closed_growth h h' \<and> value_ok h' v' \<and> copy_of id h' v v' \<and>
    (\<forall>a. v' = VObj a \<longrightarrow> length (h_objs h) \<le> a)"
proof (cases v)
  case (VObj a)
  then obtain cs h1 a' where d: "dup_cells h (ob_values (obj_at h a)) = Some (cs, h1)"
      "alloc_obj ((obj_at h a)\<lparr>ob_values := cs\<rparr>) h1 = (a', h')" "v' = VObj a'"
    using assms(3) by (auto simp: duplicate_def split: bind_splits prod.splits)
  then show ?thesis
    using copied_obj [of h a id cs h1 a' h'] copied_obj_cells [of id] assms(1,2) VObj
    by (auto simp: dup_cells_iff)
qed (use assms in \<open>auto simp: duplicate_def intro: copy_of_scalar [where g = id, simplified]\<close>)

lemma zero_like_copy:
  assumes "heap_wf h" "value_ok h v" "zero_like v h = Some (v', h')"
  shows "heap_wf h' \<and> heap_extends h h' \<and> value_ok h' v'"
proof (cases v)
  case (VObj a)
  then obtain cs h1 a' where d: "zero_cells h (ob_values (obj_at h a)) = Some (cs, h1)"
      "alloc_obj ((obj_at h a)\<lparr>ob_values := cs\<rparr>) h1 = (a', h')" "v' = VObj a'"
    using assms(3) by (auto simp: zero_like_def split: bind_splits prod.splits)
  then show ?thesis
    using copied_obj [of h a zero_scalar cs h1 a' h'] copied_obj_cells [OF zero_scalar_obj] assms(1,2) VObj
    by (auto simp: zero_cells_iff)
qed (use assms in \<open>auto simp: zero_like_def zero_scalar_def\<close>)

lemma duplicate_finite:
  assumes "heap_wf h" "value_ok h v"
  shows "duplicate v h \<noteq> None \<longleftrightarrow> finite_value h v"
proof (cases v)
  case (VObj a)
  have "duplicate v h \<noteq> None \<longleftrightarrow> (\<exists>cs h'. dup_cells h (ob_values (obj_at h a)) = Some (cs, h'))"
    using VObj by (auto simp: duplicate_def split: bind_splits prod.splits)
  then show ?thesis using copy_run_iff [of id h a] assms VObj by (simp add: dup_cells_iff)
qed (simp_all add: duplicate_def finite_value_def)


definition sample_heap :: heap where
  "sample_heap =
     \<lparr>h_cells = [VInt 5],
      h_objs = [\<lparr>ob_data_type = 0x57bad, ob_values = [0], ob_blank_base = Some (VInt 0), ob_is_array = True\<rparr>]\<rparr>"


section \<open>Operators and resizing\<close>

lemma obj_resize_ok:
  assumes "heap_wf h" "a < length (h_objs h)" "obj_resize a n grow h = (r, h')"
  shows "heap_wf h' \<and> heap_le h h'"
proof -
  have oa: "obj_ok h (obj_at h a)" by (rule obj_at_ok [OF assms(1,2)])
  show ?thesis
  proof (cases "ob_blank_base (obj_at h a)")
    case None
    then show ?thesis using assms by (simp add: obj_resize_def)
  next
    case (Some base)
    let ?vs = "ob_values (obj_at h a)"
    show ?thesis
    proof (cases "length ?vs < n")
      case True
      obtain cs h1 where al: "alloc_cells (replicate (n - length ?vs) base) h = (cs, h1)" by fastforce
      have "list_all (value_ok h) (replicate (n - length ?vs) base)"
        using oa Some by (auto simp: obj_ok_def list_all_iff)
      then have h1: "heap_wf h1" "heap_le h h1" "\<forall>c\<in>set cs. c < length (h_cells h1)"
        using heap_wf_cells [OF assms(1) _ al] by auto
      then have "obj_ok h1 ((obj_at h a)\<lparr>ob_values := ?vs @ cs\<rparr>)"
        using obj_ok_mono [OF oa h1(2)] by (auto simp: obj_ok_def)
      then show ?thesis
        using heap_wf_set_obj [OF h1(1)] heap_le_trans [OF h1(2)] assms(3) Some True al
        by (auto simp: obj_resize_def Let_def)
    next
      case False
      have "obj_ok h ((obj_at h a)\<lparr>ob_values := take n ?vs\<rparr>)"
        using oa by (auto simp: obj_ok_def dest: in_set_takeD)
      then show ?thesis
        using heap_wf_set_obj [OF assms(1)] assms False Some by (auto simp: obj_resize_def Let_def split: if_splits)
    qed
  qed
qed

text \<open>After a resize that works, an array has the requested length, or keeps a greater one if it may only grow.\<close>

lemma length_alloc_cells: "alloc_cells vs h = (cs, h') \<Longrightarrow> length cs = length vs \<and> h_objs h' = h_objs h"
proof (induction vs arbitrary: h cs h')
  case (Cons v vs)
  then show ?case by (auto simp: alloc_cell_def split: prod.splits)
qed simp

lemma obj_resize_length:
  assumes "a < length (h_objs h)" "obj_resize a n grow h = (Inr (), h')"
  shows "length (ob_values (obj_at h' a)) =
    (if grow then max n (length (ob_values (obj_at h a))) else n)"
  using assms length_alloc_cells
  by (fastforce simp: obj_resize_def Let_def set_obj_def obj_at_def split: option.splits if_splits prod.splits)

lemma scalar_op_scalar: "scalar_op pf v op rhs = Inr out \<Longrightarrow> \<not> is_obj out"
  by (cases v)
    (auto simp: int_op_def real_op_def str_op_def vbool_def Let_def split: if_splits option.splits script_value.splits)

lemma do_operator_scalar:
  assumes "\<not> is_obj lhs" "do_operator pf lhs op rhs h = Some (r, h')"
  shows "h' = h \<and> (\<forall>out. r = Inr out \<longrightarrow> value_ok h' out)"
proof -
  have "h' = h \<and> ((\<exists>e. r = Inl e) \<or> r = scalar_op pf lhs op rhs)"
    using assms by (cases lhs) (auto simp: do_operator_def simp del: scalar_op.simps split: if_splits option.splits)
  then show ?thesis using scalar_op_scalar [of pf lhs op rhs] by (metis is_obj_def value_ok_def Inr_Inl_False)
qed

lemma do_operator_ok:
  assumes "heap_wf h" "value_ok h lhs" "\<And>v. rhs = Some v \<Longrightarrow> value_ok h v" "do_operator pf lhs op rhs h = Some (r, h')"
  shows "heap_wf h' \<and> heap_le h h' \<and> (\<forall>out. r = Inr out \<longrightarrow> value_ok h' out)"
proof (cases lhs)
  case (VObj this)
  have scalar: "value_ok h' (vbool b)" for b by (simp add: vbool_def)
  show ?thesis
  proof (cases "\<exists>other. rhs = Some (VObj other) \<and> op = 0 \<and> value_data_type h (VObj other) = value_data_type h lhs")
    case True
    then obtain other cs h1 where o: "rhs = Some (VObj other)"
      "copy_run id h (ob_values (obj_at h other)) cs h1"
      "r = Inr (VObj this)" "h' = set_obj this ((obj_at h1 this)\<lparr>ob_values := cs\<rparr>) h1"
      using assms(4) VObj
      by (auto simp: do_operator_def obj_op_def dup_cells_iff split: if_splits bind_splits)
    then have cs: "copied_cells id h (ob_values (obj_at h other)) cs h1"
      using copied_obj_cells [of id h other cs h1] assms(1,3) by simp
    have th: "this < length (h_objs h1)" "heap_wf h1" "heap_le h h1"
      using cs assms(2) VObj heap_extends_le by (auto simp: copied_cells_def heap_extends_def)
    have "obj_ok h1 ((obj_at h1 this)\<lparr>ob_values := cs\<rparr>)"
      using obj_at_ok [OF th(2,1)] cs by (auto simp: copied_cells_def obj_ok_def)
    then show ?thesis
      using heap_wf_set_obj [OF th(2)] heap_le_trans [OF th(3)] th(1) o by (auto simp: set_obj_def)
  next
    case False
    then show ?thesis
      using assms(1,4) VObj scalar
      by (auto simp: do_operator_def obj_op_def split: if_splits bind_splits option.splits script_value.splits)
  qed
qed (use assms(1) do_operator_scalar [OF _ assms(4)] in auto)

end
