(* ===== verification/Script_Safety.thy ===== *)
theory Script_Safety
  imports Script_Heap "HOL-Library.Sublist"
begin

text \<open>
  The machine never panics, and every address it holds stays valid: the invariant of the machine, rules
  for operations in sequence, and one lemma per primitive and per handler. The host is any that hands
  out valid addresses.
\<close>

section \<open>The host contract\<close>

locale script_host =
  fixes hf :: "'h host_fun"
  assumes host_keeps: "heap_wf h \<Longrightarrow> list_all (value_ok h) args \<Longrightarrow> hf decl args st h = (r, st', h') \<Longrightarrow>
    heap_wf h' \<and> heap_le h h' \<and> (\<forall>v. r = Inr v \<longrightarrow> value_ok h' v)"

interpretation null: script_host null_host
  by unfold_locales (auto simp: null_host_def)

section \<open>The invariant\<close>

definition prog_shape :: "program \<Rightarrow> nat list" where
  "prog_shape p = map (\<lambda>f. length (sf_scripts f)) (pg_files p)"

definition script_in :: "nat list \<Rightarrow> nat \<Rightarrow> nat \<Rightarrow> bool" where
  "script_in sh file sc \<longleftrightarrow> file < length sh \<and> sc < sh ! file"

definition slot_ok :: "nat list \<Rightarrow> heap \<Rightarrow> slot \<Rightarrow> bool" where
  "slot_ok sh h x =
     (case x of
        SVal v \<Rightarrow> value_ok h v
      | SCell c \<Rightarrow> c < length (h_cells h)
      | SRef r \<Rightarrow>
          (case r of
             BoundConst file _ \<Rightarrow> file < length sh
           | BoundStatic file sc _ \<Rightarrow> script_in sh file sc
           | BoundLocal _ _ \<Rightarrow> True))"

definition frame_ok :: "nat list \<Rightarrow> heap \<Rightarrow> frame \<Rightarrow> bool" where
  "frame_ok sh h f \<longleftrightarrow>
     script_in sh (fr_file f) (fr_script f) \<and> (\<forall>x. Some x \<in> set (fr_locals f) \<longrightarrow> slot_ok sh h x)"

definition script_ok :: "heap \<Rightarrow> script \<Rightarrow> bool" where
  "script_ok h x \<longleftrightarrow> (\<forall>v. Some v \<in> set (sc_statics x) \<longrightarrow> value_ok h v)"

definition file_ok :: "heap \<Rightarrow> script_file \<Rightarrow> bool" where
  "file_ok h f \<longleftrightarrow> (\<forall>v\<in>set (sf_const_pool f). value_ok h v) \<and> (\<forall>x\<in>set (sf_scripts f). script_ok h x)"

abbreviation vm_shape :: "'h vm \<Rightarrow> nat list" where "vm_shape s \<equiv> prog_shape (vm_prog s)"

definition vm_wf :: "'h vm \<Rightarrow> bool" where
  "vm_wf s \<longleftrightarrow>
     heap_wf (vm_heap s) \<and> (\<forall>f\<in>set (pg_files (vm_prog s)). file_ok (vm_heap s) f) \<and>
     (\<forall>f\<in>set (vm_frames s). frame_ok (vm_shape s) (vm_heap s) f) \<and>
     (\<forall>x\<in>set (vm_stack s). slot_ok (vm_shape s) (vm_heap s) x) \<and>
     (\<forall>v. vm_returned s = Some v \<longrightarrow> value_ok (vm_heap s) v)"

abbreviation slot_in :: "'h vm \<Rightarrow> slot \<Rightarrow> bool" where "slot_in s x \<equiv> slot_ok (vm_shape s) (vm_heap s) x"
abbreviation value_in :: "'h vm \<Rightarrow> script_value \<Rightarrow> bool" where "value_in s v \<equiv> value_ok (vm_heap s) v"

text \<open>
  One machine state after another within an instruction: the program has the same text (all but the
  statics, the trigger bits and the sidecar), the heap grew, the frames are the same up to their
  positions and local variables, or more were pushed.
\<close>

definition script_text :: "script \<Rightarrow> script" where
  "script_text x = x\<lparr>sc_statics := [], sc_trigger_bits := map (\<lambda>_. 0) (sc_trigger_bits x)\<rparr>"

definition file_text :: "script_file \<Rightarrow> script_file" where
  "file_text f = f\<lparr>sf_scripts := map script_text (sf_scripts f)\<rparr>"

definition text_of :: "program \<Rightarrow> program" where
  "text_of p = p\<lparr>pg_files := map file_text (pg_files p), pg_walk_meta := None\<rparr>"

definition frame_sig :: "frame \<Rightarrow> frame" where
  "frame_sig f = f\<lparr>fr_bip := 0, fr_locals := []\<rparr>"

definition vm_same :: "'h vm \<Rightarrow> 'h vm \<Rightarrow> bool" where
  "vm_same s s' \<longleftrightarrow>
     text_of (vm_prog s') = text_of (vm_prog s) \<and> heap_le (vm_heap s) (vm_heap s') \<and>
     vm_budget s' = vm_budget s \<and> vm_bytecodes_executed s' = vm_bytecodes_executed s"

definition vm_le :: "'h vm \<Rightarrow> 'h vm \<Rightarrow> bool" where
  "vm_le s s' \<longleftrightarrow>
     vm_same s s' \<and> prefix (map frame_sig (vm_frames s)) (map frame_sig (vm_frames s'))"

lemma text_of_shape: "text_of p = text_of p' \<Longrightarrow> prog_shape p = prog_shape p'"
proof -
  assume "text_of p = text_of p'"
  then have "pg_files (text_of p) = pg_files (text_of p')" by simp
  then have "map file_text (pg_files p) = map file_text (pg_files p')" by (simp add: text_of_def)
  then have "map (\<lambda>f. length (sf_scripts f)) (map file_text (pg_files p)) =
    map (\<lambda>f. length (sf_scripts f)) (map file_text (pg_files p'))" by simp
  then show ?thesis by (simp add: prog_shape_def file_text_def comp_def)
qed

lemma vm_same_trans: "vm_same s s' \<Longrightarrow> vm_same s' s'' \<Longrightarrow> vm_same s s''"
  by (auto simp: vm_same_def intro: heap_le_trans)

lemma vm_same_shape: "vm_same s s' \<Longrightarrow> vm_shape s' = vm_shape s"
  by (rule text_of_shape) (simp add: vm_same_def)

lemma vm_le_refl [simp]: "vm_le s s"
  by (simp add: vm_le_def vm_same_def)

lemma vm_le_trans: "vm_le s s' \<Longrightarrow> vm_le s' s'' \<Longrightarrow> vm_le s s''"
  unfolding vm_le_def using vm_same_trans prefix_order.trans by blast

lemma slot_ok_heap: "slot_ok sh h x \<Longrightarrow> heap_le h h' \<Longrightarrow> slot_ok sh h' x"
  by (auto simp: slot_ok_def heap_le_def value_ok_def split: slot.splits bound_ref.splits)

lemma frame_ok_heap: "frame_ok sh h f \<Longrightarrow> heap_le h h' \<Longrightarrow> frame_ok sh h' f"
  by (auto simp: frame_ok_def intro: slot_ok_heap)

lemma file_ok_heap: "file_ok h f \<Longrightarrow> heap_le h h' \<Longrightarrow> file_ok h' f"
  by (auto simp: file_ok_def script_ok_def intro: value_ok_mono)

lemma slot_in_mono: "slot_in s x \<Longrightarrow> vm_le s s' \<Longrightarrow> slot_in s' x"
  using vm_same_shape [of s s'] slot_ok_heap by (auto simp: vm_le_def vm_same_def)

lemma value_in_mono: "value_in s v \<Longrightarrow> vm_le s s' \<Longrightarrow> value_in s' v"
  by (auto simp: vm_le_def vm_same_def intro: value_ok_mono)

lemma vm_wf_heap: "vm_wf s \<Longrightarrow> heap_wf h \<Longrightarrow> heap_le (vm_heap s) h \<Longrightarrow> vm_wf (s\<lparr>vm_heap := h\<rparr>)"
  by (auto simp: vm_wf_def intro: file_ok_heap frame_ok_heap slot_ok_heap value_ok_mono)

section \<open>Rules for operations in sequence\<close>

definition safe :: "'h vm \<Rightarrow> ('h, 'a) action \<Rightarrow> ('a \<Rightarrow> 'h vm \<Rightarrow> bool) \<Rightarrow> bool" where
  "safe s m q \<longleftrightarrow>
     (\<forall>r s'. m s = Some (r, s') \<longrightarrow>
        vm_le s s' \<and> vm_wf s' \<and> r \<noteq> Inl Panic \<and> (\<forall>x. r = Inr x \<longrightarrow> q x s'))"

abbreviation running :: "'h vm \<Rightarrow> bool" where "running s \<equiv> vm_frames s \<noteq> []"

lemma running_mono: "running s \<Longrightarrow> vm_le s s' \<Longrightarrow> running s'"
  by (auto simp: vm_le_def prefix_def)

lemma safe_seq:
  assumes "safe s m q" "\<And>x s'. vm_le s s' \<Longrightarrow> vm_wf s' \<Longrightarrow> q x s' \<Longrightarrow> safe s' (f x) q'"
  shows "safe s (vbind m f) q'"
  unfolding safe_def
proof (intro allI impI)
  fix r s'' assume "vbind m f s = Some (r, s'')"
  then consider e where "m s = Some (Inl e, s'')" "r = Inl e"
    | x s' where "m s = Some (Inr x, s')" "f x s' = Some (r, s'')"
    by (auto simp: vbind_def split: option.splits sum.splits)
  then show "vm_le s s'' \<and> vm_wf s'' \<and> r \<noteq> Inl Panic \<and> (\<forall>x. r = Inr x \<longrightarrow> q' x s'')"
  proof cases
    case 1
    then show ?thesis using assms(1) by (auto simp: safe_def)
  next
    case 2
    then have "vm_le s s'" "vm_wf s'" "q x s'" using assms(1) by (auto simp: safe_def)
    then show ?thesis using assms(2) [of s' x] 2(2) by (auto simp: safe_def intro: vm_le_trans)
  qed
qed

lemma safe_bind:
  "running s \<Longrightarrow> safe s m q \<Longrightarrow>
   (\<And>x s'. vm_le s s' \<Longrightarrow> vm_wf s' \<Longrightarrow> running s' \<Longrightarrow> q x s' \<Longrightarrow> safe s' (f x) q') \<Longrightarrow> safe s (vbind m f) q'"
  using safe_seq running_mono by blast

lemma safe_ret: "vm_wf s \<Longrightarrow> q x s \<Longrightarrow> safe s (vret x) q"
  by (simp add: safe_def vret_def)

lemma safe_fail: "vm_wf s \<Longrightarrow> safe s (vfail e) q"
  by (simp add: safe_def vfail_def)

lemma safe_read: "vm_wf s \<Longrightarrow> safe s (vread f) (\<lambda>x s'. s' = s \<and> x = f s)"
  by (simp add: safe_def vread_def)

lemma safe_mod: "vm_wf (f s) \<Longrightarrow> vm_le s (f s) \<Longrightarrow> safe s (vmod f) (\<lambda>_ s'. s' = f s)"
  by (simp add: safe_def vmod_def)

lemma safe_ok_or: "vm_wf s \<Longrightarrow> safe s (ok_or e x) (\<lambda>v s'. s' = s \<and> x = Some v)"
  by (simp add: safe_def ok_or_def vret_def vfail_def split: option.splits)

lemma safe_index: "vm_wf s \<Longrightarrow> x \<noteq> None \<Longrightarrow> safe s (index_or_panic x) (\<lambda>v s'. s' = s \<and> x = Some v)"
  by (auto simp: safe_def index_or_panic_def vret_def split: option.splits)

lemma safe_if: "(b \<Longrightarrow> safe s m q) \<Longrightarrow> (\<not> b \<Longrightarrow> safe s m' q) \<Longrightarrow> safe s (if b then m else m') q"
  by simp

lemma safe_weaken: "safe s m q \<Longrightarrow> (\<And>x s'. vm_le s s' \<Longrightarrow> vm_wf s' \<Longrightarrow> q x s' \<Longrightarrow> q' x s') \<Longrightarrow> safe s m q'"
  by (auto simp: safe_def)

section \<open>Primitives\<close>

abbreviation frame_in :: "'h vm \<Rightarrow> frame \<Rightarrow> bool" where "frame_in s f \<equiv> frame_ok (vm_shape s) (vm_heap s) f"

lemma safe_cur_frame:
  "vm_wf s \<Longrightarrow> running s \<Longrightarrow> safe s cur_frame (\<lambda>f s'. s' = s \<and> f = last (vm_frames s) \<and> frame_in s f)"
  by (auto simp: safe_def cur_frame_def vbind_def vread_def vret_def vm_wf_def)

lemma butlast_last_sig:
  "fs \<noteq> [] \<Longrightarrow> frame_sig f = frame_sig (last fs) \<Longrightarrow> map frame_sig (butlast fs @ [f]) = map frame_sig fs"
  by (cases fs rule: rev_cases) simp_all

lemma safe_set_frame:
  assumes "vm_wf s" "running s" "frame_in s f" "frame_sig f = frame_sig (last (vm_frames s))"
  shows "safe s (set_frame f) (\<lambda>_ s'. s' = s\<lparr>vm_frames := butlast (vm_frames s) @ [f]\<rparr>)"
  unfolding set_frame_def
proof (rule safe_mod)
  show "vm_wf (s\<lparr>vm_frames := butlast (vm_frames s) @ [f]\<rparr>)"
    using assms(1,3) by (auto simp: vm_wf_def dest: in_set_butlastD)
  show "vm_le s (s\<lparr>vm_frames := butlast (vm_frames s) @ [f]\<rparr>)"
    using butlast_last_sig [OF assms(2,4)] by (simp add: vm_le_def vm_same_def)
qed

lemma get_eq_SomeD: "get xs i = Some x \<Longrightarrow> i < length xs \<and> x = xs ! i"
  by (simp add: get_def split: if_splits)

lemma get_eq_None_iff: "get xs i = None \<longleftrightarrow> length xs \<le> i"
  by (simp add: get_def)

lemma safe_file_at:
  assumes "vm_wf s" "i < length (vm_shape s)"
  shows "safe s (file_at i) (\<lambda>f s'. s' = s \<and> get (pg_files (vm_prog s)) i = Some f \<and> file_ok (vm_heap s) f)"
proof -
  have "i < length (pg_files (vm_prog s))" using assms(2) by (simp add: prog_shape_def)
  then show ?thesis
    using assms(1)
    by (auto simp: safe_def file_at_def vbind_def vread_def index_or_panic_def vret_def get_def vm_wf_def)
qed

lemma safe_script_at:
  assumes "vm_wf s" "script_in (vm_shape s) i j"
  shows "safe s (script_at i j) (\<lambda>x s'. s' = s \<and> script_ok (vm_heap s) x)"
proof -
  let ?f = "pg_files (vm_prog s) ! i"
  have ij: "i < length (pg_files (vm_prog s))" "j < length (sf_scripts ?f)"
    using assms(2) by (auto simp: script_in_def prog_shape_def)
  then have "file_ok (vm_heap s) ?f" using assms(1) by (simp add: vm_wf_def)
  then have "script_ok (vm_heap s) (sf_scripts ?f ! j)" using ij(2) by (simp add: file_ok_def)
  then show ?thesis
    using assms(1) ij
    by (simp add: safe_def script_at_def file_at_def vbind_def vread_def index_or_panic_def vret_def get_def)
qed

lemma frame_ok_file: "frame_ok sh h f \<Longrightarrow> fr_file f < length sh"
  by (simp add: frame_ok_def script_in_def)

lemma frame_ok_bip [simp]: "frame_ok sh h (f\<lparr>fr_bip := n\<rparr>) \<longleftrightarrow> frame_ok sh h f"
  by (simp add: frame_ok_def)

lemma frame_sig_bip [simp]: "frame_sig (f\<lparr>fr_bip := n\<rparr>) = frame_sig f"
  and frame_sig_locals [simp]: "frame_sig (f\<lparr>fr_locals := ls\<rparr>) = frame_sig f"
  by (simp_all add: frame_sig_def)

lemmas frame_rules =
  safe_bind [OF _ safe_cur_frame] safe_bind [OF _ safe_file_at] safe_bind [OF _ safe_ok_or]
  safe_bind [OF _ safe_set_frame] safe_bind [OF _ safe_script_at] safe_bind [OF _ safe_index]

lemma safe_set_frame_True:
  "vm_wf s \<Longrightarrow> running s \<Longrightarrow> frame_in s f \<Longrightarrow> frame_sig f = frame_sig (last (vm_frames s)) \<Longrightarrow>
   safe s (set_frame f) (\<lambda>_ _. True)"
  by (rule safe_weaken [OF safe_set_frame]) simp_all

lemma safe_set_bip: "vm_wf s \<Longrightarrow> running s \<Longrightarrow> safe s (set_bip n) (\<lambda>_ _. True)"
  unfolding set_bip_def by (rule frame_rules safe_set_frame_True | simp)+

lemma safe_bip: "vm_wf s \<Longrightarrow> running s \<Longrightarrow> safe s bip (\<lambda>_ _. True)"
  unfolding bip_def by (rule frame_rules safe_ret | simp)+

lemma safe_fetch_u8: "vm_wf s \<Longrightarrow> running s \<Longrightarrow> safe s fetch_u8 (\<lambda>_ _. True)"
  unfolding fetch_u8_def by (rule frame_rules safe_ret | simp add: frame_ok_file)+

lemma safe_fetch_u32: "vm_wf s \<Longrightarrow> running s \<Longrightarrow> safe s fetch_u32 (\<lambda>_ _. True)"
  unfolding fetch_u32_def by (rule frame_rules safe_ret | simp add: frame_ok_file)+

lemma safe_peek_u32: "vm_wf s \<Longrightarrow> running s \<Longrightarrow> safe s (peek_u32 n) (\<lambda>_ _. True)"
  unfolding peek_u32_def by (rule frame_rules safe_weaken [OF safe_ok_or] | simp add: frame_ok_file)+

lemma safe_peek_op: "vm_wf s \<Longrightarrow> running s \<Longrightarrow> safe s peek_op (\<lambda>_ _. True)"
  unfolding peek_op_def by (rule frame_rules safe_ret | simp add: frame_ok_file)+

lemma safe_rte: "vm_wf s \<Longrightarrow> safe s (rte m n op) (\<lambda>_ _. True)"
  unfolding rte_def
  by (rule safe_seq [OF safe_mod] safe_ret | simp add: vm_wf_def vm_le_def vm_same_def)+

lemma safe_rte_op: "vm_wf s \<Longrightarrow> running s \<Longrightarrow> safe s (rte_op e n op) (\<lambda>_ _. True)"
  unfolding rte_op_def by (rule safe_bind [OF _ safe_read] safe_rte | simp)+

lemma const_at_ok:
  assumes "vm_wf s" "file < length (vm_shape s)"
  shows "const_at (vm_prog s) file i \<noteq> Inl Panic \<and> (\<forall>v. const_at (vm_prog s) file i = Inr v \<longrightarrow> value_in s v)"
proof -
  let ?f = "pg_files (vm_prog s) ! file"
  have f: "file < length (pg_files (vm_prog s))" using assms(2) by (simp add: prog_shape_def)
  then have "file_ok (vm_heap s) ?f" using assms(1) by (simp add: vm_wf_def)
  then show ?thesis using f by (auto simp: const_at_def get_def file_ok_def split: option.splits)
qed

lemma static_at_ok:
  assumes "vm_wf s" "script_in (vm_shape s) file sc"
  shows "static_at (vm_prog s) file sc i \<noteq> Inl Panic \<and> (\<forall>v. static_at (vm_prog s) file sc i = Inr v \<longrightarrow> value_in s v)"
proof -
  let ?f = "pg_files (vm_prog s) ! file"
  have f: "file < length (pg_files (vm_prog s))" "sc < length (sf_scripts ?f)"
    using assms(2) by (auto simp: script_in_def prog_shape_def)
  then have "file_ok (vm_heap s) ?f" using assms(1) by (simp add: vm_wf_def)
  then have "script_ok (vm_heap s) (sf_scripts ?f ! sc)" using f(2) by (simp add: file_ok_def)
  moreover have "get xs k = Some (Some v) \<Longrightarrow> Some v \<in> set xs" for xs k and v :: script_value
    by (metis get_eq_SomeD nth_mem)
  ultimately show ?thesis
    using f by (auto simp: static_at_def get_def [of "pg_files _"] get_def [of "sf_scripts _"] script_ok_def unwrap_or_def
      split: option.splits)
qed

lemma local_at_ok:
  assumes "vm_wf s" "local_at (vm_frames s) n i = Some x"
  shows "slot_in s x"
proof -
  obtain f where f: "get (vm_frames s) n = Some f" "get (fr_locals f) (unat i) = Some (Some x)"
    using assms(2) by (auto simp: local_at_def split: bind_splits)
  then have "frame_in s f" "Some x \<in> set (fr_locals f)"
    using assms(1) by (auto simp: vm_wf_def get_def split: if_splits) (metis nth_mem)
  then show ?thesis by (simp add: frame_ok_def)
qed

section \<open>Aliases\<close>

text \<open>
  A chain of local variables that hold references ends at one storage place: a local variable with a
  value of its own, or one that is not initialised, or what is not a local variable.
\<close>

inductive resolves :: "frame list \<Rightarrow> slot \<Rightarrow> slot \<Rightarrow> bool" for fs :: "frame list" where
  resolves_direct: "(\<And>n i. x \<noteq> SRef (BoundLocal n i)) \<Longrightarrow> resolves fs x x"
| resolves_unset: "local_at fs n i = None \<Longrightarrow> resolves fs (SRef (BoundLocal n i)) (SRef (BoundLocal n i))"
| resolves_local: "local_at fs n i = Some (SVal v) \<Longrightarrow> resolves fs (SRef (BoundLocal n i)) (SRef (BoundLocal n i))"
| resolves_alias:
    "local_at fs n i = Some y \<Longrightarrow> (\<And>v. y \<noteq> SVal v) \<Longrightarrow> resolves fs y z \<Longrightarrow> resolves fs (SRef (BoundLocal n i)) z"

definition read_slot :: "'h vm \<Rightarrow> slot \<Rightarrow> (script_value, vm_fail) result" where
  "read_slot s x =
     (case x of
        SVal v \<Rightarrow> Inr v
      | SCell c \<Rightarrow> Inr (cell_at (vm_heap s) c)
      | SRef (BoundConst file i) \<Rightarrow> const_at (vm_prog s) file i
      | SRef (BoundStatic file sc i) \<Rightarrow> static_at (vm_prog s) file sc i
      | SRef (BoundLocal n i) \<Rightarrow>
          (case local_at (vm_frames s) n i of
             Some (SVal v) \<Rightarrow> Inr v
           | _ \<Rightarrow> Inl (Fault (BadVarRef (RefLocal i)))))"

definition write_slot :: "slot \<Rightarrow> script_value \<Rightarrow> ('h, unit) action" where
  "write_slot x v =
     (case x of
        SVal _ \<Rightarrow> vret ()
      | SCell c \<Rightarrow> vmod (\<lambda>s. s\<lparr>vm_heap := set_cell c v (vm_heap s)\<rparr>)
      | SRef (BoundConst file i) \<Rightarrow> vfail (BadVarRef (RefConst i))
      | SRef (BoundStatic file sc i) \<Rightarrow> store_static file sc i v
      | SRef (BoundLocal n i) \<Rightarrow>
          (\<lambda>s. case local_at (vm_frames s) n i of
             Some _ \<Rightarrow> store_local n i v s
           | None \<Rightarrow> vfail (BadVarRef (RefLocal i)) s))"

lemma deref_in_resolved: "resolves (vm_frames s) x y \<Longrightarrow> deref_in s x = Some (read_slot s y)"
proof (induction rule: resolves.induct)
  case (resolves_direct x)
  then show ?case by (subst deref_in.simps) (auto simp: read_slot_def split: slot.splits bound_ref.splits)
next
  case (resolves_local n i v)
  then show ?case by (simp add: deref_in.simps read_slot_def)
qed (simp_all add: deref_in.simps read_slot_def)

lemma store_resolved: "resolves (vm_frames s) x y \<Longrightarrow> store x v s = write_slot y v s"
proof (induction rule: resolves.induct)
  case (resolves_direct x)
  then show ?case by (subst store.simps) (auto simp: write_slot_def split: slot.splits bound_ref.splits)
next
  case (resolves_alias n i y z)
  then show ?case by (subst store.simps) (auto split: slot.splits)
qed (simp_all add: store.simps write_slot_def)

lemma resolves_step:
  "(\<And>n i y. x = SRef (BoundLocal n i) \<Longrightarrow> local_at fs n i = Some y \<Longrightarrow> (\<And>v. y \<noteq> SVal v) \<Longrightarrow> \<exists>z. resolves fs y z) \<Longrightarrow>
   \<exists>z. resolves fs x z"
proof (cases "\<exists>n i. x = SRef (BoundLocal n i)")
  case True
  assume sub: "\<And>n i y. x = SRef (BoundLocal n i) \<Longrightarrow> local_at fs n i = Some y \<Longrightarrow> (\<And>v. y \<noteq> SVal v) \<Longrightarrow> \<exists>z. resolves fs y z"
  from True obtain n i where x: "x = SRef (BoundLocal n i)" by blast
  show ?thesis
  proof (cases "local_at fs n i")
    case None
    then show ?thesis using x resolves_unset by blast
  next
    case (Some y)
    then show ?thesis using x sub resolves_local resolves_alias by metis
  qed
qed (use resolves_direct in blast)

lemma deref_in_resolves: "deref_in s x = Some r \<Longrightarrow> \<exists>y. resolves (vm_frames s) x y"
proof -
  assume a: "deref_in s x = Some r"
  have "(case (s, x) of (s, x) \<Rightarrow> (\<lambda>r. \<exists>y. resolves (vm_frames s) x y)) r"
  proof (rule deref_in.raw_induct [of "\<lambda>s x r. \<exists>y. resolves (vm_frames s) x y" "(s, x)"])
    fix deref s x sa
    assume IH: "\<And>x b y. deref x b = Some y \<Longrightarrow> \<exists>z. resolves (vm_frames x) b z"
      and body: "(case x of SVal v \<Rightarrow> Some (Inr v) | SRef (BoundConst file i) \<Rightarrow> Some (const_at (vm_prog s) file i)
        | SRef (BoundStatic file sc i) \<Rightarrow> Some (static_at (vm_prog s) file sc i)
        | SRef (BoundLocal frame i) \<Rightarrow>
            (case local_at (vm_frames s) frame i of
               None \<Rightarrow> Some (Inl (Fault (BadVarRef (RefLocal i))))
             | Some inner \<Rightarrow> deref s inner)
        | SCell c \<Rightarrow> Some (Inr (cell_at (vm_heap s) c))) = Some sa"
    show "\<exists>y. resolves (vm_frames s) x y"
      by (rule resolves_step) (use IH body in auto)
  qed (use a in simp)
  then show ?thesis by simp
qed

lemma deref_in_iff: "deref_in s x = Some r \<longleftrightarrow> (\<exists>y. resolves (vm_frames s) x y \<and> r = read_slot s y)"
  using deref_in_resolves deref_in_resolved by fastforce

lemma store_resolves: "store x v s = Some r \<Longrightarrow> \<exists>y. resolves (vm_frames s) x y"
  apply (erule store.raw_induct [rotated])
  subgoal premises prems for st x v s r
    by (rule resolves_step) (use prems in \<open>auto split: slot.splits\<close>)
  done

lemma store_iff: "store x v s = Some r \<longleftrightarrow> (\<exists>y. resolves (vm_frames s) x y \<and> write_slot y v s = Some r)"
  using store_resolves store_resolved by fastforce

lemma resolves_slot_ok: "resolves (vm_frames s) x y \<Longrightarrow> vm_wf s \<Longrightarrow> slot_in s x \<Longrightarrow> slot_in s y"
  by (induction rule: resolves.induct) (auto intro: local_at_ok)

lemma read_slot_ok:
  assumes "vm_wf s" "slot_in s x"
  shows "read_slot s x \<noteq> Inl Panic \<and> (\<forall>v. read_slot s x = Inr v \<longrightarrow> value_in s v)"
proof (cases x)
  case (SVal v)
  then show ?thesis using assms(2) by (simp add: read_slot_def slot_ok_def)
next
  case (SCell c)
  then show ?thesis using assms cell_ok [of "vm_heap s" c] by (simp add: read_slot_def slot_ok_def vm_wf_def)
next
  case (SRef b)
  show ?thesis
  proof (cases b)
    case (BoundLocal n i)
    then show ?thesis
      using assms SRef local_at_ok [OF assms(1), of n i]
      by (auto simp: read_slot_def slot_ok_def split: option.splits slot.splits)
  next
    case (BoundConst n i)
    then show ?thesis using assms SRef const_at_ok [OF assms(1), of n i] by (simp add: read_slot_def slot_ok_def)
  next
    case (BoundStatic n sc i)
    then show ?thesis using assms SRef static_at_ok [OF assms(1), of n sc i] by (simp add: read_slot_def slot_ok_def)
  qed
qed

lemma safe_deref: "vm_wf s \<Longrightarrow> slot_in s x \<Longrightarrow> safe s (deref x) (\<lambda>v s'. s' = s \<and> value_in s v)"
  using read_slot_ok resolves_slot_ok by (fastforce simp: safe_def deref_def deref_in_iff)

lemma safe_push: "vm_wf s \<Longrightarrow> slot_in s x \<Longrightarrow> safe s (push x) (\<lambda>_ _. True)"
  unfolding push_def by (rule safe_weaken [OF safe_mod]) (auto simp: vm_wf_def vm_le_def vm_same_def)

lemma safe_pop: "vm_wf s \<Longrightarrow> safe s pop (\<lambda>x s'. slot_in s' x)"
  unfolding safe_def pop_def
  by (auto simp: vbind_def vread_def vmod_def vret_def vfail_def vm_wf_def vm_le_def vm_same_def split: list.splits)

lemma safe_pop_value: "vm_wf s \<Longrightarrow> safe s pop_value (\<lambda>v s'. value_in s' v)"
  unfolding pop_value_def
  by (rule safe_seq [OF safe_pop]) (auto intro: safe_weaken [OF safe_deref])

lemma safe_peek_value: "vm_wf s \<Longrightarrow> safe s peek_value (\<lambda>v s'. s' = s \<and> value_in s v)"
  unfolding peek_value_def
  by (rule safe_seq [OF safe_read])
    (auto simp: vm_wf_def intro: safe_fail safe_deref split: list.splits)

text \<open>Changes of one script that leave its text alone.\<close>

lemma update_at_map: "(\<And>x. f (g x) = f x) \<Longrightarrow> map f (update_at i g xs) = map f xs"
  by (simp add: update_at_def map_update) (metis list_update_id nth_map)

lemma text_of_upd_script:
  assumes "\<And>x. script_text (g x) = script_text x"
  shows "text_of (upd_script file sc g p) = text_of p"
proof -
  have "file_text (f\<lparr>sf_scripts := update_at sc g (sf_scripts f)\<rparr>) = file_text f" for f
    using update_at_map [of script_text g, OF assms] by (simp add: file_text_def)
  then show ?thesis by (simp add: text_of_def upd_script_def update_at_map)
qed

lemma text_of_upd_meta: "text_of (upd_static_meta file sc g p) = text_of p"
  by (cases p) (simp add: text_of_def upd_static_meta_def)

lemma set_update_at: "x \<in> set (update_at i g xs) \<Longrightarrow> x \<in> set xs \<or> (\<exists>y\<in>set xs. x = g y)"
  by (auto simp: update_at_def dest!: set_update_subset_insert [THEN subsetD] split: if_splits)

lemma vm_wf_upd_prog:
  assumes "vm_wf s" "text_of (g (vm_prog s)) = text_of (vm_prog s)"
    "\<And>f. f \<in> set (pg_files (g (vm_prog s))) \<Longrightarrow> file_ok (vm_heap s) f"
  shows "safe s (upd_prog g) (\<lambda>_ _. True)"
  unfolding upd_prog_def
  using assms text_of_shape [OF assms(2)]
  by (intro safe_weaken [OF safe_mod]) (auto simp: vm_wf_def vm_le_def vm_same_def)

lemma safe_upd_script:
  assumes "vm_wf s" "\<And>x. script_text (g x) = script_text x" "\<And>x. script_ok (vm_heap s) x \<Longrightarrow> script_ok (vm_heap s) (g x)"
  shows "safe s (upd_prog (upd_script file sc g)) (\<lambda>_ _. True)"
proof (rule vm_wf_upd_prog [OF assms(1)])
  show "text_of (upd_script file sc g (vm_prog s)) = text_of (vm_prog s)" by (rule text_of_upd_script) (rule assms(2))
next
  fix f assume "f \<in> set (pg_files (upd_script file sc g (vm_prog s)))"
  then obtain f0 where f0: "f0 \<in> set (pg_files (vm_prog s))"
    "f = f0 \<or> f = f0\<lparr>sf_scripts := update_at sc g (sf_scripts f0)\<rparr>"
    by (auto simp: upd_script_def dest!: set_update_at)
  then have "file_ok (vm_heap s) f0" using assms(1) by (simp add: vm_wf_def)
  then show "file_ok (vm_heap s) f" using f0(2) assms(3) by (auto simp: file_ok_def dest!: set_update_at)
qed

lemma safe_upd_meta: "vm_wf s \<Longrightarrow> safe s (upd_prog (upd_static_meta file sc g)) (\<lambda>_ _. True)"
  by (rule vm_wf_upd_prog) (simp_all add: text_of_upd_meta, simp add: upd_static_meta_def vm_wf_def)

end
