(* ===== verification/Spec2Isabelle.thy ===== *)
theory Spec2Isabelle
  imports Extension Lockstep_Properties Evidence_Properties Local_Match Coach_Properties
    Stream_Locator Lobby Script_Code Script_Safety
begin

text \<open>
  A verification of \<^verbatim>\<open>don\<close>, a reimplementation of a real-time strategy game that plays in lockstep: every
  participant simulates the whole game and only commands travel. The development covers the networking
  crate (\<^verbatim>\<open>src/crates/don-net\<close>), the coaching engine (\<^verbatim>\<open>src/crates/rontoy-core\<close>) and the values and
  operators of the script machine (\<^verbatim>\<open>src/crates/don-bhs\<close>).

  \<^bold>\<open>The parts and how they meet.\<close> A transport (\<^verbatim>\<open>transport.rs\<close>) carries datagrams; a session
  (\<^verbatim>\<open>session.rs\<close>) reads them as game messages (\<^verbatim>\<open>msg.rs\<close>), control packets (\<^verbatim>\<open>internal.rs\<close>) and the
  project's own extension packets (\<^verbatim>\<open>extension.rs\<close>), and keeps a roster, readiness, a match start and
  the packages of each turn; a local match (\<^verbatim>\<open>local_match.rs\<close>) puts phases around it. The payload of a
  package is a list of commands (\<^verbatim>\<open>lib.rs\<close>, \<^verbatim>\<open>opcodes.rs\<close>) under an XOR and padding transform
  (\<^verbatim>\<open>obfuscate.rs\<close>), with one checksum command (\<^verbatim>\<open>retail.rs\<close>). The turn clock (\<^verbatim>\<open>lockstep.rs\<close>) collects the
  decoded checksums of a turn and commits it; its transcript is persisted and replayed (\<^verbatim>\<open>evidence.rs\<close>).
  Recorded games hold the same packages (\<^verbatim>\<open>stream.rs\<close>), and lobbies carry the settings (\<^verbatim>\<open>setup.rs\<close>,
  \<^verbatim>\<open>lobby.rs\<close>). The coach (\<^verbatim>\<open>engine.rs\<close>, \<^verbatim>\<open>model.rs\<close>) reads telemetry snapshots and shows advice.

  \<^bold>\<open>Conventions.\<close> A Rust integer of \<open>w\<close> bits is a word of \<open>w\<close> bits, a \<^verbatim>\<open>usize\<close> index a natural number, a
  \<^verbatim>\<open>Result\<close> a sum with the error on the left, a struct a record, an enum a datatype, a \<^verbatim>\<open>String\<close> the list
  of its scalar values and a \<^verbatim>\<open>BTreeMap\<close> a strictly sorted association list. A method that takes
  \<^verbatim>\<open>&mut self\<close> returns the state after it, also when it fails. A panic, where the code can have one, is
  \<^const>\<open>None\<close>, and a theorem says that it does not happen.

  \<^bold>\<open>Theories.\<close>
  \<^item> \<open>DoN_Prelude\<close>: machine integers, little-endian images, ordered maps, and the interfaces as locales:
    \<open>ordered_map\<close>, \<open>codec\<close>, \<open>canonical_codec\<close>, \<open>prefix_codec\<close>, \<open>invariant_rule\<close>. \<open>Rust_Text\<close>, \<open>Rust_Numbers\<close>
    and \<open>Float32\<close>: what the code uses of the standard library on text, decimal numbers and \<^verbatim>\<open>f32\<close>.
  \<^item> \<open>Obfuscate\<close>, \<open>Commands\<close>, \<open>Retail\<close>: generator, XOR, key recovery; command lists, record and network
    framing; sealed checksum packages. Shown: round trips, bounds of the generator, when key recovery is
    right, and which byte differences a re-encoding loses.
  \<^item> \<open>Messages\<close>, \<open>Internal_Packets\<close>, \<open>Extension\<close>: the three packet layers. Shown: round trips, exactness of
    the decoders, and that keys which agree on the wire are interchangeable.
  \<^item> \<open>Lockstep\<close>, \<open>Lockstep_Properties\<close>: the turn clock. Shown: its invariant, when and what it commits,
    that arrival order does not matter, what a desync report says, and that timeouts hold.
  \<^item> \<open>Evidence\<close>, \<open>Evidence_Codec\<close>, \<open>Evidence_Properties\<close>: persisted transcripts. Shown: the reader accepts
    exactly what the writer writes, a transcript replays exactly when it can be recorded, and a replay
    is a run of the turn clock.
  \<^item> \<open>Transport\<close>: the contract of a transport as a locale, the loopback that meets it, the TCP framing.
    Shown: frames arrive however the byte stream is cut.
  \<^item> \<open>Session\<close>, \<open>Session_Properties\<close>, \<open>Session_Match\<close>: roster, readiness, match start, turn store. Shown: the
    invariant of every reachable session, who may start a match, that refusals change nothing, and that
    a poll returns on every transport that meets the contract.
  \<^item> \<open>Session_Pair\<close>, \<open>Local_Match\<close>: two sessions on a loopback in any interleaving. Shown: they never hold
    different matches, a fixed exchange starts one, and turns are sent in a started match only.
  \<^item> \<open>Stream_Locator\<close>, \<open>Setup\<close>, \<open>Lobby\<close>: the record stream of a recording, setup records, lobby attributes.
    Shown: the longest stream is found; records and settings survive; peers follow the host's deltas.
  \<^item> \<open>Coach_Model\<close>, \<open>Coach_Engine\<close>: the data and operations of the coach; \<open>Coach_Lifecycle\<close>, \<open>Coach_History\<close>,
    \<open>Coach_Properties\<close>: its events give exactly the cards on display, advice is raised only after it has
    lasted and not too often, and nothing is shown on bad data.
  \<^item> \<open>Script_Values\<close>, \<open>Script_Ops\<close>: values, aggregates on an explicit heap, operators.

  \<^bold>\<open>Loops and bounds.\<close> Every loop of the code is a recursion that ends, by structure or by a measure, with
  these exceptions. The drain of a transport in \<^verbatim>\<open>poll\<close> may not end on an arbitrary transport, and is a
  partial function; that it returns is proved from the contract. The deep operations on script
  aggregates follow references and are partial functions as well. Time is always an argument.

  \<^bold>\<open>Parameters.\<close> A transport is a record of operations whose contract is the locale \<open>datagram_transport\<close>,
  interpreted on the loopback. The operators take \<^verbatim>\<open>powf\<close> and \<^verbatim>\<open>to_lowercase\<close> as arguments.

  \<^bold>\<open>Not modelled.\<close> Sockets, accepting connections and the wait loop of the TCP transport; the texts of
  errors and the name tables for printing; allocation failure. In \<^verbatim>\<open>engine.rs\<close> the subtraction of
  committed from projected resources is taken to wrap, as it does in a release build. Of the other
  crates, the simulation and what runs on top of it (\<^verbatim>\<open>don-sim\<close>, \<^verbatim>\<open>don-replay\<close>, \<^verbatim>\<open>don-state\<close>, \<^verbatim>\<open>don-ai\<close>, \<^verbatim>\<open>don-env\<close>)
  transcribe a program that is not in the repository; \<^verbatim>\<open>don-crossplay\<close>, \<^verbatim>\<open>netsys-shim\<close>, \<^verbatim>\<open>oracle\<close>, \<^verbatim>\<open>don-pe\<close>
  and \<^verbatim>\<open>donscan\<close> are foreign-function and operating-system code; \<^verbatim>\<open>don-content\<close> and \<^verbatim>\<open>don-rules\<close> read files
  that are not there; \<^verbatim>\<open>don-gpu\<close>, the script compiler \<^verbatim>\<open>don-bhs-cc\<close> and the telemetry codec \<^verbatim>\<open>rontoy-proto\<close> are
  left out for their size.
\<close>

end
